(* ===== verification/Py_Prelude.thy ===== *)
theory Py_Prelude
  imports Complex_Main "HOL-Library.AList" "HOL-Library.Sublist" "HOL-Library.Word"
    "HOL-Library.Char_ord" "HOL-Library.List_Lexorder"
begin

text \<open>
  The Python notions that every component of the model uses.

  \<^item> A Python \<open>str\<close> is the list of its UTF-8 bytes (HOL's \<open>string\<close>); comparing UTF-8 byte strings
    lexicographically is comparing code points, so sorting is the same. \<open>lower\<close> and \<open>strip\<close> act
    on ASCII, which is all that the code's addresses, nonces and numerals contain.
  \<^item> A \<open>bytes\<close> value is a list of 8-bit words.
  \<^item> A \<open>dict\<close> is an association list with distinct keys in insertion order; \<open>AList.update\<close> keeps
    the place of a key that is present and appends a new one, as \<open>d[k] = v\<close> does.
  \<^item> An \<open>int\<close> is an \<open>int\<close>; a finite \<open>float\<close> is the number it stands for (\<open>rat\<close>, or \<open>real\<close> where the
    code takes roots and exponentials); rounding of float arithmetic is not modelled.
  \<^item> A call that can raise returns \<open>exn + 'a\<close>.
\<close>

named_theorems py_simps \<open>evaluation rules of the modelled Python operations\<close>

type_synonym byte = "8 word"

subsection \<open>Exceptions as values\<close>

text \<open>The argument is the constant head of the message the code raises with.\<close>

datatype exn =
    ValueError string
  | KeyError string
  | TypeError string
  | AttributeError string
  | IndexError string
  | OverflowError string
  | RuntimeError string
  | NotImplementedError string
  | DatabaseError string
  | FileNotFoundError string
  | TimeoutError string
  | X402Error string
  | DuelistError string
  | TransportError string
  | AgentKeyError string
  | KeyResolutionError string
  | SystemExit string
  | LibraryError string \<comment> \<open>raised inside a third-party package\<close>

type_synonym 'a res = "exn + 'a"

definition res_bind :: "'e + 'a \<Rightarrow> ('a \<Rightarrow> 'e + 'b) \<Rightarrow> 'e + 'b" where
  "res_bind m f = (case m of Inl e \<Rightarrow> Inl e | Inr x \<Rightarrow> f x)"

lemma res_bind_simps [simp, py_simps]:
  "res_bind (Inl e) f = Inl e"
  "res_bind (Inr x) f = f x"
  by (simp_all add: res_bind_def)

lemma res_bind_eq_Inr:
  "res_bind m f = Inr y \<longleftrightarrow> (\<exists>x. m = Inr x \<and> f x = Inr y)"
  by (cases m) simp_all

definition of_opt :: "'e \<Rightarrow> 'a option \<Rightarrow> 'e + 'a" where
  "of_opt e m = (case m of None \<Rightarrow> Inl e | Some x \<Rightarrow> Inr x)"

lemma of_opt_simps [simp, py_simps]:
  "of_opt e None = Inl e"
  "of_opt e (Some x) = Inr x"
  by (simp_all add: of_opt_def)

lemma map_sum_eq_Inr: "map_sum id f r = Inr y \<longleftrightarrow> (\<exists>x. r = Inr x \<and> y = f x)"
  by (cases r) auto

lemma of_opt_eq_Inr: "of_opt e x = Inr y \<longleftrightarrow> x = Some y"
  by (cases x) simp_all

definition of_res :: "'e + 'a \<Rightarrow> 'a option" where
  "of_res m = (case m of Inl e \<Rightarrow> None | Inr x \<Rightarrow> Some x)"

lemma of_res_simps [simp, py_simps]:
  "of_res (Inl e) = None"
  "of_res (Inr x) = Some x"
  by (simp_all add: of_res_def)

text \<open>A loop that builds a list and stops at the first exception.\<close>

fun res_map :: "('a \<Rightarrow> 'e + 'b) \<Rightarrow> 'a list \<Rightarrow> 'e + 'b list" where
  "res_map f [] = Inr []"
| "res_map f (x # xs) = res_bind (f x) (\<lambda>y. res_bind (res_map f xs) (\<lambda>ys. Inr (y # ys)))"

lemma res_map_Inr: "res_map f xs = Inr ys \<longleftrightarrow> list_all2 (\<lambda>x y. f x = Inr y) xs ys"
  by (induction xs arbitrary: ys) (auto simp: res_bind_eq_Inr list_all2_Cons1)

lemma res_map_length: "res_map f xs = Inr ys \<Longrightarrow> length ys = length xs"
  by (auto simp: res_map_Inr dest: list_all2_lengthD)

subsection \<open>Strings\<close>

definition lower_char :: "char \<Rightarrow> char" where
  "lower_char c =
     (if 65 \<le> (of_char c :: nat) \<and> (of_char c :: nat) \<le> 90
      then char_of ((of_char c :: nat) + 32) else c)"

definition lower :: "string \<Rightarrow> string" where
  "lower s = map lower_char s"

definition upper_char :: "char \<Rightarrow> char" where
  "upper_char c =
     (if 97 \<le> (of_char c :: nat) \<and> (of_char c :: nat) \<le> 122
      then char_of ((of_char c :: nat) - 32) else c)"

definition upper :: "string \<Rightarrow> string" where
  "upper s = map upper_char s"

lemma of_char_lt: "(of_char c :: nat) < 256"
  by (metis nat_of_char_less_256)

lemma lower_char_idem [simp]: "lower_char (lower_char c) = lower_char c"
  by (simp add: lower_char_def)

lemma lower_idem [simp]: "lower (lower s) = lower s"
  by (simp add: lower_def)

lemma lower_Nil [simp]: "lower [] = []"
  by (simp add: lower_def)

lemma lower_append: "lower (s @ t) = lower s @ lower t"
  by (simp add: lower_def)

lemma length_lower [simp]: "length (lower s) = length s"
  by (simp add: lower_def)

lemmas lower_eval = lower_def lower_char_def char_of_def bit_0

definition is_space :: "char \<Rightarrow> bool" where
  "is_space c = ((of_char c :: nat) = 32 \<or> 9 \<le> (of_char c :: nat) \<and> (of_char c :: nat) \<le> 13)"

text \<open>\<open>bytes\<close> take the ASCII whitespace as space, \<open>str\<close> the four separators as well.\<close>

definition str_space :: "char \<Rightarrow> bool" where
  "str_space c = (is_space c \<or> 28 \<le> (of_char c :: nat) \<and> (of_char c :: nat) \<le> 31)"

definition strip :: "string \<Rightarrow> string" where
  "strip s = rev (dropWhile str_space (rev (dropWhile str_space s)))"

definition startswith :: "string \<Rightarrow> string \<Rightarrow> bool" where
  "startswith s p = (take (length p) s = p)"

definition removeprefix :: "string \<Rightarrow> string \<Rightarrow> string" where
  "removeprefix s p = (if startswith s p then drop (length p) s else s)"

lemma startswith_append [simp]: "startswith (p @ s) p"
  by (simp add: startswith_def)

lemma removeprefix_append [simp]: "removeprefix (p @ s) p = s"
  by (simp add: removeprefix_def)

lemma startswith_iff: "startswith s p \<longleftrightarrow> (\<exists>t. s = p @ t)"
  by (auto simp: startswith_def) (metis append_take_drop_id)

fun contains :: "string \<Rightarrow> string \<Rightarrow> bool" where
  "contains [] p = (p = [])"
| "contains (c # cs) p = (startswith (c # cs) p \<or> contains cs p)"

lemma contains_iff: "contains s p \<longleftrightarrow> (\<exists>u v. s = u @ p @ v)"
proof (induction s)
  case Nil
  then show ?case by auto
next
  case (Cons c cs)
  show ?case
  proof
    assume "contains (c # cs) p"
    then consider "startswith (c # cs) p" | "contains cs p" by auto
    then show "\<exists>u v. c # cs = u @ p @ v"
    proof cases
      case 1
      then obtain t where "c # cs = p @ t" by (auto simp: startswith_iff)
      then have "c # cs = [] @ p @ t" by simp
      then show ?thesis by blast
    next
      case 2
      then obtain u v where "cs = u @ p @ v" using Cons.IH by blast
      then have "c # cs = (c # u) @ p @ v" by simp
      then show ?thesis by blast
    qed
  next
    assume "\<exists>u v. c # cs = u @ p @ v"
    then obtain u v where uv: "c # cs = u @ p @ v" by blast
    show "contains (c # cs) p"
    proof (cases u)
      case Nil
      with uv have "startswith (c # cs) p" by (auto simp: startswith_iff)
      then show ?thesis by simp
    next
      case (Cons d us)
      with uv have "cs = us @ p @ v" by simp
      with Cons.IH show ?thesis by auto
    qed
  qed
qed

subsection \<open>Rounding\<close>

text \<open>To the nearest integer, halves to the even one: \<open>round\<close> and \<open>Decimal.to_integral_value\<close>.\<close>

definition round_half_even :: "rat \<Rightarrow> int" where
  "round_half_even y =
     (let f = \<lfloor>y\<rfloor>; d = y - of_int f
      in if d < 1 / 2 then f else if 1 / 2 < d then f + 1 else if even f then f else f + 1)"

lemma round_half_even_int [simp]: "round_half_even (of_int n) = n"
  by (simp add: round_half_even_def)

subsection \<open>Dicts\<close>

lemma foldl_delete:
  "foldl (\<lambda>d k. AList.delete k d) st ks = filter (\<lambda>(k, _). k \<notin> set ks) st"
  by (induction ks arbitrary: st)
     (auto simp: AList.delete_eq intro!: filter_cong)

lemma map_of_filter_val:
  "distinct (map fst st) \<Longrightarrow>
   map_of (filter (\<lambda>(k, e). P e) st) k =
     (case map_of st k of None \<Rightarrow> None | Some e \<Rightarrow> if P e then Some e else None)"
proof (induction st)
  case (Cons a st)
  obtain k' e' where a: "a = (k', e')" by fastforce
  from Cons.prems have "map_of st k' = None" by (simp add: a map_of_eq_None_iff)
  with Cons show ?case by (auto simp: a split: option.splits)
qed simp

lemma filter_drop_keys:
  assumes "distinct (map fst xs)"
  shows "filter (\<lambda>(k, _). k \<notin> set (map fst (filter (\<lambda>(k, e). Q e) xs))) xs = filter (\<lambda>(k, e). \<not> Q e) xs"
proof (rule filter_cong)
  fix x assume x: "x \<in> set xs"
  obtain k e where ke: "x = (k, e)" by fastforce
  have "k \<in> set (map fst (filter (\<lambda>(k, e). Q e) xs)) \<longleftrightarrow> Q e"
  proof
    assume "k \<in> set (map fst (filter (\<lambda>(k, e). Q e) xs))"
    then obtain e' where "(k, e') \<in> set xs" "Q e'" by auto
    with x ke assms show "Q e" by (metis eq_key_imp_eq_value)
  qed (use x ke in force)
  then show "(case x of (k, uu) \<Rightarrow> k \<notin> set (map fst (filter (\<lambda>(k, e). Q e) xs))) = (case x of (k, e) \<Rightarrow> \<not> Q e)"
    by (simp add: ke del: set_map set_filter)
qed simp

subsection \<open>Hexadecimal\<close>

definition hex_val :: "char \<Rightarrow> nat option" where
  "hex_val c =
     (let n = (of_char c :: nat) in
      if 48 \<le> n \<and> n \<le> 57 then Some (n - 48)
      else if 97 \<le> n \<and> n \<le> 102 then Some (n - 87)
      else if 65 \<le> n \<and> n \<le> 70 then Some (n - 55)
      else None)"

definition is_hex :: "char \<Rightarrow> bool" where
  "is_hex c = (hex_val c \<noteq> None)"

text \<open>\<open>bytes.fromhex\<close>: two digits to a byte, ASCII white space between bytes skipped.\<close>

fun fromhex :: "string \<Rightarrow> byte list option" where
  "fromhex [] = Some []"
| "fromhex (c # cs) =
     (if is_space c then fromhex cs
      else (case cs of
              [] \<Rightarrow> None
            | d # ds \<Rightarrow>
                (case (hex_val c, hex_val d) of
                   (Some h, Some l) \<Rightarrow> map_option (\<lambda>bs. of_nat (16 * h + l) # bs) (fromhex ds)
                 | _ \<Rightarrow> None)))"

text \<open>\<open>int.from_bytes(bs, "big")\<close>.\<close>

definition from_bytes_big :: "byte list \<Rightarrow> nat" where
  "from_bytes_big bs = foldl (\<lambda>a b. 256 * a + unat b) 0 bs"

definition hex_digit :: "nat \<Rightarrow> char" where
  "hex_digit d = (if d < 10 then char_of (48 + d) else char_of (87 + d))"

text \<open>\<open>bytes.hex()\<close>.\<close>

definition to_hex :: "byte list \<Rightarrow> string" where
  "to_hex bs = concat (map (\<lambda>b. [hex_digit (unat b div 16), hex_digit (unat b mod 16)]) bs)"

lemma hex_val_digit: "d < 16 \<Longrightarrow> hex_val (hex_digit d) = Some d"
  by (auto simp: hex_val_def hex_digit_def Let_def)

lemma hex_digit_not_space: "d < 16 \<Longrightarrow> \<not> is_space (hex_digit d)"
  by (auto simp: is_space_def hex_digit_def)

lemma fromhex_to_hex: "fromhex (to_hex bs) = Some bs"
proof (induction bs)
  case Nil
  then show ?case by (simp add: to_hex_def)
next
  case (Cons b bs)
  have b: "unat b < 256" using unsigned_less [of b] by simp
  then have hi: "unat b div 16 < 16" and lo: "unat b mod 16 < 16" by auto
  have w: "of_nat (16 * (unat b div 16) + unat b mod 16) = b"
    by (simp add: mult_div_mod_eq)
  have "to_hex (b # bs) =
      hex_digit (unat b div 16) # hex_digit (unat b mod 16) # to_hex bs"
    by (simp add: to_hex_def)
  then show ?case
    using Cons.IH w by (simp add: hex_digit_not_space [OF hi] hex_val_digit [OF hi] hex_val_digit [OF lo])
qed

lemma length_to_hex [simp]: "length (to_hex bs) = 2 * length bs"
  by (induction bs) (simp_all add: to_hex_def)

subsection \<open>Decimal numerals: \<open>str(n)\<close> and \<open>int(s)\<close>\<close>

definition is_digit :: "char \<Rightarrow> bool" where
  "is_digit c = (48 \<le> (of_char c :: nat) \<and> (of_char c :: nat) \<le> 57)"

definition digit_val :: "char \<Rightarrow> nat" where
  "digit_val c = (of_char c :: nat) - 48"

fun nat_str :: "nat \<Rightarrow> string" where
  "nat_str n = (if n < 10 then [char_of (48 + n)] else nat_str (n div 10) @ [char_of (48 + n mod 10)])"

declare nat_str.simps [simp del]

definition int_str :: "int \<Rightarrow> string" where
  "int_str n = (if n < 0 then CHR ''-'' # nat_str (nat (- n)) else nat_str (nat n))"

definition digits_val :: "string \<Rightarrow> nat" where
  "digits_val ds = foldl (\<lambda>a c. 10 * a + digit_val c) 0 ds"

text \<open>
  The digits of a numeral: single underscores may separate digits, nothing else may. Python
  refuses more than 4300 digits.
\<close>

fun numeral_digits :: "string \<Rightarrow> string option" where
  "numeral_digits [] = None"
| "numeral_digits [c] = (if is_digit c then Some [c] else None)"
| "numeral_digits (c # d # cs) =
     (if \<not> is_digit c then None
      else if d = CHR ''_'' then map_option ((#) c) (numeral_digits cs)
      else map_option ((#) c) (numeral_digits (d # cs)))"

definition parse_unsigned :: "string \<Rightarrow> nat option" where
  "parse_unsigned s =
     (case numeral_digits s of
        None \<Rightarrow> None
      | Some ds \<Rightarrow> if 4300 < length ds then None else Some (digits_val ds))"

definition parse_int :: "string \<Rightarrow> int option" where
  "parse_int s =
     (case strip s of
        [] \<Rightarrow> None
      | c # cs \<Rightarrow>
          (if c = CHR ''-'' then map_option (\<lambda>n. - int n) (parse_unsigned cs)
           else if c = CHR ''+'' then map_option int (parse_unsigned cs)
           else map_option int (parse_unsigned (c # cs))))"

lemma digit_char: "d < 10 \<Longrightarrow> is_digit (char_of (48 + d)) \<and> digit_val (char_of (48 + d)) = d"
  by (simp add: is_digit_def digit_val_def)

lemma nat_str_nonempty [simp]: "nat_str n \<noteq> []"
  by (subst nat_str.simps) simp

lemma nat_str_digits: "\<forall>c \<in> set (nat_str n). is_digit c"
proof (induction n rule: nat_str.induct)
  case (1 n)
  then show ?case
    by (subst nat_str.simps) (auto simp: digit_char)
qed

lemma digits_val_snoc: "digits_val (ds @ [c]) = 10 * digits_val ds + digit_val c"
  by (simp add: digits_val_def)

lemma digits_val_nat_str: "digits_val (nat_str n) = n"
proof (induction n rule: nat_str.induct)
  case (1 n)
  show ?case
  proof (cases "n < 10")
    case True
    then have "digits_val (nat_str n) = digit_val (char_of (48 + n))"
      by (subst nat_str.simps) (simp add: digits_val_def)
    then show ?thesis using digit_char [OF True] by simp
  next
    case False
    then have "digits_val (nat_str n) = 10 * digits_val (nat_str (n div 10)) + digit_val (char_of (48 + n mod 10))"
      by (subst nat_str.simps) (simp add: digits_val_snoc)
    also have "\<dots> = 10 * (n div 10) + n mod 10"
      using 1 False digit_char [of "n mod 10"] by simp
    finally show ?thesis by simp
  qed
qed

lemma numeral_digits_all: "s \<noteq> [] \<Longrightarrow> \<forall>c \<in> set s. is_digit c \<Longrightarrow> numeral_digits s = Some s"
proof (induction s rule: numeral_digits.induct)
  case (3 c d cs)
  have "d \<noteq> CHR ''_''" using "3.prems"(2) by (auto simp: is_digit_def)
  with 3 show ?case by simp
qed simp_all

lemma is_digit_not_space: "is_digit c \<Longrightarrow> \<not> str_space c"
  by (auto simp: is_digit_def str_space_def is_space_def)

lemma strip_id: "s = [] \<or> \<not> str_space (hd s) \<and> \<not> str_space (last s) \<Longrightarrow> strip s = s"
proof -
  assume h: "s = [] \<or> \<not> str_space (hd s) \<and> \<not> str_space (last s)"
  have 1: "dropWhile str_space s = s" using h by (cases s) auto
  have 2: "dropWhile str_space (rev s) = rev s" using h by (cases s rule: rev_cases) auto
  show ?thesis by (simp add: strip_def 1 2)
qed

lemma parse_int_str:
  assumes "length (nat_str (nat \<bar>n\<bar>)) \<le> 4300"
  shows "parse_int (int_str n) = Some n"
proof -
  let ?ds = "nat_str (nat \<bar>n\<bar>)"
  have ds: "\<forall>c \<in> set ?ds. is_digit c" "?ds \<noteq> []" using nat_str_digits by auto
  then have pu: "parse_unsigned ?ds = Some (nat \<bar>n\<bar>)"
    using assms by (simp add: parse_unsigned_def numeral_digits_all digits_val_nat_str)
  obtain c cs where c: "?ds = c # cs" using ds(2) by (cases ?ds) auto
  have lst: "\<not> str_space (last ?ds)" using ds is_digit_not_space by (metis last_in_set)
  have hd: "is_digit c" using ds c by simp
  then have ne: "c \<noteq> CHR ''-''" "c \<noteq> CHR ''+''" by (auto simp: is_digit_def)
  show ?thesis
  proof (cases "n < 0")
    case True
    then have s: "int_str n = CHR ''-'' # ?ds" by (simp add: int_str_def)
    have "strip (int_str n) = int_str n"
      using lst ds(2) by (intro strip_id) (simp add: s str_space_def is_space_def)
    then show ?thesis using True pu by (simp add: parse_int_def s)
  next
    case False
    then have s: "int_str n = c # cs" using c by (simp add: int_str_def)
    have "strip (c # cs) = c # cs"
      using lst hd c is_digit_not_space by (intro strip_id) simp
    moreover have "parse_unsigned (c # cs) = Some (nat n)" using pu c False by simp
    ultimately show ?thesis using False ne by (simp add: parse_int_def s)
  qed
qed

lemma nat_str_head: "nat_str n = CHR ''0'' # cs \<Longrightarrow> cs = []"
proof (induction n arbitrary: cs rule: nat_str.induct)
  case (1 n)
  show ?case
  proof (cases "n < 10")
    case True
    then show ?thesis using 1(2) by (subst (asm) nat_str.simps) simp
  next
    case False
    obtain d ds where d: "nat_str (n div 10) = d # ds" using nat_str_nonempty by (meson neq_Nil_conv)
    then have z: "d = CHR ''0''" using 1(2) False by (subst (asm) (2) nat_str.simps) simp
    then have "ds = []" using 1(1) [OF False] d by blast
    then have "digits_val (nat_str (n div 10)) = 0" using d z by (simp add: digits_val_def digit_val_def)
    then show ?thesis using False by (simp add: digits_val_nat_str)
  qed
qed

end
