(* ===== verification/Nonce_Store.thy ===== *)
theory Nonce_Store
  imports Py_Prelude
begin

text \<open>
  The replay-protection store of \<open>agents/nonce_store.py\<close>: the process-local
  \<open>InMemoryNonceStore\<close> (a dict), the SQLite store (a table with a primary key, in a file that
  survives the process, with the schema migration of its constructor), and the \<open>NonceStore\<close>
  protocol they share, stated as a locale over an abstract map from nonce keys to expiry times.
\<close>

subsection \<open>Keys: domain and normalisation\<close>

definition LEGACY_CHAIN_ID :: int where
  "LEGACY_CHAIN_ID = 0"

definition LEGACY_VERIFYING_CONTRACT :: string where
  "LEGACY_VERIFYING_CONTRACT = ''0x'' @ replicate 40 CHR ''0''"

type_synonym nonce_key = "int \<times> string \<times> string \<times> string"

definition normalise :: "string \<Rightarrow> string \<Rightarrow> string \<times> string" where
  "normalise signer nonce = (lower signer, lower nonce)"

definition resolve_domain :: "int option \<Rightarrow> string option \<Rightarrow> (int \<times> string) res" where
  "resolve_domain chain_id verifying_contract =
     (case (chain_id, verifying_contract) of
        (Some cid, Some vc) \<Rightarrow> Inr (cid, lower vc)
      | _ \<Rightarrow> Inl (ValueError ''NonceStore.has/.add require both chain_id and verifying_contract''))"

definition nonce_key_of ::
  "string \<Rightarrow> string \<Rightarrow> int option \<Rightarrow> string option \<Rightarrow> nonce_key res" where
  "nonce_key_of signer nonce chain_id verifying_contract =
     res_bind (resolve_domain chain_id verifying_contract)
       (\<lambda>(cid, vc). case normalise signer nonce of (s, n) \<Rightarrow> Inr (cid, vc, s, n))"

lemma nonce_key_of_Some [simp]:
  "nonce_key_of sg n (Some cid) (Some vc) = Inr (cid, lower vc, lower sg, lower n)"
  by (simp add: nonce_key_of_def resolve_domain_def normalise_def)

lemma nonce_key_of_None:
  "cid = None \<or> vc = None \<Longrightarrow>
   nonce_key_of sg n cid vc =
     Inl (ValueError ''NonceStore.has/.add require both chain_id and verifying_contract'')"
  by (auto simp: nonce_key_of_def resolve_domain_def split: option.splits)

subsection \<open>InMemoryNonceStore\<close>

type_synonym mem_store = "(nonce_key \<times> int) list"

definition mem_empty :: mem_store where
  "mem_empty = []"

definition mem_has ::
  "mem_store \<Rightarrow> string \<Rightarrow> string \<Rightarrow> int option \<Rightarrow> string option \<Rightarrow> bool res" where
  "mem_has st signer nonce cid vc =
     res_bind (nonce_key_of signer nonce cid vc) (\<lambda>k. Inr (k \<in> fst ` set st))"

text \<open>\<open>dict.setdefault\<close>: the first expiry written for a key stays.\<close>

definition setdefault :: "'k \<Rightarrow> 'v \<Rightarrow> ('k \<times> 'v) list \<Rightarrow> ('k \<times> 'v) list" where
  "setdefault k v d = (if k \<in> fst ` set d then d else d @ [(k, v)])"

definition mem_add ::
  "mem_store \<Rightarrow> string \<Rightarrow> string \<Rightarrow> int \<Rightarrow> int option \<Rightarrow> string option \<Rightarrow> mem_store res" where
  "mem_add st signer nonce expires_at cid vc =
     res_bind (nonce_key_of signer nonce cid vc) (\<lambda>k. Inr (setdefault k expires_at st))"

definition mem_purge_expired :: "mem_store \<Rightarrow> int \<Rightarrow> mem_store \<times> int" where
  "mem_purge_expired st now =
     (let stale = map fst (filter (\<lambda>(k, exp). exp \<le> now) st)
      in (foldl (\<lambda>d k. AList.delete k d) st stale, int (length stale)))"

definition mem_close :: "mem_store \<Rightarrow> mem_store" where
  "mem_close st = []"

definition mem_len :: "mem_store \<Rightarrow> int" where
  "mem_len st = int (length st)"

lemma setdefault_map_of:
  "map_of (setdefault k v d) =
     (if map_of d k = None then (map_of d)(k \<mapsto> v) else map_of d)"
proof (cases "k \<in> fst ` set d")
  case True
  then have "map_of d k \<noteq> None" by (simp add: map_of_eq_None_iff)
  with True show ?thesis by (auto simp: setdefault_def)
next
  case False
  then have n: "map_of d k = None" by (simp add: map_of_eq_None_iff)
  with False show ?thesis
    by (auto simp: setdefault_def fun_eq_iff map_add_def split: option.splits)
qed

lemma setdefault_distinct:
  "distinct (map fst d) \<Longrightarrow> distinct (map fst (setdefault k v d))"
  by (auto simp: setdefault_def)

text \<open>With distinct keys, deleting the stale keys one by one keeps exactly the unexpired rows.\<close>

lemma purge_rows:
  assumes "distinct (map fst st)"
  shows "fst (mem_purge_expired st now) = filter (\<lambda>(k, exp). now < exp) st"
proof -
  have "fst (mem_purge_expired st now) = filter (\<lambda>(k, exp). \<not> exp \<le> now) st"
    using filter_drop_keys [OF assms, of "\<lambda>exp. exp \<le> now"]
    by (simp add: mem_purge_expired_def Let_def foldl_delete del: set_map set_filter)
  then show ?thesis by (simp add: not_le)
qed

subsection \<open>SqliteNonceStore: the table\<close>

text \<open>
  The file holds the \<open>nonces\<close> table (rows unique by the primary key) and the schema version
  of the meta table. SQLite stores an INTEGER in 64 bits: binding a Python int outside that
  range raises \<open>OverflowError\<close>.
\<close>

definition int64 :: "int \<Rightarrow> bool" where
  "int64 n = (- (2 ^ 63) \<le> n \<and> n < 2 ^ 63)"

record nonce_row =
  row_chain_id :: int
  row_verifying_contract :: string
  row_signer :: string
  row_nonce :: string
  row_expires_at :: int

definition row_key :: "nonce_row \<Rightarrow> nonce_key" where
  "row_key r = (row_chain_id r, row_verifying_contract r, row_signer r, row_nonce r)"

record sqlite_store =
  nonces :: "nonce_row list"
  schema_version :: string

definition SCHEMA_VERSION :: int where
  "SCHEMA_VERSION = 2"

definition sqlite_has ::
  "sqlite_store \<Rightarrow> string \<Rightarrow> string \<Rightarrow> int option \<Rightarrow> string option \<Rightarrow> bool res" where
  "sqlite_has db signer nonce chain_id verifying_contract =
     res_bind (nonce_key_of signer nonce chain_id verifying_contract) (\<lambda>(cid, vc, s, n).
       if \<not> int64 cid then Inl (OverflowError ''Python int too large to convert to SQLite INTEGER'')
       else Inr (filter (\<lambda>r. row_chain_id r = cid \<and> row_verifying_contract r = vc \<and>
                             row_signer r = s \<and> row_nonce r = n) (nonces db) \<noteq> []))"

text \<open>\<open>INSERT OR IGNORE\<close>: a row that would violate the primary key is dropped.\<close>

definition sqlite_add ::
  "sqlite_store \<Rightarrow> string \<Rightarrow> string \<Rightarrow> int \<Rightarrow> int option \<Rightarrow> string option \<Rightarrow> sqlite_store res" where
  "sqlite_add db signer nonce expires_at chain_id verifying_contract =
     res_bind (nonce_key_of signer nonce chain_id verifying_contract) (\<lambda>(cid, vc, s, n).
       if \<not> int64 cid \<or> \<not> int64 expires_at
       then Inl (OverflowError ''Python int too large to convert to SQLite INTEGER'')
       else if (cid, vc, s, n) \<in> row_key ` set (nonces db) then Inr db
       else Inr (db\<lparr>nonces := nonces db @
              [\<lparr>row_chain_id = cid, row_verifying_contract = vc, row_signer = s,
                row_nonce = n, row_expires_at = expires_at\<rparr>]\<rparr>))"

definition sqlite_purge_expired :: "sqlite_store \<Rightarrow> int \<Rightarrow> sqlite_store \<times> int" where
  "sqlite_purge_expired db now =
     (db\<lparr>nonces := filter (\<lambda>r. \<not> row_expires_at r \<le> now) (nonces db)\<rparr>,
      int (length (filter (\<lambda>r. row_expires_at r \<le> now) (nonces db))))"

definition sqlite_len :: "sqlite_store \<Rightarrow> int" where
  "sqlite_len db = int (length (nonces db))"

definition sqlite_rows :: "sqlite_store \<Rightarrow> (nonce_key \<times> int) list" where
  "sqlite_rows db = map (\<lambda>r. (row_key r, row_expires_at r)) (nonces db)"

definition sqlite_wf :: "sqlite_store \<Rightarrow> bool" where
  "sqlite_wf db = distinct (map row_key (nonces db))"

text \<open>The store as a map from keys to expiry times.\<close>

definition sqlite_lookup :: "sqlite_store \<Rightarrow> nonce_key \<Rightarrow> int option" where
  "sqlite_lookup db = map_of (sqlite_rows db)"

lemma sqlite_lookup_None:
  "sqlite_lookup db k = None \<longleftrightarrow> k \<notin> row_key ` set (nonces db)"
  by (auto simp: sqlite_lookup_def sqlite_rows_def map_of_eq_None_iff image_image)

lemma sqlite_purge_rows:
  "sqlite_rows (fst (sqlite_purge_expired db now)) = filter (\<lambda>(k, e). now < e) (sqlite_rows db)"
  by (simp add: sqlite_rows_def sqlite_purge_expired_def filter_map o_def not_le)

lemma distinct_map_filter_key: "distinct (map f xs) \<Longrightarrow> distinct (map f (filter P xs))"
  by (rule distinct_map_filter)

subsection \<open>Opening the file: migration and schema stamp\<close>

text \<open>
  What the constructor can find at its path: no file, bytes that are not a SQLite database, or
  a database. \<open>meta_version\<close> is \<open>None\<close> without the meta table and \<open>Some None\<close> with the table but
  no \<open>schema_version\<close> row. \<open>sqlite3.connect\<close> opens lazily: a file that is not a database is only
  noticed by the first statement, which raises \<open>DatabaseError\<close>.
\<close>

record sqlite_file =
  meta_version :: "string option option"
  file_rows :: "nonce_row list"

datatype disk = Absent | NotADatabase | Database sqlite_file

definition drop_legacy_file :: "disk \<Rightarrow> disk" where
  "drop_legacy_file d = Absent"

definition maybe_migrate_legacy_file :: "disk \<Rightarrow> disk res" where
  "maybe_migrate_legacy_file d =
     (case d of
        Absent \<Rightarrow> Inr Absent
      | NotADatabase \<Rightarrow> Inl (DatabaseError ''file is not a database'')
      | Database f \<Rightarrow>
          (case meta_version f of
             None \<Rightarrow> Inr (drop_legacy_file d)
           | Some ver_row \<Rightarrow>
               (let version = (case ver_row of None \<Rightarrow> 0
                                | Some s \<Rightarrow> (case parse_int s of None \<Rightarrow> 0 | Some v \<Rightarrow> v))
                in if version < SCHEMA_VERSION then Inr (drop_legacy_file d) else Inr d)))"

definition sqlite_open :: "disk \<Rightarrow> sqlite_store res" where
  "sqlite_open d =
     res_bind (maybe_migrate_legacy_file d) (\<lambda>d'.
       case d' of
         NotADatabase \<Rightarrow> Inl (DatabaseError ''file is not a database'')
       | Absent \<Rightarrow> Inr \<lparr>nonces = [], schema_version = int_str SCHEMA_VERSION\<rparr>
       | Database f \<Rightarrow> Inr \<lparr>nonces = file_rows f, schema_version = int_str SCHEMA_VERSION\<rparr>)"

text \<open>What stays on disk when the process stops: every statement is committed on its own.\<close>

definition sqlite_close :: "sqlite_store \<Rightarrow> disk" where
  "sqlite_close db =
     Database \<lparr>meta_version = Some (Some (schema_version db)), file_rows = nonces db\<rparr>"

lemma schema_version_text: "int_str SCHEMA_VERSION = ''2''"
  by code_simp

lemma version_less: "v < SCHEMA_VERSION \<longleftrightarrow> v < 2"
  by (simp add: SCHEMA_VERSION_def)

lemma parse_int_2: "parse_int ''2'' = Some 2"
  by (simp add: parse_int_def strip_def str_space_def is_space_def parse_unsigned_def is_digit_def digits_val_def digit_val_def)

lemma sqlite_open_version: "sqlite_open d = Inr db \<Longrightarrow> schema_version db = ''2''"
proof -
  assume "sqlite_open d = Inr db"
  then obtain d' where "(case d' of
         NotADatabase \<Rightarrow> Inl (DatabaseError ''file is not a database'')
       | Absent \<Rightarrow> Inr \<lparr>nonces = [], schema_version = int_str SCHEMA_VERSION\<rparr>
       | Database f \<Rightarrow> Inr \<lparr>nonces = file_rows f, schema_version = int_str SCHEMA_VERSION\<rparr>) = Inr db"
    by (auto simp: sqlite_open_def res_bind_eq_Inr)
  then show ?thesis by (cases d') (auto simp: schema_version_text)
qed

lemma sqlite_reopen: "schema_version db = ''2'' \<Longrightarrow> sqlite_open (sqlite_close db) = Inr db"
  by (simp add: sqlite_open_def sqlite_close_def maybe_migrate_legacy_file_def parse_int_2
      schema_version_text) (simp add: SCHEMA_VERSION_def schema_version_text)

subsection \<open>The NonceStore protocol\<close>

text \<open>
  What the dark pool relies on. \<open>lookup\<close> reads the store as a map, \<open>storable\<close> says which integers
  the backend can hold (all of them in memory, 64 bits in SQLite).
\<close>

locale nonce_store_api =
  fixes has :: "'s \<Rightarrow> string \<Rightarrow> string \<Rightarrow> int option \<Rightarrow> string option \<Rightarrow> bool res"
    and add :: "'s \<Rightarrow> string \<Rightarrow> string \<Rightarrow> int \<Rightarrow> int option \<Rightarrow> string option \<Rightarrow> 's res"
    and purge_expired :: "'s \<Rightarrow> int \<Rightarrow> 's \<times> int"
    and lookup :: "'s \<Rightarrow> nonce_key \<Rightarrow> int option"
    and invar :: "'s \<Rightarrow> bool"
    and storable :: "int \<Rightarrow> bool"
  assumes has_Inr: "invar st \<Longrightarrow> has st sg n (Some cid) (Some vc) = Inr b \<Longrightarrow>
      b = (lookup st (cid, lower vc, lower sg, lower n) \<noteq> None)"
    and has_total: "storable cid \<Longrightarrow> \<exists>b. has st sg n (Some cid) (Some vc) = Inr b"
    and has_legacy: "c = None \<or> v = None \<Longrightarrow> \<exists>msg. has st sg n c v = Inl (ValueError msg)"
    and add_Inr: "invar st \<Longrightarrow> add st sg n e (Some cid) (Some vc) = Inr st' \<Longrightarrow>
      invar st' \<and> lookup st' =
        (let k = (cid, lower vc, lower sg, lower n)
         in if lookup st k = None then (lookup st)(k \<mapsto> e) else lookup st)"
    and add_total: "storable cid \<Longrightarrow> storable e \<Longrightarrow> \<exists>st'. add st sg n e (Some cid) (Some vc) = Inr st'"
    and add_legacy: "c = None \<or> v = None \<Longrightarrow> \<exists>msg. add st sg n e c v = Inl (ValueError msg)"
    and purge_spec: "invar st \<Longrightarrow> invar (fst (purge_expired st now)) \<and>
      lookup (fst (purge_expired st now)) k =
        (case lookup st k of None \<Rightarrow> None | Some e \<Rightarrow> if now < e then Some e else None)"
begin

lemma add_invar: "invar st \<Longrightarrow> add st sg n e (Some cid) (Some vc) = Inr st' \<Longrightarrow> invar st'"
  using add_Inr by blast

lemma add_lookup:
  "invar st \<Longrightarrow> add st sg n e (Some cid) (Some vc) = Inr st' \<Longrightarrow>
   lookup st' k =
     (if k = (cid, lower vc, lower sg, lower n) \<and> lookup st k = None then Some e else lookup st k)"
  using add_Inr [of st sg n e cid vc st'] by (auto simp: Let_def split: if_splits)

text \<open>A nonce that was added is seen again, whatever the casing of the three hex strings.\<close>

lemma add_then_has:
  assumes "invar st" and "add st sg n e (Some cid) (Some vc) = Inr st'"
    and "lower sg' = lower sg" and "lower n' = lower n" and "lower vc' = lower vc"
    and "storable cid"
  shows "has st' sg' n' (Some cid) (Some vc') = Inr True"
proof -
  obtain b where b: "has st' sg' n' (Some cid) (Some vc') = Inr b"
    using has_total [OF assms(6)] by blast
  have "lookup st' (cid, lower vc, lower sg, lower n) \<noteq> None"
    using add_lookup [OF assms(1,2)] by auto
  then show ?thesis
    using has_Inr [OF add_invar [OF assms(1,2)] b] b assms(3-5) by simp
qed

text \<open>Adding under one EIP-712 domain answers nothing about another.\<close>

lemma other_domain_unaffected:
  assumes "invar st" and "add st sg n e (Some cid) (Some vc) = Inr st'"
    and "(cid', lower vc') \<noteq> (cid, lower vc)" and "storable cid'"
  shows "has st' sg' n' (Some cid') (Some vc') = has st sg' n' (Some cid') (Some vc')"
proof -
  obtain b b' where b: "has st sg' n' (Some cid') (Some vc') = Inr b"
    and b': "has st' sg' n' (Some cid') (Some vc') = Inr b'"
    using has_total [OF assms(4)] by meson
  have "lookup st' (cid', lower vc', lower sg', lower n') = lookup st (cid', lower vc', lower sg', lower n')"
    using add_lookup [OF assms(1,2)] assms(3) by auto
  then show ?thesis
    using has_Inr [OF assms(1) b] has_Inr [OF add_invar [OF assms(1,2)] b'] b b' by simp
qed

text \<open>Purging is idempotent, and a later purge subsumes an earlier one.\<close>

lemma purge_twice:
  assumes "invar st" and "now \<le> later"
  shows "lookup (fst (purge_expired (fst (purge_expired st now)) later)) =
         lookup (fst (purge_expired st later))"
proof (rule ext)
  fix k
  have i: "invar (fst (purge_expired st now))" using purge_spec [OF assms(1)] by blast
  show "lookup (fst (purge_expired (fst (purge_expired st now)) later)) k =
         lookup (fst (purge_expired st later)) k"
    using purge_spec [OF i, of later k] purge_spec [OF assms(1), of now k]
      purge_spec [OF assms(1), of later k] assms(2)
    by (auto split: option.splits if_splits)
qed

end

subsection \<open>Both backends implement the protocol\<close>

lemma mem_has_eq:
  "mem_has st sg n (Some cid) (Some vc) = Inr (map_of st (cid, lower vc, lower sg, lower n) \<noteq> None)"
  by (auto simp: mem_has_def map_of_eq_None_iff)

lemma mem_legacy:
  "cid = None \<or> vc = None \<Longrightarrow> \<exists>msg. mem_has st sg n cid vc = Inl (ValueError msg)"
  "cid = None \<or> vc = None \<Longrightarrow> \<exists>msg. mem_add st sg n e cid vc = Inl (ValueError msg)"
  by (simp_all add: mem_has_def mem_add_def nonce_key_of_None)

lemma mem_add_eq:
  "mem_add st sg n e (Some cid) (Some vc) = Inr (setdefault (cid, lower vc, lower sg, lower n) e st)"
  by (simp add: mem_add_def)

interpretation mem: nonce_store_api mem_has mem_add mem_purge_expired map_of
  "\<lambda>st. distinct (map fst st)" "\<lambda>_. True"
proof (unfold_locales, goal_cases)
  case (4 st sg n e cid vc st')
  then show ?case
    by (auto simp: mem_add_eq setdefault_distinct setdefault_map_of Let_def)
next
  case (7 st now k)
  then show ?case
    by (simp add: purge_rows map_of_filter_val distinct_map_filter)
qed (auto simp: mem_has_eq mem_add_eq mem_legacy)

lemma sqlite_has_Inr:
  "sqlite_has db sg n (Some cid) (Some vc) =
     (if int64 cid then Inr (sqlite_lookup db (cid, lower vc, lower sg, lower n) \<noteq> None)
      else Inl (OverflowError ''Python int too large to convert to SQLite INTEGER''))"
proof -
  have "filter (\<lambda>r. row_chain_id r = cid \<and> row_verifying_contract r = lower vc \<and>
          row_signer r = lower sg \<and> row_nonce r = lower n) (nonces db) \<noteq> [] \<longleftrightarrow>
        (cid, lower vc, lower sg, lower n) \<in> row_key ` set (nonces db)"
    by (auto simp: filter_empty_conv row_key_def image_iff)
  then show ?thesis
    by (simp add: sqlite_has_def sqlite_lookup_None)
qed

lemma sqlite_legacy:
  "cid = None \<or> vc = None \<Longrightarrow> \<exists>msg. sqlite_has db sg n cid vc = Inl (ValueError msg)"
  "cid = None \<or> vc = None \<Longrightarrow> \<exists>msg. sqlite_add db sg n e cid vc = Inl (ValueError msg)"
  by (simp_all add: sqlite_has_def sqlite_add_def nonce_key_of_None)

lemma sqlite_add_Inr:
  "sqlite_add db sg n e (Some cid) (Some vc) = Inr db' \<Longrightarrow>
   sqlite_rows db' = setdefault (cid, lower vc, lower sg, lower n) e (sqlite_rows db)"
  by (auto simp: sqlite_add_def setdefault_def sqlite_rows_def row_key_def image_image
      split: if_splits)

lemma sqlite_wf_iff: "sqlite_wf db \<longleftrightarrow> distinct (map fst (sqlite_rows db))"
  by (simp add: sqlite_wf_def sqlite_rows_def o_def)

interpretation sqlite: nonce_store_api sqlite_has sqlite_add sqlite_purge_expired
  sqlite_lookup sqlite_wf int64
proof (unfold_locales, goal_cases)
  case (4 st sg n e cid vc st')
  then show ?case
    by (auto simp: sqlite_wf_iff sqlite_lookup_def sqlite_add_Inr setdefault_distinct
        setdefault_map_of Let_def)
next
  case (7 st now k)
  then show ?case
    by (simp add: sqlite_wf_iff sqlite_lookup_def sqlite_purge_rows map_of_filter_val distinct_map_filter)
next
  case (5 cid e st sg n vc)
  then show ?case by (auto simp: sqlite_add_def)
qed (auto simp: sqlite_has_Inr sqlite_legacy split: if_splits)

text \<open>
  The two backends agree: as long as the integers fit 64 bits, SQLite answers and changes
  exactly as the dict does on the rows it holds.
\<close>

lemma sqlite_refines_mem_has:
  "int64 cid \<Longrightarrow> sqlite_has db sg n (Some cid) vc = mem_has (sqlite_rows db) sg n (Some cid) vc"
proof (cases vc)
  case None
  then show ?thesis by (simp add: sqlite_has_def mem_has_def nonce_key_of_None)
next
  case (Some v)
  assume "int64 cid"
  with Some show ?thesis by (simp add: sqlite_has_Inr mem_has_eq sqlite_lookup_def)
qed

lemma sqlite_refines_mem_add:
  "int64 cid \<Longrightarrow> int64 e \<Longrightarrow>
   map_sum id sqlite_rows (sqlite_add db sg n e (Some cid) vc) =
   mem_add (sqlite_rows db) sg n e (Some cid) vc"
proof (cases vc)
  case None
  then show ?thesis by (simp add: sqlite_add_def mem_add_def nonce_key_of_None)
next
  case (Some v)
  assume h: "int64 cid" "int64 e"
  then obtain db' where "sqlite_add db sg n e (Some cid) (Some v) = Inr db'"
    using sqlite.add_total by blast
  with Some show ?thesis by (simp add: sqlite_add_Inr mem_add_eq)
qed

lemma sqlite_refines_mem_purge:
  "sqlite_wf db \<Longrightarrow>
   sqlite_rows (fst (sqlite_purge_expired db now)) = fst (mem_purge_expired (sqlite_rows db) now)"
  by (simp add: sqlite_purge_rows purge_rows sqlite_wf_iff)

subsection \<open>A store of either kind\<close>

text \<open>
  \<open>DarkPoolServer\<close> is handed any object with the protocol's methods; the calls dispatch on the
  class.
\<close>

datatype nonce_store = InMemoryNonceStore mem_store | SqliteNonceStore sqlite_store

fun ns_has ::
  "nonce_store \<Rightarrow> string \<Rightarrow> string \<Rightarrow> int option \<Rightarrow> string option \<Rightarrow> bool res" where
  "ns_has (InMemoryNonceStore st) sg n cid vc = mem_has st sg n cid vc"
| "ns_has (SqliteNonceStore db) sg n cid vc = sqlite_has db sg n cid vc"

fun ns_add ::
  "nonce_store \<Rightarrow> string \<Rightarrow> string \<Rightarrow> int \<Rightarrow> int option \<Rightarrow> string option \<Rightarrow> nonce_store res" where
  "ns_add (InMemoryNonceStore st) sg n e cid vc = map_sum id InMemoryNonceStore (mem_add st sg n e cid vc)"
| "ns_add (SqliteNonceStore db) sg n e cid vc = map_sum id SqliteNonceStore (sqlite_add db sg n e cid vc)"

fun ns_purge_expired :: "nonce_store \<Rightarrow> int \<Rightarrow> nonce_store \<times> int" where
  "ns_purge_expired (InMemoryNonceStore st) now = map_prod InMemoryNonceStore id (mem_purge_expired st now)"
| "ns_purge_expired (SqliteNonceStore db) now = map_prod SqliteNonceStore id (sqlite_purge_expired db now)"

fun ns_lookup :: "nonce_store \<Rightarrow> nonce_key \<Rightarrow> int option" where
  "ns_lookup (InMemoryNonceStore st) = map_of st"
| "ns_lookup (SqliteNonceStore db) = sqlite_lookup db"

fun ns_invar :: "nonce_store \<Rightarrow> bool" where
  "ns_invar (InMemoryNonceStore st) = distinct (map fst st)"
| "ns_invar (SqliteNonceStore db) = sqlite_wf db"

fun ns_close :: "nonce_store \<Rightarrow> nonce_store" where
  "ns_close (InMemoryNonceStore st) = InMemoryNonceStore (mem_close st)"
| "ns_close (SqliteNonceStore db) = SqliteNonceStore db"

interpretation ns: nonce_store_api ns_has ns_add ns_purge_expired ns_lookup ns_invar int64
proof (unfold_locales, goal_cases)
  case (1 st cid sg n vc b)
  then show ?case by (cases st) (auto simp: mem_has_eq dest: sqlite.has_Inr)
next
  case (2 cid st sg n vc)
  then show ?case by (cases st) (auto simp: mem_has_eq sqlite.has_total)
next
  case (3 c v st sg n)
  then show ?case by (cases st) (simp_all add: mem_legacy sqlite_legacy)
next
  case (4 st sg n e cid vc st')
  then show ?case
  proof (cases st)
    case (InMemoryNonceStore m)
    with 4 show ?thesis
      by (auto simp: mem_add_eq setdefault_distinct setdefault_map_of Let_def)
  next
    case (SqliteNonceStore db)
    with 4 obtain db' where db': "sqlite_add db sg n e (Some cid) (Some vc) = Inr db'"
      and st': "st' = SqliteNonceStore db'" by (auto simp: map_sum_eq_Inr)
    from 4 SqliteNonceStore have "sqlite_wf db" by simp
    from sqlite.add_Inr [OF this db'] show ?thesis by (simp add: SqliteNonceStore st' Let_def)
  qed
next
  case (5 cid e st sg n vc)
  show ?case
  proof (cases st)
    case (SqliteNonceStore db)
    with sqlite.add_total [OF 5, of db sg n vc] show ?thesis by (auto simp: map_sum_eq_Inr)
  qed (simp add: mem_add_eq)
next
  case (6 c v st sg n e)
  then show ?case
    using mem_legacy(2) [OF 6] sqlite_legacy(2) [OF 6]
    by (cases st) (metis ns_add.simps map_sum.simps(1) id_apply)+
next
  case (7 st now k)
  then show ?case by (cases st) (use mem.purge_spec sqlite.purge_spec in auto)
qed

subsection \<open>Sequences of operations\<close>

datatype ns_op = OpAdd string string int int string | OpPurge int

fun ns_step :: "ns_op \<Rightarrow> nonce_store \<Rightarrow> nonce_store res" where
  "ns_step (OpAdd sg n e cid vc) st = ns_add st sg n e (Some cid) (Some vc)"
| "ns_step (OpPurge now) st = Inr (fst (ns_purge_expired st now))"

fun ns_run :: "ns_op list \<Rightarrow> nonce_store \<Rightarrow> nonce_store res" where
  "ns_run [] st = Inr st"
| "ns_run (op # ops) st = res_bind (ns_step op st) (ns_run ops)"

fun op_int64 :: "ns_op \<Rightarrow> bool" where
  "op_int64 (OpAdd sg n e cid vc) = (int64 cid \<and> int64 e)"
| "op_int64 (OpPurge now) = True"

lemma ns_step_invar: "ns_invar st \<Longrightarrow> ns_step op st = Inr st' \<Longrightarrow> ns_invar st'"
  by (cases op) (auto dest: ns.add_invar ns.purge_spec)

lemma ns_step_total: "op_int64 op \<Longrightarrow> \<exists>st'. ns_step op st = Inr st'"
  by (cases op) (auto intro: ns.add_total)

text \<open>A recorded key keeps its first expiry through every step that does not purge it.\<close>

lemma ns_step_keeps:
  assumes "ns_invar st" and "ns_lookup st k = Some e" and "ns_step op st = Inr st'"
    and "\<forall>now. op = OpPurge now \<longrightarrow> now < e"
  shows "ns_lookup st' k = Some e"
proof (cases op)
  case (OpAdd sg n e' cid vc)
  with assms(3) have "ns_add st sg n e' (Some cid) (Some vc) = Inr st'" by simp
  from ns.add_lookup [OF assms(1) this, of k] assms(2) show ?thesis by simp
next
  case (OpPurge now)
  with assms show ?thesis using ns.purge_spec [OF assms(1), of now k] by auto
qed

lemma ns_run_keeps:
  "ns_invar st \<Longrightarrow> ns_lookup st k = Some e \<Longrightarrow> ns_run ops st = Inr st' \<Longrightarrow>
   \<forall>now. OpPurge now \<in> set ops \<longrightarrow> now < e \<Longrightarrow> ns_invar st' \<and> ns_lookup st' k = Some e"
proof (induction ops arbitrary: st)
  case (Cons op ops)
  then obtain st1 where st1: "ns_step op st = Inr st1" "ns_run ops st1 = Inr st'"
    by (auto simp: res_bind_eq_Inr)
  have k: "ns_lookup st1 k = Some e"
    by (rule ns_step_keeps [OF Cons.prems(1,2) st1(1)]) (use Cons.prems(4) in auto)
  show ?case
    by (rule Cons.IH [OF ns_step_invar [OF Cons.prems(1) st1(1)] k st1(2)]) (use Cons.prems(4) in auto)
qed simp

text \<open>One dict step simulates one SQLite step, and so does a whole run.\<close>

fun to_mem :: "nonce_store \<Rightarrow> nonce_store" where
  "to_mem (InMemoryNonceStore st) = InMemoryNonceStore st"
| "to_mem (SqliteNonceStore db) = InMemoryNonceStore (sqlite_rows db)"

lemma to_mem_step:
  assumes "ns_invar st" and "op_int64 op"
  shows "map_sum id to_mem (ns_step op st) = ns_step op (to_mem st)"
proof (cases st)
  case (InMemoryNonceStore m)
  then show ?thesis by (cases op) (simp_all add: mem_add_eq)
next
  case (SqliteNonceStore db)
  show ?thesis
  proof (cases op)
    case (OpAdd sg n e cid vc)
    with assms(2) have i: "int64 cid" "int64 e" by auto
    then obtain db' where "sqlite_add db sg n e (Some cid) (Some vc) = Inr db'"
      using sqlite.add_total by blast
    with sqlite_refines_mem_add [OF i, of db sg n "Some vc"] show ?thesis
      by (simp add: OpAdd SqliteNonceStore) (metis map_sum.simps(2))
  next
    case (OpPurge now)
    with assms(1) SqliteNonceStore show ?thesis by (simp add: sqlite_refines_mem_purge)
  qed
qed

lemma to_mem_run:
  "ns_invar st \<Longrightarrow> \<forall>op \<in> set ops. op_int64 op \<Longrightarrow>
   map_sum id to_mem (ns_run ops st) = ns_run ops (to_mem st)"
proof (induction ops arbitrary: st)
  case (Cons op ops)
  then obtain st1 where st1: "ns_step op st = Inr st1" using ns_step_total by fastforce
  have "map_sum id to_mem (ns_step op st) = ns_step op (to_mem st)"
    using to_mem_step Cons.prems by simp
  then have "ns_step op (to_mem st) = Inr (to_mem st1)" by (simp add: st1)
  with Cons.IH [OF ns_step_invar [OF Cons.prems(1) st1]] Cons.prems(2) st1 show ?case by simp
qed simp

lemma ns_step_version:
  "ns_step op (SqliteNonceStore db) = Inr st' \<Longrightarrow>
   \<exists>db'. st' = SqliteNonceStore db' \<and> schema_version db' = schema_version db"
  by (cases op) (auto simp: map_sum_eq_Inr sqlite_add_def sqlite_purge_expired_def
      resolve_domain_def split: if_splits)

lemma ns_run_version:
  "ns_run ops (SqliteNonceStore db) = Inr st' \<Longrightarrow>
   \<exists>db'. st' = SqliteNonceStore db' \<and> schema_version db' = schema_version db"
proof (induction ops arbitrary: db)
  case (Cons op ops)
  then obtain st1 where "ns_step op (SqliteNonceStore db) = Inr st1" "ns_run ops st1 = Inr st'"
    by (auto simp: res_bind_eq_Inr)
  with ns_step_version Cons.IH show ?case by metis
qed auto

subsection \<open>Properties\<close>

text \<open>C1: (invariant) Once \<open>add\<close> has recorded a payment nonce with an expiry, in either backend, every later
  \<open>has\<close> for the same signer, nonce and domain answers yes, whatever the casing of the three hex
  strings and whatever other nonces are added or purges run in between, as long as no purge runs
  at or after the expiry that the first record of the key carries.\<close>

theorem recorded_nonce_stays:
  assumes "ns_invar st" and "ns_add st sg n e (Some cid) (Some vc) = Inr st1"
    and "ns_lookup st1 (cid, lower vc, lower sg, lower n) = Some e0"
    and "ns_run ops st1 = Inr st2"
    and "\<forall>now. OpPurge now \<in> set ops \<longrightarrow> now < e0"
    and "lower sg' = lower sg" and "lower n' = lower n" and "lower vc' = lower vc" and "int64 cid"
  shows "ns_has st2 sg' n' (Some cid) (Some vc') = Inr True"
proof -
  have k: "ns_invar st2 \<and> ns_lookup st2 (cid, lower vc, lower sg, lower n) = Some e0"
    using ns_run_keeps [OF ns.add_invar [OF assms(1,2)] assms(3,4,5)] .
  obtain b where b: "ns_has st2 sg' n' (Some cid) (Some vc') = Inr b"
    using ns.has_total [OF assms(9)] by blast
  with ns.has_Inr [OF conjunct1 [OF k] b] k show ?thesis by (simp add: assms(6-8))
qed

lemma recorded_nonce_stays_witness:
  "ns_has (InMemoryNonceStore [((5042002, ''0xaa'', ''0xb1'', ''0xcd''), 900)])
     ''0xB1'' ''0xCD'' (Some 5042002) (Some ''0xAA'') = Inr True"
  by (rule recorded_nonce_stays [of "InMemoryNonceStore []" "''0xb1''" "''0xcd''" 900 5042002 "''0xaa''"
        "InMemoryNonceStore [((5042002, ''0xaa'', ''0xb1'', ''0xcd''), 900)]" 900 "[OpPurge 899]"])
     (simp_all add: mem_add_eq setdefault_def lower_eval mem_purge_expired_def int64_def)

text \<open>C2: (refinement) The SQLite store implements the dict store: over any sequence of adds and purges whose
  integers fit SQLite's 64 bits, running the sequence on the SQLite table and reading the table
  back as a dict is running it on the dict, and both answer every \<open>has\<close> alike.\<close>

theorem sqlite_store_refines_dict:
  assumes "sqlite_wf db" and "\<forall>op \<in> set ops. op_int64 op" and "int64 cid"
  shows "\<exists>db'. ns_run ops (SqliteNonceStore db) = Inr (SqliteNonceStore db') \<and>
     ns_run ops (InMemoryNonceStore (sqlite_rows db)) = Inr (InMemoryNonceStore (sqlite_rows db')) \<and>
     sqlite_has db' sg n (Some cid) vc = mem_has (sqlite_rows db') sg n (Some cid) vc"
proof -
  have "\<exists>st'. ns_run ops st = Inr st'" for st
    using assms(2) by (induction ops arbitrary: st) (simp, metis ns_run.simps(2) ns_step_total
        list.set_intros res_bind_simps(2))
  then obtain st' where st': "ns_run ops (SqliteNonceStore db) = Inr st'" by blast
  then obtain db' where db': "st' = SqliteNonceStore db'" using ns_run_version by blast
  have "map_sum id to_mem (ns_run ops (SqliteNonceStore db)) = ns_run ops (to_mem (SqliteNonceStore db))"
    using assms(1,2) by (intro to_mem_run) simp_all
  then show ?thesis using st' db' sqlite_refines_mem_has [OF assms(3)] by auto
qed

lemma sqlite_store_refines_dict_witness:
  "\<exists>db'. ns_run [OpAdd ''0xB1'' ''0xCD'' 900 5042002 ''0xAA'', OpPurge 901]
       (SqliteNonceStore \<lparr>nonces = [], schema_version = ''2''\<rparr>) = Inr (SqliteNonceStore db') \<and>
     ns_run [OpAdd ''0xB1'' ''0xCD'' 900 5042002 ''0xAA'', OpPurge 901]
       (InMemoryNonceStore (sqlite_rows \<lparr>nonces = [], schema_version = ''2''\<rparr>)) =
       Inr (InMemoryNonceStore (sqlite_rows db')) \<and>
     sqlite_has db' ''0xb1'' ''0xcd'' (Some 5042002) (Some ''0xaa'') =
       mem_has (sqlite_rows db') ''0xb1'' ''0xcd'' (Some 5042002) (Some ''0xaa'')"
  by (rule sqlite_store_refines_dict) (simp_all add: sqlite_wf_def int64_def)

text \<open>Nonces survive a restart: whatever file the SQLite store was opened on and whatever adds and
  purges were run on it, closing the process and opening the same file again yields the same
  table, without the migration dropping it.\<close>

theorem sqlite_survives_restart:
  assumes "sqlite_open d = Inr db" and "ns_run ops (SqliteNonceStore db) = Inr (SqliteNonceStore db')"
  shows "sqlite_open (sqlite_close db') = Inr db'"
  using sqlite_open_version [OF assms(1)] ns_run_version [OF assms(2)] sqlite_reopen by auto

lemma sqlite_survives_restart_witness:
  "sqlite_open (sqlite_close
     \<lparr>nonces = [\<lparr>row_chain_id = 1, row_verifying_contract = ''0xaa'', row_signer = ''0xb1'',
        row_nonce = ''0xcd'', row_expires_at = 900\<rparr>], schema_version = ''2''\<rparr>) =
   Inr \<lparr>nonces = [\<lparr>row_chain_id = 1, row_verifying_contract = ''0xaa'', row_signer = ''0xb1'',
        row_nonce = ''0xcd'', row_expires_at = 900\<rparr>], schema_version = ''2''\<rparr>"
  by (rule sqlite_survives_restart [of Absent "\<lparr>nonces = [], schema_version = ''2''\<rparr>"
        "[OpAdd ''0xB1'' ''0xCD'' 900 1 ''0xAA'']"])
     (simp_all add: sqlite_open_def maybe_migrate_legacy_file_def schema_version_text sqlite_add_def
        int64_def lower_eval)

text \<open>What the constructor does with the file it finds: a version-1 file (no meta table, or a version
  that does not parse as at least 2) is removed and the store starts empty, a current file is kept
  row for row, and a file that is not a SQLite database makes the constructor raise instead of
  being replaced.\<close>

theorem sqlite_open_cases:
  "sqlite_open d =
     (case d of
        Absent \<Rightarrow> Inr \<lparr>nonces = [], schema_version = ''2''\<rparr>
      | NotADatabase \<Rightarrow> Inl (DatabaseError ''file is not a database'')
      | Database f \<Rightarrow>
          Inr \<lparr>nonces = (case meta_version f of
                  Some (Some s) \<Rightarrow> (case parse_int s of Some v \<Rightarrow> if 2 \<le> v then file_rows f else [] | None \<Rightarrow> [])
                | _ \<Rightarrow> []),
               schema_version = ''2''\<rparr>)"
proof (cases d)
  case (Database f)
  then show ?thesis
    by (simp add: sqlite_open_def maybe_migrate_legacy_file_def schema_version_text drop_legacy_file_def
        Let_def version_less split: option.split)
qed (simp_all add: sqlite_open_def maybe_migrate_legacy_file_def schema_version_text)

end
