(* ===== verification/Py_Json.thy ===== *)
theory Py_Json
  imports Py_Prelude
begin

text \<open>
  JSON values as Python's \<open>json\<close> module makes them, and the serialiser \<open>json.dumps\<close> with
  \<open>ensure_ascii=False\<close> and the compact separators, with and without \<open>sort_keys\<close>. The shortest
  decimal form of a float, \<open>repr\<close>, is a parameter; what the proofs need of it is \<open>float_repr_ok\<close>.
  The lemmas show that the text determines the value.
\<close>

datatype json =
    JNull
  | JBool bool
  | JInt int
  | JFloat rat
  | JNaN
  | JPosInf
  | JNegInf
  | JStr string
  | JList "json list"
  | JObj "(string \<times> json) list"

type_synonym dict = "(string \<times> json) list"

text \<open>\<open>d.get(k)\<close> and \<open>d[k]\<close>.\<close>

definition dict_get :: "dict \<Rightarrow> string \<Rightarrow> json" where
  "dict_get d k = (case map_of d k of None \<Rightarrow> JNull | Some v \<Rightarrow> v)"

definition dict_item :: "dict \<Rightarrow> string \<Rightarrow> json res" where
  "dict_item d k = (case map_of d k of None \<Rightarrow> Inl (KeyError k) | Some v \<Rightarrow> Inr v)"

subsection \<open>int(x)\<close>

definition trunc :: "rat \<Rightarrow> int" where
  "trunc x = (if 0 \<le> x then \<lfloor>x\<rfloor> else \<lceil>x\<rceil>)"

fun py_int :: "json \<Rightarrow> int res" where
  "py_int (JInt n) = Inr n"
| "py_int (JBool b) = Inr (if b then 1 else 0)"
| "py_int (JFloat x) = Inr (trunc x)"
| "py_int JNaN = Inl (ValueError ''cannot convert float NaN to integer'')"
| "py_int JPosInf = Inl (OverflowError ''cannot convert float infinity to integer'')"
| "py_int JNegInf = Inl (OverflowError ''cannot convert float infinity to integer'')"
| "py_int (JStr s) =
     of_opt (ValueError ''invalid literal for int() with base 10'') (parse_int s)"
| "py_int JNull = Inl (TypeError ''int() argument must be a string or a real number'')"
| "py_int (JList _) = Inl (TypeError ''int() argument must be a string or a real number'')"
| "py_int (JObj _) = Inl (TypeError ''int() argument must be a string or a real number'')"

fun truthy :: "json \<Rightarrow> bool" where
  "truthy JNull = False"
| "truthy (JBool b) = b"
| "truthy (JInt n) = (n \<noteq> 0)"
| "truthy (JFloat x) = (x \<noteq> 0)"
| "truthy JNaN = True"
| "truthy JPosInf = True"
| "truthy JNegInf = True"
| "truthy (JStr s) = (s \<noteq> [])"
| "truthy (JList l) = (l \<noteq> [])"
| "truthy (JObj d) = (d \<noteq> [])"

subsection \<open>json.dumps\<close>

definition esc_char :: "char \<Rightarrow> string" where
  "esc_char c =
     (let n = (of_char c :: nat) in
      if n = 34 then [CHR 0x5C, CHR 0x22]
      else if n = 92 then [CHR 0x5C, CHR 0x5C]
      else if n = 10 then [CHR 0x5C, CHR ''n'']
      else if n = 13 then [CHR 0x5C, CHR ''r'']
      else if n = 9 then [CHR 0x5C, CHR ''t'']
      else if n = 12 then [CHR 0x5C, CHR ''f'']
      else if n = 8 then [CHR 0x5C, CHR ''b'']
      else if n < 32 then
        [CHR 0x5C, CHR ''u'', CHR ''0'', CHR ''0'', hex_digit (n div 16), hex_digit (n mod 16)]
      else [c])"

definition dumps_str :: "string \<Rightarrow> string" where
  "dumps_str s = CHR 0x22 # concat (map esc_char s) @ [CHR 0x22]"

fun comma_join :: "string list \<Rightarrow> string" where
  "comma_join [] = []"
| "comma_join [x] = x"
| "comma_join (x # y # ys) = x @ CHR '','' # comma_join (y # ys)"

fun json_dumps :: "(rat \<Rightarrow> string) \<Rightarrow> json \<Rightarrow> string" where
  "json_dumps fr JNull = ''null''"
| "json_dumps fr (JBool b) = (if b then ''true'' else ''false'')"
| "json_dumps fr (JInt n) = int_str n"
| "json_dumps fr (JFloat x) = fr x"
| "json_dumps fr JNaN = ''NaN''"
| "json_dumps fr JPosInf = ''Infinity''"
| "json_dumps fr JNegInf = ''-Infinity''"
| "json_dumps fr (JStr s) = dumps_str s"
| "json_dumps fr (JList vs) = CHR ''['' # comma_join (map (json_dumps fr) vs) @ '']''"
| "json_dumps fr (JObj kvs) =
     CHR ''{'' # comma_join (map (\<lambda>kv. dumps_str (fst kv) @ CHR '':'' # json_dumps fr (snd kv)) kvs) @ ''}''"

fun sort_keys :: "json \<Rightarrow> json" where
  "sort_keys (JList vs) = JList (map sort_keys vs)"
| "sort_keys (JObj kvs) = JObj (sort_key fst (map (\<lambda>kv. (fst kv, sort_keys (snd kv))) kvs))"
| "sort_keys v = v"

definition canonical_json :: "(rat \<Rightarrow> string) \<Rightarrow> json \<Rightarrow> string" where
  "canonical_json fr v = json_dumps fr (sort_keys v)"

subsection \<open>The text determines the value\<close>

text \<open>One character back from its escaped form.\<close>

fun unesc :: "string \<Rightarrow> (char \<times> string) option" where
  "unesc [] = None"
| "unesc (b # r) =
     (if b \<noteq> CHR 0x5C then Some (b, r)
      else (case r of
              [] \<Rightarrow> None
            | e # r1 \<Rightarrow>
                (if e = CHR ''n'' then Some (char_of (10 :: nat), r1)
                 else if e = CHR ''r'' then Some (char_of (13 :: nat), r1)
                 else if e = CHR ''t'' then Some (char_of (9 :: nat), r1)
                 else if e = CHR ''f'' then Some (char_of (12 :: nat), r1)
                 else if e = CHR ''b'' then Some (char_of (8 :: nat), r1)
                 else if e = CHR ''u'' then
                   (case r1 of
                      z # z' # h # l # r2 \<Rightarrow>
                        (case (hex_val h, hex_val l) of
                           (Some a, Some b) \<Rightarrow> Some (char_of (16 * a + b), r2)
                         | _ \<Rightarrow> None)
                    | _ \<Rightarrow> None)
                 else Some (e, r1))))"

lemma char_eq_iff: "(c :: char) = d \<longleftrightarrow> (of_char c :: nat) = of_char d"
  by (metis char_of_char)

lemma esc_char_named:
  "esc_char CHR 0x22 = [CHR 0x5C, CHR 0x22]" "esc_char CHR 0x5C = [CHR 0x5C, CHR 0x5C]"
  "esc_char CHR 0x0A = [CHR 0x5C, CHR ''n'']" "esc_char CHR 0x0D = [CHR 0x5C, CHR ''r'']"
  "esc_char CHR 0x09 = [CHR 0x5C, CHR ''t'']" "esc_char CHR 0x0C = [CHR 0x5C, CHR ''f'']"
  "esc_char CHR 0x08 = [CHR 0x5C, CHR ''b'']"
  by (simp_all add: esc_char_def)

definition esc_named :: "char \<Rightarrow> bool" where
  "esc_named c \<longleftrightarrow> c \<in> {CHR 0x22, CHR 0x5C, CHR 0x0A, CHR 0x0D, CHR 0x09, CHR 0x0C, CHR 0x08}"

lemma esc_char_other:
  "\<not> esc_named c \<Longrightarrow> esc_char c =
     (if (of_char c :: nat) < 32
      then [CHR 0x5C, CHR ''u'', CHR ''0'', CHR ''0'', hex_digit (of_char c div 16), hex_digit (of_char c mod 16)]
      else [c])"
  by (simp add: esc_named_def esc_char_def Let_def char_eq_iff)

lemma unesc_esc: "unesc (esc_char c @ x) = Some (c, x)"
proof (cases "esc_named c")
  case True
  then show ?thesis by (auto simp: esc_named_def esc_char_named char_of_def bit_0)
next
  case False
  show ?thesis
  proof (cases "(of_char c :: nat) < 32")
    case True
    define n where "n = (of_char c :: nat)"
    then have "n < 256" using of_char_lt by simp
    then have d: "n div 16 < 16" "n mod 16 < 16" by auto
    have e: "esc_char c = [CHR 0x5C, CHR ''u'', CHR ''0'', CHR ''0'', hex_digit (n div 16), hex_digit (n mod 16)]"
      using True False by (simp add: esc_char_other n_def)
    have "char_of (16 * (n div 16) + n mod 16) = c"
      unfolding mult_div_mod_eq by (simp add: n_def)
    then show ?thesis by (simp add: e hex_val_digit [OF d(1)] hex_val_digit [OF d(2)])
  next
    case nF: False
    have "c \<noteq> CHR 0x5C" using False by (simp add: esc_named_def)
    with False nF show ?thesis by (simp add: esc_char_other)
  qed
qed

lemma esc_char_inj: "esc_char c @ x = esc_char d @ y \<Longrightarrow> c = d \<and> x = y"
  by (metis unesc_esc option.inject prod.inject)

lemma esc_char_no_quote: "\<exists>a r. esc_char c = a # r \<and> a \<noteq> CHR 0x22"
proof (cases "esc_named c")
  case True
  then show ?thesis by (auto simp: esc_named_def esc_char_named)
next
  case False
  then show ?thesis by (auto simp: esc_char_other esc_named_def)
qed

lemma dumps_str_body_inj:
  "concat (map esc_char s) @ CHR 0x22 # u = concat (map esc_char s') @ CHR 0x22 # u' \<Longrightarrow> s = s' \<and> u = u'"
proof (induction s arbitrary: s')
  case Nil
  show ?case
  proof (cases s')
    case (Cons d t)
    obtain a r where "esc_char d = a # r" "a \<noteq> CHR 0x22" using esc_char_no_quote by blast
    with Nil Cons show ?thesis by simp
  qed (use Nil in simp)
next
  case (Cons c s)
  show ?case
  proof (cases s')
    case Nil
    with Cons.prems show ?thesis using esc_char_no_quote [of c] by auto
  next
    case (Cons d t)
    with Cons.prems have "esc_char c @ (concat (map esc_char s) @ CHR 0x22 # u) =
        esc_char d @ (concat (map esc_char t) @ CHR 0x22 # u')" by simp
    from esc_char_inj [OF this] Cons.IH [of t] Cons show ?thesis by simp
  qed
qed

lemma dumps_str_inj: "dumps_str s @ u = dumps_str s' @ u' \<Longrightarrow> s = s' \<and> u = u'"
  using dumps_str_body_inj [of s u s' u'] by (simp add: dumps_str_def)

text \<open>What is needed of \<open>repr\<close>: distinct floats print differently, in the usual characters.\<close>

definition float_repr_ok :: "(rat \<Rightarrow> string) \<Rightarrow> bool" where
  "float_repr_ok fr \<longleftrightarrow>
     inj fr \<and> (\<forall>x. set (fr x) \<subseteq> set ''0123456789+-.e'' \<and> (CHR ''.'' \<in> set (fr x) \<or> CHR ''e'' \<in> set (fr x)))"

lemma digit_in: "is_digit c \<Longrightarrow> c \<in> set ''0123456789''"
proof -
  assume "is_digit c"
  then have "(of_char c :: nat) \<in> {48..<58}" by (simp add: is_digit_def)
  also have "{48..<58} = {48, 49, 50, 51, 52, 53, 54, 55, 56, 57 :: nat}"
    by (simp add: atLeastLessThan_nat_numeral insert_commute)
  finally show ?thesis by (auto simp: char_eq_iff)
qed

lemma int_str_set: "(\<And>k. set (nat_str k) \<subseteq> D) \<Longrightarrow> set (int_str n) \<subseteq> insert (CHR ''-'') D"
  by (auto simp: int_str_def)

lemma int_str_chars: "set (int_str n) \<subseteq> set ''0123456789-''" "int_str n \<noteq> []"
proof -
  have "set (nat_str k) \<subseteq> set ''0123456789''" for k using nat_str_digits digit_in by blast
  from int_str_set [OF this] show "set (int_str n) \<subseteq> set ''0123456789-''"
    by (simp add: insert_commute)
qed (simp add: int_str_def)

lemma nat_str_inj: "nat_str m = nat_str n \<Longrightarrow> m = n"
  by (metis digits_val_nat_str)

lemma int_str_inj: "int_str m = int_str n \<Longrightarrow> m = n"
proof -
  assume h: "int_str m = int_str n"
  have no: "nat_str k \<noteq> CHR ''-'' # t" for k t
    using nat_str_digits [of k] by (auto simp: is_digit_def)
  have no': "CHR ''-'' # t \<noteq> nat_str k" for k t using no by metis
  show ?thesis
  proof (cases "m < 0"; cases "n < 0")
  qed (use h in \<open>auto simp: int_str_def no no' dest: nat_str_inj\<close>)
qed

fun scalar :: "json \<Rightarrow> bool" where
  "scalar (JStr s) = False"
| "scalar (JList l) = False"
| "scalar (JObj d) = False"
| "scalar v = True"

lemma scalar_inj:
  assumes "float_repr_ok fr" and "scalar v" and "scalar w" and "json_dumps fr v = json_dumps fr w"
  shows "v = w"
proof -
  have i: "set (int_str n) \<subseteq> set ''0123456789-''" for n using int_str_chars(1) .
  have f: "set (fr x) \<subseteq> set ''0123456789+-.e''" "CHR ''.'' \<in> set (fr x) \<or> CHR ''e'' \<in> set (fr x)" for x
    using assms(1) by (auto simp: float_repr_ok_def)
  have ni: "CHR ''.'' \<notin> set (int_str n)" "CHR ''e'' \<notin> set (int_str n)" for n using i [of n] by auto
  have ifl: "int_str n \<noteq> fr x" for n x using f(2) [of x] ni [of n] by metis
  have lit: "int_str n \<noteq> t \<and> fr x \<noteq> t"
    if "t \<in> {''null'', ''true'', ''false'', ''NaN'', ''Infinity'', ''-Infinity''}" for n x t
    using i [of n] f(1) [of x] that by auto
  have ne:
    "int_str n \<noteq> ''null''" "''null'' \<noteq> int_str n" "fr x \<noteq> ''null''" "''null'' \<noteq> fr x"
    "int_str n \<noteq> ''true''" "''true'' \<noteq> int_str n" "fr x \<noteq> ''true''" "''true'' \<noteq> fr x"
    "int_str n \<noteq> ''false''" "''false'' \<noteq> int_str n" "fr x \<noteq> ''false''" "''false'' \<noteq> fr x"
    "int_str n \<noteq> ''NaN''" "''NaN'' \<noteq> int_str n" "fr x \<noteq> ''NaN''" "''NaN'' \<noteq> fr x"
    "int_str n \<noteq> ''Infinity''" "''Infinity'' \<noteq> int_str n" "fr x \<noteq> ''Infinity''" "''Infinity'' \<noteq> fr x"
    "int_str n \<noteq> ''-Infinity''" "''-Infinity'' \<noteq> int_str n" "fr x \<noteq> ''-Infinity''" "''-Infinity'' \<noteq> fr x"
    "int_str n \<noteq> fr x" "fr x \<noteq> int_str n" for n x
    using lit [of "''null''" n x] lit [of "''true''" n x]
      lit [of "''false''" n x]
      lit [of "''NaN''" n x]
      lit [of "''Infinity''" n x]
      lit [of "''-Infinity''" n x]
      ifl [of n x] by auto
  have finj: "fr x = fr y \<Longrightarrow> x = y" for x y using assms(1) by (auto simp: float_repr_ok_def dest: injD)
  show ?thesis
    using assms(2,3,4)
    by (cases v; cases w) (simp_all only: json_dumps.simps scalar.simps ne simp_thms if_split_asm, (auto simp: ne dest: int_str_inj finj split: if_splits)?)
qed

text \<open>No value's text continues another's: what follows a value is a comma, a closing bracket or nothing.\<close>

definition delimited :: "string \<Rightarrow> bool" where
  "delimited u \<longleftrightarrow> (u = [] \<or> hd u \<in> set '',]}'')"

lemma delimited_Cons [simp]: "delimited (c # u) \<longleftrightarrow> c \<in> set '',]}''"
  by (simp add: delimited_def)

definition token_char :: "char \<Rightarrow> bool" where
  "token_char c \<longleftrightarrow> c \<notin> set '',]}[{'' \<and> c \<noteq> CHR 0x22"

lemma scalar_chars:
  assumes "float_repr_ok fr" and "scalar v"
  shows "json_dumps fr v \<noteq> []" and "\<forall>c \<in> set (json_dumps fr v). token_char c"
proof -
  note fx = assms(1) [unfolded float_repr_ok_def, THEN conjunct2, THEN spec]
  have f: "set (fr x) \<subseteq> set ''0123456789+-.e''" for x using conjunct1 [OF fx] .
  have f2: "fr x \<noteq> []" for x using conjunct2 [OF fx [of x]] by (cases "fr x") simp_all
  have t: "\<forall>c \<in> set ''0123456789+-.e''. token_char c" by (simp add: token_char_def)
  have t': "\<forall>c \<in> set ''0123456789-''. token_char c" by (simp add: token_char_def)
  show "json_dumps fr v \<noteq> []" using assms(2) by (cases v) (simp_all add: f2 int_str_chars(2))
  show "\<forall>c \<in> set (json_dumps fr v). token_char c"
  proof (cases v)
    case (JInt n)
    then show ?thesis unfolding JInt json_dumps.simps using int_str_chars(1) [of n] t' by blast
  next
    case (JFloat x)
    then show ?thesis unfolding JFloat json_dumps.simps using f [of x] t by blast
  qed (use assms(2) in \<open>auto simp: token_char_def\<close>)
qed

lemma token_split:
  assumes "\<forall>c \<in> set a. token_char c" and "\<forall>c \<in> set b. token_char c"
    and "delimited u" and "delimited u'" and "a @ u = b @ u'"
  shows "a = b \<and> u = u'"
proof -
  have d: "takeWhile token_char x = []" if "delimited x" for x
    using that by (cases x) (auto simp: token_char_def)
  have "takeWhile token_char (a @ u) = a" "takeWhile token_char (b @ u') = b"
    using assms(1,2) d [OF assms(3)] d [OF assms(4)] by (simp_all add: takeWhile_append2)
  then show ?thesis using assms(5) by simp
qed

lemma nonscalar_hd:
  "\<not> scalar v \<Longrightarrow> \<exists>c r. json_dumps fr v = c # r \<and> c \<in> {CHR 0x22, CHR ''['', CHR ''{''}"
  by (cases v) (simp_all add: dumps_str_def)

text \<open>The first character tells the kind of a value that is not a scalar.\<close>

lemma hd_kind:
  assumes "float_repr_ok fr" and "json_dumps fr w @ u' = c # r"
  shows "c = CHR 0x22 \<Longrightarrow> \<exists>s. w = JStr s" and "c = CHR ''['' \<Longrightarrow> \<exists>l. w = JList l"
    and "c = CHR ''{'' \<Longrightarrow> \<exists>d. w = JObj d"
proof -
  have sc: "token_char c" if "scalar w"
    using scalar_chars [OF assms(1) that] assms(2) by (cases "json_dumps fr w") auto
  have nt: "\<not> token_char CHR 0x22" "\<not> token_char CHR ''[''" "\<not> token_char CHR ''{''"
    by (simp_all add: token_char_def)
  show "c = CHR 0x22 \<Longrightarrow> \<exists>s. w = JStr s"
  proof -
    assume c: "c = CHR 0x22"
    with sc nt have "\<not> scalar w" by blast
    with assms(2) c show ?thesis by (cases w) (simp_all add: dumps_str_def)
  qed
  show "c = CHR ''['' \<Longrightarrow> \<exists>l. w = JList l"
  proof -
    assume c: "c = CHR ''[''"
    with sc nt have "\<not> scalar w" by blast
    with assms(2) c show ?thesis by (cases w) (simp_all add: dumps_str_def)
  qed
  show "c = CHR ''{'' \<Longrightarrow> \<exists>d. w = JObj d"
  proof -
    assume c: "c = CHR ''{''"
    with sc nt have "\<not> scalar w" by blast
    with assms(2) c show ?thesis by (cases w) (simp_all add: dumps_str_def)
  qed
qed

definition unambiguous :: "('a \<Rightarrow> string) \<Rightarrow> 'a \<Rightarrow> bool" where
  "unambiguous f x \<longleftrightarrow>
     (\<forall>y u u'. delimited u \<longrightarrow> delimited u' \<longrightarrow> f x @ u = f y @ u' \<longrightarrow> x = y \<and> u = u')"

lemma comma_join_Cons:
  "comma_join (x # xs) = x @ (if xs = [] then [] else CHR '','' # comma_join xs)"
  by (cases xs) auto

lemma comma_join_inj:
  assumes "\<forall>x \<in> set xs. unambiguous f x" and "\<And>x. f x \<noteq> [] \<and> hd (f x) \<notin> set '',]}''"
    and "z \<in> set '']}''"
    and "comma_join (map f xs) @ z # u = comma_join (map f ys) @ z # u'"
  shows "xs = ys \<and> u = u'"
  using assms(1,4)
proof (induction xs arbitrary: ys)
  case Nil
  have "ys = []"
  proof (cases ys)
    case (Cons y ys')
    obtain c r where "f y = c # r" "c \<notin> set '',]}''" using assms(2) [of y] by (cases "f y") auto
    with Nil Cons assms(3) show ?thesis by (auto simp: comma_join_Cons)
  qed simp
  with Nil show ?case by simp
next
  case (Cons x xs)
  show ?case
  proof (cases ys)
    case Nil
    obtain c r where "f x = c # r" "c \<notin> set '',]}''" using assms(2) [of x] by (cases "f x") auto
    with Cons.prems Nil assms(3) show ?thesis by (auto simp: comma_join_Cons)
  next
    case (Cons y ys')
    let ?t = "\<lambda>xs v. (if xs = [] then [] else CHR '','' # comma_join (map f xs)) @ z # v"
    have eq: "f x @ ?t xs u = f y @ ?t ys' u'"
      using Cons.prems(2) Cons by (simp add: comma_join_Cons)
    have "delimited (?t xs u)" "delimited (?t ys' u')" using assms(3) by auto
    moreover have "unambiguous f x" using Cons.prems(1) by simp
    ultimately have xy: "x = y" and t: "?t xs u = ?t ys' u'" using eq by (auto simp: unambiguous_def)
    have zc: "z \<noteq> CHR '',''" using assms(3) by auto
    show ?thesis
    proof (cases "xs = []")
      case True
      with t zc have "ys' = []" by (auto split: if_splits)
      with True t xy Cons show ?thesis by simp
    next
      case False
      with t zc have "ys' \<noteq> []" by (auto split: if_splits)
      with False t have "comma_join (map f xs) @ z # u = comma_join (map f ys') @ z # u'" by simp
      with Cons.IH Cons.prems(1) xy Cons show ?thesis by simp
    qed
  qed
qed

lemma unambiguous_scalar:
  assumes fr: "float_repr_ok fr" and "scalar v"
  shows "unambiguous (json_dumps fr) v"
  unfolding unambiguous_def
proof (intro allI impI)
  fix w u u'
  assume h: "delimited u" "delimited u'" "json_dumps fr v @ u = json_dumps fr w @ u'"
  have "scalar w"
  proof (rule ccontr)
    assume "\<not> scalar w"
    then obtain c r where w: "json_dumps fr w = c # r" "c \<in> {CHR 0x22, CHR ''['', CHR ''{''}"
      using nonscalar_hd by blast
    then have "\<not> token_char c" by (auto simp: token_char_def)
    moreover obtain c' r' where "json_dumps fr v = c' # r'" "token_char c'"
      using scalar_chars [OF assms] by (cases "json_dumps fr v") auto
    ultimately show False using h(3) w(1) by simp
  qed
  with token_split [OF scalar_chars(2) [OF assms] scalar_chars(2) [OF fr] h(1,2,3)] scalar_inj [OF assms]
  show "v = w \<and> u = u'" by blast
qed

lemma dumps_unambiguous:
  assumes fr: "float_repr_ok fr"
  shows "unambiguous (json_dumps fr) v"
proof (induction v)
  case (JStr s)
  show ?case
    unfolding unambiguous_def
  proof (intro allI impI)
    fix w u u'
    assume h: "delimited u" "delimited u'" "json_dumps fr (JStr s) @ u = json_dumps fr w @ u'"
    then obtain s' where w: "w = JStr s'"
      using hd_kind(1) [OF fr, of w u' "CHR 0x22"] h(3) [symmetric] by (auto simp: dumps_str_def)
    with h show "JStr s = w \<and> u = u'" using dumps_str_inj [of s u s' u'] by simp
  qed
next
  case (JList vs)
  have ne: "json_dumps fr x \<noteq> [] \<and> hd (json_dumps fr x) \<notin> set '',]}''" for x
    using scalar_chars [OF fr, of x] nonscalar_hd [of x fr]
    by (cases "scalar x") (auto simp: token_char_def neq_Nil_conv)
  show ?case
    unfolding unambiguous_def
  proof (intro allI impI)
    fix w u u'
    assume h: "delimited u" "delimited u'" "json_dumps fr (JList vs) @ u = json_dumps fr w @ u'"
    then obtain ws where w: "w = JList ws"
      using hd_kind(2) [OF fr, of w u' "CHR ''[''"] h(3) [symmetric] by auto
    with h have "comma_join (map (json_dumps fr) vs) @ CHR '']'' # u =
          comma_join (map (json_dumps fr) ws) @ CHR '']'' # u'" by simp
    from comma_join_inj [OF _ ne _ this] JList.IH w show "JList vs = w \<and> u = u'" by auto
  qed
next
  case (JObj kvs)
  let ?f = "\<lambda>kv. dumps_str (fst kv) @ CHR '':'' # json_dumps fr (snd kv)"
  have ne: "?f x \<noteq> [] \<and> hd (?f x) \<notin> set '',]}''" for x
    by (simp add: dumps_str_def)
  have un: "unambiguous ?f kv" if "kv \<in> set kvs" for kv
    unfolding unambiguous_def
  proof (intro allI impI)
    fix y u u'
    assume h: "delimited u" "delimited u'" "?f kv @ u = ?f y @ u'"
    then have "dumps_str (fst kv) @ (CHR '':'' # json_dumps fr (snd kv) @ u) =
        dumps_str (fst y) @ (CHR '':'' # json_dumps fr (snd y) @ u')" by simp
    from dumps_str_inj [OF this] have k: "fst kv = fst y" and
      v: "json_dumps fr (snd kv) @ u = json_dumps fr (snd y) @ u'" by auto
    have "unambiguous (json_dumps fr) (snd kv)"
      using JObj.IH that by (cases kv) auto
    with h v k show "kv = y \<and> u = u'" by (auto simp: unambiguous_def prod_eq_iff)
  qed
  show ?case
    unfolding unambiguous_def
  proof (intro allI impI)
    fix w u u'
    assume h: "delimited u" "delimited u'" "json_dumps fr (JObj kvs) @ u = json_dumps fr w @ u'"
    then obtain kws where w: "w = JObj kws"
      using hd_kind(3) [OF fr, of w u' "CHR ''{''"] h(3) [symmetric] by auto
    with h have "comma_join (map ?f kvs) @ CHR ''}'' # u = comma_join (map ?f kws) @ CHR ''}'' # u'" by simp
    from comma_join_inj [OF _ ne _ this] un w show "JObj kvs = w \<and> u = u'" by auto
  qed
qed (rule unambiguous_scalar [OF fr], simp)+

lemma json_dumps_inj: "float_repr_ok fr \<Longrightarrow> json_dumps fr v = json_dumps fr w \<Longrightarrow> v = w"
  using dumps_unambiguous [of fr v] by (auto simp: unambiguous_def delimited_def)

lemma canonical_json_eq_iff:
  "float_repr_ok fr \<Longrightarrow> canonical_json fr v = canonical_json fr w \<longleftrightarrow> sort_keys v = sort_keys w"
  by (auto simp: canonical_json_def dest: json_dumps_inj)

text \<open>The serialiser escapes every NUL, so its text contains none.\<close>

lemma no_nul_esc: "CHR 0x00 \<notin> set (esc_char c)"
proof (cases "esc_named c")
  case True
  then show ?thesis by (auto simp: esc_named_def esc_char_named)
next
  case False
  have h: "d < 16 \<Longrightarrow> hex_digit d \<noteq> CHR 0x00" for d by (auto simp: hex_digit_def char_eq_iff)
  have "n < 256 \<Longrightarrow> n div 16 < 16 \<and> n mod 16 < 16" for n :: nat by auto
  from this [OF of_char_lt [of c]] have "of_char c div 16 < (16 :: nat)" "of_char c mod 16 < (16 :: nat)"
    by blast+
  with h False show ?thesis by (auto simp: esc_char_other char_eq_iff)
qed

lemma no_nul_dumps_str: "CHR 0x00 \<notin> set (dumps_str s)"
  using no_nul_esc by (auto simp: dumps_str_def)

lemma no_nul_comma_join: "\<forall>x \<in> set xs. CHR 0x00 \<notin> set x \<Longrightarrow> CHR 0x00 \<notin> set (comma_join xs)"
  by (induction xs rule: comma_join.induct) auto

lemma no_nul_json_dumps:
  assumes fr: "float_repr_ok fr"
  shows "CHR 0x00 \<notin> set (json_dumps fr v)"
proof (induction v)
  case (JInt n)
  show ?case using int_str_chars(1) [of n] by (simp only: json_dumps.simps) auto
next
  case (JFloat x)
  have "set (fr x) \<subseteq> set ''0123456789+-.e''"
    using fr [unfolded float_repr_ok_def, THEN conjunct2, THEN spec, THEN conjunct1] .
  then show ?case by (simp only: json_dumps.simps) auto
next
  case (JList vs)
  then show ?case by (auto intro!: no_nul_comma_join [rule_format])
next
  case (JObj kvs)
  have "CHR 0x00 \<notin> set (comma_join (map (\<lambda>kv. dumps_str (fst kv) @ CHR '':'' # json_dumps fr (snd kv)) kvs))"
    using JObj.IH no_nul_dumps_str by (intro no_nul_comma_join) fastforce
  then show ?case by simp
qed (simp_all add: no_nul_dumps_str)

text \<open>A concrete decimal form that meets \<open>float_repr_ok\<close>, for evaluation.\<close>

definition ratio_repr :: "rat \<Rightarrow> string" where
  "ratio_repr x = (case quotient_of x of (a, b) \<Rightarrow> int_str a @ CHR ''e'' # int_str b)"

lemma ratio_repr_ok: "float_repr_ok ratio_repr"
proof -
  have e: "CHR ''e'' \<notin> set (int_str n)" for n using int_str_chars(1) [of n] by auto
  have tw: "takeWhile (\<lambda>c. c \<noteq> CHR ''e'') (int_str a @ CHR ''e'' # r) = int_str a" for a r
    using e [of a] by (subst takeWhile_append2) auto
  have i: "int_str a @ CHR ''e'' # int_str b = int_str a' @ CHR ''e'' # int_str b' \<Longrightarrow> a = a' \<and> b = b'"
    for a b a' b' 
  proof -
    assume h: "int_str a @ CHR ''e'' # int_str b = int_str a' @ CHR ''e'' # int_str b'"
    then have "int_str a = int_str a'" using tw [of a "int_str b"] tw [of a' "int_str b'"] by simp
    with h int_str_inj show "a = a' \<and> b = b'" by simp
  qed
  have "inj ratio_repr"
    by (intro injI quotient_of_inject) (auto simp: ratio_repr_def split: prod.splits dest!: i)
  moreover have "set (ratio_repr x) \<subseteq> set ''0123456789+-.e'' \<and> CHR ''e'' \<in> set (ratio_repr x)" for x
  proof -
    define S where "S = set ''0123456789+-.e''"
    have "set ''0123456789-'' \<subseteq> S" and es: "CHR ''e'' \<in> S" by (simp_all add: S_def)
    then have "set (int_str n) \<subseteq> S" for n using int_str_chars(1) by blast
    then show ?thesis unfolding S_def [symmetric] using es by (simp add: ratio_repr_def split_beta)
  qed
  ultimately show ?thesis unfolding float_repr_ok_def by blast
qed

end
