(* ===== verification/Py_Codec.thy ===== *)
theory Py_Codec
  imports Py_Json
begin

text \<open>
  The text of the payment header: \<open>json.dumps\<close> with its default separators and ASCII escapes,
  \<open>json.loads\<close>, and the two directions of \<open>base64\<close>. A Python string is represented by its UTF-8
  bytes. The lemmas show that decoding undoes encoding, and that the fuel of the parser is never
  what stops it.
\<close>

subsection \<open>base64\<close>

definition b64_char :: "nat \<Rightarrow> char" where
  "b64_char n =
     char_of (if n < 26 then n + 65 else if n < 52 then n + 71 else if n < 62 then n - 4
              else if n = 62 then 43 else 47)"

definition b64_val :: "char \<Rightarrow> nat option" where
  "b64_val c =
     (let n = (of_char c :: nat) in
      if 65 \<le> n \<and> n \<le> 90 then Some (n - 65)
      else if 97 \<le> n \<and> n \<le> 122 then Some (n - 71)
      else if 48 \<le> n \<and> n \<le> 57 then Some (n + 4)
      else if n = 43 then Some 62 else if n = 47 then Some 63 else None)"

fun b64encode :: "byte list \<Rightarrow> string" where
  "b64encode [] = []"
| "b64encode [a] = [b64_char (unat a div 4), b64_char (unat a mod 4 * 16), CHR ''='', CHR ''='']"
| "b64encode [a, b] =
     [b64_char (unat a div 4), b64_char (unat a mod 4 * 16 + unat b div 16),
      b64_char (unat b mod 16 * 4), CHR ''='']"
| "b64encode (a # b # c # r) =
     b64_char (unat a div 4) # b64_char (unat a mod 4 * 16 + unat b div 16) #
     b64_char (unat b mod 16 * 4 + unat c div 64) # b64_char (unat c mod 64) # b64encode r"

text \<open>
  \<open>base64.b64decode\<close> without validation: characters outside the alphabet are skipped, a complete
  padding ends the data. The state is the position in the group of four, the bits left over from the
  last character, and the number of padding characters seen since.
\<close>

fun b64_loop :: "nat \<Rightarrow> nat \<Rightarrow> nat \<Rightarrow> string \<Rightarrow> byte list option" where
  "b64_loop quad left pads [] = (if quad = 0 then Some [] else None)"
| "b64_loop quad left pads (c # cs) =
     (if c = CHR ''='' then
        (if 2 \<le> quad \<and> 4 \<le> quad + Suc pads then Some []
         else b64_loop quad left (if 2 \<le> quad then Suc pads else pads) cs)
      else (case b64_val c of
          None \<Rightarrow> b64_loop quad left pads cs
        | Some v \<Rightarrow>
            (if quad = 0 then b64_loop 1 v 0 cs
             else if quad = 1 then map_option ((#) (of_nat (left * 4 + v div 16))) (b64_loop 2 (v mod 16) 0 cs)
             else if quad = 2 then map_option ((#) (of_nat (left * 16 + v div 4))) (b64_loop 3 (v mod 4) 0 cs)
             else map_option ((#) (of_nat (left * 64 + v))) (b64_loop 0 0 0 cs))))"

definition b64decode :: "string \<Rightarrow> byte list option" where
  "b64decode s = (if \<exists>c \<in> set s. 128 \<le> (of_char c :: nat) then None else b64_loop 0 0 0 s)"

lemma b64_char_code:
  "n < 64 \<Longrightarrow> (of_char (b64_char n) :: nat) =
     (if n < 26 then n + 65 else if n < 52 then n + 71 else if n < 62 then n - 4
      else if n = 62 then 43 else 47)"
  by (simp add: b64_char_def)

lemma b64_char_val:
  "n < 64 \<Longrightarrow> b64_val (b64_char n) = Some n \<and> b64_char n \<noteq> CHR ''='' \<and> (of_char (b64_char n) :: nat) < 128"
  by (auto simp: char_eq_iff b64_char_code b64_val_def Let_def)

lemma b64_char_simps [simp]:
  assumes "n < 64"
  shows "b64_val (b64_char n) = Some n" "b64_char n \<noteq> CHR ''=''" "(of_char (b64_char n) :: nat) < 128"
  using b64_char_val [OF assms] by auto

lemma unat_byte_lt: "unat (b :: byte) < 256"
  using unsigned_less [of b] by simp

lemma b64_bounds [simp]:
  "unat (a :: byte) div 4 < 64" "unat (a :: byte) mod 4 * 16 < 64"
  "unat (a :: byte) mod 4 * 16 + unat (b :: byte) div 16 < 64"
  "unat (b :: byte) mod 16 * 4 < 64" "unat (b :: byte) mod 16 * 4 + unat (c :: byte) div 64 < 64"
  "unat (c :: byte) mod 64 < 64"
  using unat_byte_lt [of a] unat_byte_lt [of b] unat_byte_lt [of c] by auto

lemma b64_pieces [simp]:
  "(of_nat (unat (a :: byte) div 4 * 4 + unat a mod 4) :: byte) = a"
  "(of_nat (unat (a :: byte) div 16 mod 16 * 16 + unat a mod 16) :: byte) = a"
  "(of_nat (unat (a :: byte) div 64 mod 4 * 64 + unat a mod 64) :: byte) = a"
proof -
  have 1: "unat a div 16 mod 16 = unat a div 16" "unat a div 64 mod 4 = unat a div 64"
    using unat_byte_lt [of a] by simp_all
  show "(of_nat (unat (a :: byte) div 4 * 4 + unat a mod 4) :: byte) = a"
    "(of_nat (unat (a :: byte) div 16 mod 16 * 16 + unat a mod 16) :: byte) = a"
    "(of_nat (unat (a :: byte) div 64 mod 4 * 64 + unat a mod 64) :: byte) = a"
    by (simp_all only: 1 div_mult_mod_eq) simp_all
qed

lemma b64_split [simp]:
  "(unat (a :: byte) mod 4 * 16 + unat (b :: byte) div 16) div 16 = unat a mod 4"
  "(unat (a :: byte) mod 4 * 16 + unat (b :: byte) div 16) mod 16 = unat b div 16"
  "(unat (b :: byte) mod 16 * 4 + unat (c :: byte) div 64) div 4 = unat b mod 16"
  "(unat (b :: byte) mod 16 * 4 + unat (c :: byte) div 64) mod 4 = unat c div 64"
  using unat_byte_lt [of a] unat_byte_lt [of b] unat_byte_lt [of c] by auto

lemma b64_loop_encode: "b64_loop 0 0 0 (b64encode bs) = Some bs"
  by (induction bs rule: b64encode.induct) (simp_all del: of_nat_add of_nat_mult)

lemma b64encode_ascii: "c \<in> set (b64encode bs) \<Longrightarrow> (of_char c :: nat) < 128"
  by (induction bs rule: b64encode.induct) auto

lemma b64_roundtrip: "b64decode (b64encode bs) = Some bs"
  using b64encode_ascii [of _ bs] b64_loop_encode by (fastforce simp: b64decode_def)

subsection \<open>UTF-8\<close>

definition continuation :: "char \<Rightarrow> bool" where
  "continuation c \<longleftrightarrow> 128 \<le> (of_char c :: nat) \<and> (of_char c :: nat) < 192"

text \<open>The code point at the head of a UTF-8 string: overlong forms and surrogates are refused.\<close>

definition utf8_next :: "string \<Rightarrow> (nat \<times> string) option" where
  "utf8_next s =
     (case s of
        [] \<Rightarrow> None
      | c # r \<Rightarrow>
          (let n = (of_char c :: nat) in
           if n < 128 then Some (n, r)
           else if n < 194 then None
           else if n < 224 then
             (case r of
                c1 # r1 \<Rightarrow> if continuation c1 then Some ((n - 192) * 64 + (of_char c1 - 128), r1) else None
              | _ \<Rightarrow> None)
           else if n < 240 then
             (case r of
                c1 # c2 # r2 \<Rightarrow>
                  (let p = (n - 224) * 4096 + (of_char c1 - 128) * 64 + (of_char c2 - 128)
                   in if continuation c1 \<and> continuation c2 \<and> 2048 \<le> p \<and> \<not> (0xD800 \<le> p \<and> p \<le> 0xDFFF)
                      then Some (p, r2) else None)
              | _ \<Rightarrow> None)
           else if n < 245 then
             (case r of
                c1 # c2 # c3 # r3 \<Rightarrow>
                  (let p = (n - 240) * 262144 + (of_char c1 - 128) * 4096 + (of_char c2 - 128) * 64 + (of_char c3 - 128)
                   in if continuation c1 \<and> continuation c2 \<and> continuation c3 \<and> 65536 \<le> p \<and> p \<le> 0x10FFFF
                      then Some (p, r3) else None)
              | _ \<Rightarrow> None)
           else None))"

lemma utf8_next_shorter: "utf8_next s = Some (n, r) \<Longrightarrow> length r < length s"
  by (auto simp: utf8_next_def Let_def split: list.splits if_splits)

function utf8_points :: "string \<Rightarrow> nat list option" where
  "utf8_points s =
     (if s = [] then Some []
      else (case utf8_next s of
          None \<Rightarrow> None
        | Some (n, r) \<Rightarrow> map_option ((#) n) (utf8_points r)))"
  by auto
termination by (relation "measure length") (auto dest: utf8_next_shorter)

declare utf8_points.simps [simp del]

definition utf8_encode :: "nat \<Rightarrow> string" where
  "utf8_encode n =
     (if n < 128 then [char_of n]
      else if n < 2048 then [char_of (192 + n div 64), char_of (128 + n mod 64)]
      else if n < 65536 then
        [char_of (224 + n div 4096), char_of (128 + n div 64 mod 64), char_of (128 + n mod 64)]
      else
        [char_of (240 + n div 262144), char_of (128 + n div 4096 mod 64),
         char_of (128 + n div 64 mod 64), char_of (128 + n mod 64)])"

text \<open>\<open>bytes.decode()\<close>: the bytes, when they are valid UTF-8.\<close>

definition decode_utf8 :: "byte list \<Rightarrow> string option" where
  "decode_utf8 bs =
     (let s = map (\<lambda>b. char_of (unat b)) bs in if utf8_points s = None then None else Some s)"

definition encode_utf8 :: "string \<Rightarrow> byte list" where
  "encode_utf8 s = map of_char s"

definition ascii :: "string \<Rightarrow> bool" where
  "ascii s = list_all (\<lambda>c. (of_char c :: nat) < 128) s"

lemma ascii_simps [simp]:
  "ascii []" "ascii (c # s) \<longleftrightarrow> (of_char c :: nat) < 128 \<and> ascii s"
  "ascii (s @ t) \<longleftrightarrow> ascii s \<and> ascii t"
  by (simp_all add: ascii_def)

lemma utf8_points_Nil [simp]: "utf8_points [] = Some []"
  by (simp add: utf8_points.simps)

lemma utf8_points_ascii: "ascii s \<Longrightarrow> utf8_points s = Some (map of_char s)"
proof (induction s)
  case (Cons c s)
  then have "utf8_next (c # s) = Some (of_char c, s)" by (simp add: utf8_next_def)
  with Cons show ?case by (subst utf8_points.simps) simp
qed simp

lemma char_of_unat_of_char: "char_of (unat (of_char c :: byte)) = c"
proof -
  have "(of_char c :: byte) = of_nat (of_char c)" by (rule of_nat_of_char [symmetric])
  then have "unat (of_char c :: byte) = of_char c mod 2 ^ 8" by (simp only: unat_of_nat) simp
  then have "unat (of_char c :: byte) = of_char c" using of_char_lt [of c] by simp
  then show ?thesis by simp
qed

lemma decode_encode_utf8: "ascii s \<Longrightarrow> decode_utf8 (encode_utf8 s) = Some s"
  by (simp add: decode_utf8_def encode_utf8_def o_def char_of_unat_of_char utf8_points_ascii)

subsection \<open>json.dumps with its defaults\<close>

definition u4 :: "nat \<Rightarrow> string" where
  "u4 n = [CHR 0x5C, CHR ''u'', hex_digit (n div 4096 mod 16), hex_digit (n div 256 mod 16),
           hex_digit (n div 16 mod 16), hex_digit (n mod 16)]"

text \<open>One code point with \<open>ensure_ascii\<close>: everything outside the printable ASCII range is escaped.\<close>

definition esc_point :: "nat \<Rightarrow> string" where
  "esc_point n =
     (if n = 34 then [CHR 0x5C, CHR 0x22]
      else if n = 92 then [CHR 0x5C, CHR 0x5C]
      else if n = 10 then [CHR 0x5C, CHR ''n'']
      else if n = 13 then [CHR 0x5C, CHR ''r'']
      else if n = 9 then [CHR 0x5C, CHR ''t'']
      else if n = 12 then [CHR 0x5C, CHR ''f'']
      else if n = 8 then [CHR 0x5C, CHR ''b'']
      else if 32 \<le> n \<and> n < 127 then [char_of n]
      else if n < 65536 then u4 n
      else u4 (0xD800 + (n - 65536) div 1024) @ u4 (0xDC00 + (n - 65536) mod 1024))"

definition ascii_str :: "string \<Rightarrow> string" where
  "ascii_str s = CHR 0x22 # concat (map esc_point (the (utf8_points s))) @ [CHR 0x22]"

fun comma_space :: "string list \<Rightarrow> string" where
  "comma_space [] = []"
| "comma_space [x] = x"
| "comma_space (x # y # ys) = x @ '', '' @ comma_space (y # ys)"

fun dumps_default :: "(rat \<Rightarrow> string) \<Rightarrow> json \<Rightarrow> string" where
  "dumps_default fr JNull = ''null''"
| "dumps_default fr (JBool b) = (if b then ''true'' else ''false'')"
| "dumps_default fr (JInt n) = int_str n"
| "dumps_default fr (JFloat x) = fr x"
| "dumps_default fr JNaN = ''NaN''"
| "dumps_default fr JPosInf = ''Infinity''"
| "dumps_default fr JNegInf = ''-Infinity''"
| "dumps_default fr (JStr s) = ascii_str s"
| "dumps_default fr (JList vs) = CHR ''['' # comma_space (map (dumps_default fr) vs) @ '']''"
| "dumps_default fr (JObj kvs) =
     CHR ''{'' # comma_space (map (\<lambda>kv. ascii_str (fst kv) @ '': '' @ dumps_default fr (snd kv)) kvs) @ ''}''"

subsection \<open>json.loads\<close>

definition json_space :: "char \<Rightarrow> bool" where
  "json_space c \<longleftrightarrow> c \<in> {CHR 0x20, CHR 0x09, CHR 0x0A, CHR 0x0D}"

definition skip_ws :: "string \<Rightarrow> string" where
  "skip_ws s = dropWhile json_space s"

definition hex4 :: "string \<Rightarrow> (nat \<times> string) option" where
  "hex4 s =
     (case s of
        a # b # c # d # r \<Rightarrow>
          (case (hex_val a, hex_val b, hex_val c, hex_val d) of
             (Some w, Some x, Some y, Some z) \<Rightarrow> Some (((w * 16 + x) * 16 + y) * 16 + z, r)
           | _ \<Rightarrow> None)
      | _ \<Rightarrow> None)"

text \<open>What follows a backslash; a pair of escaped surrogates is one code point.\<close>

definition scan_escape :: "string \<Rightarrow> (string \<times> string) option" where
  "scan_escape s =
     (case s of
        [] \<Rightarrow> None
      | e # r \<Rightarrow>
          if e = CHR 0x22 \<or> e = CHR 0x5C \<or> e = CHR ''/'' then Some ([e], r)
          else if e = CHR ''b'' then Some ([CHR 0x08], r)
          else if e = CHR ''f'' then Some ([CHR 0x0C], r)
          else if e = CHR ''n'' then Some ([CHR 0x0A], r)
          else if e = CHR ''r'' then Some ([CHR 0x0D], r)
          else if e = CHR ''t'' then Some ([CHR 0x09], r)
          else if e = CHR ''u'' then
            (case hex4 r of
               None \<Rightarrow> None
             | Some (n, r1) \<Rightarrow>
                 (case (if 0xD800 \<le> n \<and> n \<le> 0xDBFF \<and> startswith r1 [CHR 0x5C, CHR ''u'']
                        then hex4 (drop 2 r1) else None) of
                    Some (m, r2) \<Rightarrow>
                      if 0xDC00 \<le> m \<and> m \<le> 0xDFFF
                      then Some (utf8_encode (65536 + (n - 0xD800) * 1024 + (m - 0xDC00)), r2)
                      else Some (utf8_encode n, r1)
                  | None \<Rightarrow> Some (utf8_encode n, r1)))
          else None)"

lemma hex4_shorter: "hex4 s = Some (n, r) \<Longrightarrow> length r < length s"
  by (auto simp: hex4_def split: list.splits option.splits)

lemma scan_escape_shorter: "scan_escape s = Some (x, r) \<Longrightarrow> length r < length s"
  by (fastforce simp: scan_escape_def dest: hex4_shorter split: list.splits option.splits if_splits)

text \<open>The rest of a string literal, after its opening quote.\<close>

function scan_string :: "string \<Rightarrow> (string \<times> string) option" where
  "scan_string s =
     (case s of
        [] \<Rightarrow> None
      | c # r \<Rightarrow>
          if c = CHR 0x22 then Some ([], r)
          else if c = CHR 0x5C then
            (case scan_escape r of
               None \<Rightarrow> None
             | Some (x, r') \<Rightarrow> map_option (map_prod (append x) id) (scan_string r'))
          else if (of_char c :: nat) < 32 then None
          else map_option (map_prod (Cons c) id) (scan_string r))"
  by auto
termination by (relation "measure length") (auto dest: scan_escape_shorter)

declare scan_string.simps [simp del]

lemma scan_string_shorter: "scan_string s = Some (x, r) \<Longrightarrow> length r < length s"
proof (induction s arbitrary: x r rule: scan_string.induct)
  case (1 s)
  show ?case
  proof (cases s)
    case Nil
    with 1 show ?thesis by (simp add: scan_string.simps)
  next
    case (Cons c t)
    show ?thesis
      using 1(3) 1(1) [OF Cons] 1(2) [OF Cons]
      by (subst (asm) scan_string.simps)
        (auto simp: Cons dest!: scan_escape_shorter split: if_splits option.splits, force+)
  qed
qed

subsection \<open>Numbers\<close>

fun bit_length :: "nat \<Rightarrow> nat" where
  "bit_length n = (if n = 0 then 0 else Suc (bit_length (n div 2)))"

declare bit_length.simps [simp del]

definition pow2 :: "int \<Rightarrow> rat" where
  "pow2 e = (if 0 \<le> e then 2 ^ nat e else 1 / 2 ^ nat (- e))"

text \<open>The exponent \<open>e\<close> with \<open>2^e \<le> a < 2^(e+1)\<close>, for positive \<open>a\<close>.\<close>

definition floor_log2 :: "rat \<Rightarrow> int" where
  "floor_log2 a =
     (let (n, d) = quotient_of a;
          k = int (bit_length (nat n)) - int (bit_length (nat d))
      in if pow2 k \<le> a then k else k - 1)"

text \<open>The nearest binary64 value, ties to even; a value too large is an infinity.\<close>

definition double_of :: "rat \<Rightarrow> json" where
  "double_of x =
     (if x = 0 then JFloat 0
      else (let a = \<bar>x\<bar>;
                e = max (floor_log2 a - 52) (- 1074);
                v = of_int (round_half_even (a / pow2 e)) * pow2 e
            in if 2 ^ 1024 \<le> v then (if x < 0 then JNegInf else JPosInf)
               else JFloat (if x < 0 then - v else v)))"

definition int_part :: "string \<Rightarrow> (string \<times> string) option" where
  "int_part s =
     (case s of
        [] \<Rightarrow> None
      | c # r \<Rightarrow>
          if \<not> is_digit c then None
          else if c = CHR ''0'' then Some ([c], r)
          else Some (takeWhile is_digit s, dropWhile is_digit s))"

definition frac_part :: "string \<Rightarrow> (string \<times> string) option" where
  "frac_part s =
     (case s of
        c # r \<Rightarrow>
          if c = CHR ''.'' \<and> takeWhile is_digit r \<noteq> []
          then Some (takeWhile is_digit r, dropWhile is_digit r) else None
      | [] \<Rightarrow> None)"

definition exp_part :: "string \<Rightarrow> (int \<times> string) option" where
  "exp_part s =
     (case s of
        c # r \<Rightarrow>
          if c = CHR ''e'' \<or> c = CHR ''E'' then
            (let (neg, r1) = (case r of
                 d # r' \<Rightarrow> if d = CHR ''-'' then (True, r') else if d = CHR ''+'' then (False, r') else (False, r)
               | [] \<Rightarrow> (False, r));
                 ds = takeWhile is_digit r1
             in if ds = [] then None
                else Some (if neg then - int (digits_val ds) else int (digits_val ds), dropWhile is_digit r1))
          else None
      | [] \<Rightarrow> None)"

definition pow10 :: "int \<Rightarrow> rat" where
  "pow10 e = (if 0 \<le> e then 10 ^ nat e else 1 / 10 ^ nat (- e))"

text \<open>
  A number: an optional sign, an integer part without leading zeros, a fraction, an exponent. With
  neither of the last two it is an \<open>int\<close> (of at most 4300 digits), else a \<open>float\<close>.
\<close>

definition scan_unsigned :: "bool \<Rightarrow> string \<Rightarrow> (json \<times> string) option" where
  "scan_unsigned neg s =
     (case int_part s of
        None \<Rightarrow> None
      | Some (ds, s1) \<Rightarrow>
          (let (fs, s2) = (case frac_part s1 of None \<Rightarrow> ([], s1) | Some p \<Rightarrow> p);
               (ex, s3) = (case exp_part s2 of None \<Rightarrow> (None, s2) | Some (x, r) \<Rightarrow> (Some x, r))
           in if fs = [] \<and> ex = None then
                (if 4300 < length ds then None
                 else Some (JInt (if neg then - int (digits_val ds) else int (digits_val ds)), s3))
              else
                (let v = of_nat (digits_val (ds @ fs)) * pow10 ((case ex of None \<Rightarrow> 0 | Some x \<Rightarrow> x) - int (length fs))
                 in Some (double_of (if neg then - v else v), s3))))"

definition scan_number :: "string \<Rightarrow> (json \<times> string) option" where
  "scan_number s =
     (case s of
        [] \<Rightarrow> None
      | c # r \<Rightarrow> if c = CHR ''-'' then scan_unsigned True r else scan_unsigned False s)"

lemma length_dropWhile_is_digit: "is_digit c \<Longrightarrow> length (dropWhile is_digit (c # r)) < length (c # r)"
  by (simp add: length_dropWhile_le le_imp_less_Suc)

lemma int_part_shorter: "int_part s = Some (ds, r) \<Longrightarrow> length r < length s"
  using length_dropWhile_is_digit by (auto simp: int_part_def split: list.splits if_splits)

lemma frac_part_shorter: "frac_part s = Some (ds, r) \<Longrightarrow> length r < length s"
  by (auto simp: frac_part_def le_imp_less_Suc length_dropWhile_le split: list.splits if_splits)

lemma exp_part_shorter: "exp_part s = Some (x, r) \<Longrightarrow> length r < length s"
  using length_dropWhile_le [of is_digit]
  by (fastforce simp: exp_part_def Let_def le_imp_less_Suc le_SucI split: list.splits if_splits prod.splits)

lemma scan_unsigned_shorter:
  assumes "scan_unsigned neg s = Some (v, r)"
  shows "length r < length s"
proof -
  obtain ds s1 where i: "int_part s = Some (ds, s1)"
    using assms by (auto simp: scan_unsigned_def split: option.splits)
  obtain fs s2 where f: "(case frac_part s1 of None \<Rightarrow> ([], s1) | Some p \<Rightarrow> p) = (fs, s2)" by fastforce
  obtain ex s3 where e: "(case exp_part s2 of None \<Rightarrow> (None, s2) | Some (x, r) \<Rightarrow> (Some x, r)) = (ex, s3)" by fastforce
  have "r = s3" using assms by (auto simp: scan_unsigned_def i f e Let_def split: if_splits)
  moreover have "length s3 \<le> length s2" using e exp_part_shorter [of s2] by (fastforce split: option.splits)
  moreover have "length s2 \<le> length s1" using f frac_part_shorter [of s1] by (fastforce split: option.splits)
  moreover have "length s1 < length s" using i int_part_shorter by blast
  ultimately show ?thesis by simp
qed

lemma scan_number_shorter: "scan_number s = Some (v, r) \<Longrightarrow> length r < length s"
  by (auto simp: scan_number_def dest!: scan_unsigned_shorter split: list.splits if_splits)

subsection \<open>Values\<close>

definition literal :: "string \<Rightarrow> (json \<times> string) option" where
  "literal s =
     (if startswith s ''null'' then Some (JNull, drop 4 s)
      else if startswith s ''true'' then Some (JBool True, drop 4 s)
      else if startswith s ''false'' then Some (JBool False, drop 5 s)
      else if startswith s ''NaN'' then Some (JNaN, drop 3 s)
      else if startswith s ''Infinity'' then Some (JPosInf, drop 8 s)
      else if startswith s ''-Infinity'' then Some (JNegInf, drop 9 s)
      else scan_number s)"

text \<open>A dict display: a repeated key keeps its place and takes the later value.\<close>

definition dict_of_pairs :: "(string \<times> json) list \<Rightarrow> dict" where
  "dict_of_pairs kvs = foldl (\<lambda>d kv. AList.update (fst kv) (snd kv) d) [] kvs"

text \<open>
  The three mutually recursive scanners: a value, the elements of an array after its bracket (or
  after a comma), the members of an object likewise. The first argument is fuel.
\<close>

fun parse_value :: "nat \<Rightarrow> string \<Rightarrow> (json \<times> string) option"
  and parse_elements :: "nat \<Rightarrow> string \<Rightarrow> (json list \<times> string) option"
  and parse_members :: "nat \<Rightarrow> string \<Rightarrow> ((string \<times> json) list \<times> string) option" where
  "parse_value 0 s = None"
| "parse_value (Suc n) s =
     (case s of
        [] \<Rightarrow> None
      | c # r \<Rightarrow>
          if c = CHR 0x22 then map_option (map_prod JStr id) (scan_string r)
          else if c = CHR ''['' then
            (if startswith (skip_ws r) '']'' then Some (JList [], tl (skip_ws r))
             else map_option (map_prod JList id) (parse_elements n (skip_ws r)))
          else if c = CHR ''{'' then
            (if startswith (skip_ws r) ''}'' then Some (JObj [], tl (skip_ws r))
             else map_option (map_prod (\<lambda>kvs. JObj (dict_of_pairs kvs)) id) (parse_members n (skip_ws r)))
          else literal s)"
| "parse_elements 0 s = None"
| "parse_elements (Suc n) s =
     (case parse_value n s of
        None \<Rightarrow> None
      | Some (v, r) \<Rightarrow>
          (case skip_ws r of
             [] \<Rightarrow> None
           | c # r1 \<Rightarrow>
               if c = CHR '']'' then Some ([v], r1)
               else if c = CHR '','' then map_option (map_prod (Cons v) id) (parse_elements n (skip_ws r1))
               else None))"
| "parse_members 0 s = None"
| "parse_members (Suc n) s =
     (case s of
        [] \<Rightarrow> None
      | q # s1 \<Rightarrow>
          if q \<noteq> CHR 0x22 then None
          else (case scan_string s1 of
              None \<Rightarrow> None
            | Some (k, s2) \<Rightarrow>
                if \<not> startswith (skip_ws s2) '':'' then None
                else (case parse_value n (skip_ws (tl (skip_ws s2))) of
                    None \<Rightarrow> None
                  | Some (v, r) \<Rightarrow>
                      (case skip_ws r of
                         [] \<Rightarrow> None
                       | c # r1 \<Rightarrow>
                           if c = CHR ''}'' then Some ([(k, v)], r1)
                           else if c = CHR '','' then
                             map_option (map_prod (Cons (k, v)) id) (parse_members n (skip_ws r1))
                           else None))))"

definition json_loads :: "string \<Rightarrow> json option" where
  "json_loads s =
     (case parse_value (2 * length s + 1) (skip_ws s) of
        None \<Rightarrow> None
      | Some (v, r) \<Rightarrow> if skip_ws r = [] then Some v else None)"

subsection \<open>The header\<close>

definition encode_header :: "(rat \<Rightarrow> string) \<Rightarrow> json \<Rightarrow> string" where
  "encode_header fr v = b64encode (encode_utf8 (dumps_default fr v))"

definition decode_header :: "string \<Rightarrow> json option" where
  "decode_header raw =
     (case b64decode raw of
        None \<Rightarrow> None
      | Some bs \<Rightarrow> (case decode_utf8 bs of None \<Rightarrow> None | Some s \<Rightarrow> json_loads s))"

subsection \<open>The fuel is enough\<close>

lemma length_skip_ws: "length (skip_ws s) \<le> length s"
  by (simp add: skip_ws_def length_dropWhile_le)

lemma literal_shorter: "literal s = Some (v, r) \<Longrightarrow> length r < length s"
  by (auto simp: literal_def startswith_iff dest: scan_number_shorter split: if_splits)

lemma parse_shorter:
  "parse_value n s = Some (v, r) \<Longrightarrow> length r < length s"
  "parse_elements n s = Some (vs, r) \<Longrightarrow> length r < length s"
  "parse_members n s = Some (kvs, r) \<Longrightarrow> length r < length s"
proof (induction n s and n s and n s arbitrary: v r and vs r and kvs r
    rule: parse_value_parse_elements_parse_members.induct)
  case (2 n s)
  show ?case
  proof (cases s)
    case (Cons c t)
    have "length (skip_ws t) \<le> length t" by (rule length_skip_ws)
    with 2 Cons show ?thesis
      by (auto simp: length_tl dest!: scan_string_shorter literal_shorter split: if_splits) fastforce+
  qed (use 2 in simp)
next
  case (4 n s)
  obtain v' r' where v: "parse_value n s = Some (v', r')" using 4 by (auto split: option.splits)
  obtain c r1 where c: "skip_ws r' = c # r1" using 4 v by (auto split: list.splits)
  have "length (c # r1) \<le> length r'" using length_skip_ws [of r'] c by simp
  moreover have "length r' < length s" using 4 v by blast
  moreover have "length (skip_ws r1) \<le> length r1" by (rule length_skip_ws)
  ultimately show ?case using 4 v c by (fastforce split: if_splits)
next
  case (6 n s)
  obtain s1 k s2 where s: "s = CHR 0x22 # s1" and k: "scan_string s1 = Some (k, s2)"
    and q: "startswith (skip_ws s2) '':''"
    using 6(3) by (auto split: list.splits option.splits if_splits)
  obtain v' r' where v: "parse_value n (skip_ws (tl (skip_ws s2))) = Some (v', r')"
    using 6(3) s k q by (auto split: option.splits)
  obtain c r1 where c: "skip_ws r' = c # r1" using 6(3) v s k q by (auto split: list.splits)
  have "length (c # r1) \<le> length r'" using length_skip_ws [of r'] c by simp
  moreover have "length r' < length (skip_ws (tl (skip_ws s2)))" using 6 s k q v by auto
  moreover have "length (skip_ws (tl (skip_ws s2))) \<le> length s2"
    using length_skip_ws [of s2] length_skip_ws [of "tl (skip_ws s2)"] by simp
  moreover have "length s2 < length s1" using k by (rule scan_string_shorter)
  moreover have "length (skip_ws r1) \<le> length r1" by (rule length_skip_ws)
  ultimately show ?case using 6 s k q v c by (fastforce split: if_splits)
qed simp_all

lemma parse_fuel:
  "2 * length s + 1 \<le> n \<Longrightarrow> 2 * length s + 1 \<le> m \<Longrightarrow> parse_value n s = parse_value m s"
  "2 * length s + 2 \<le> n \<Longrightarrow> 2 * length s + 2 \<le> m \<Longrightarrow> parse_elements n s = parse_elements m s"
  "2 * length s + 2 \<le> n \<Longrightarrow> 2 * length s + 2 \<le> m \<Longrightarrow> parse_members n s = parse_members m s"
proof (induction n s and n s and n s arbitrary: m and m and m
    rule: parse_value_parse_elements_parse_members.induct)
  case (2 n s)
  obtain m' where m: "m = Suc m'" using 2(4) by (cases m) auto
  show ?case
  proof (cases s)
    case (Cons c t)
    have "length (skip_ws t) \<le> length t" by (rule length_skip_ws)
    then have f: "2 * length (skip_ws t) + 2 \<le> n" "2 * length (skip_ws t) + 2 \<le> m'"
      using 2(3,4) Cons m by simp_all
    have "parse_elements n (skip_ws t) = parse_elements m' (skip_ws t)"
      if "c = CHR ''[''" "\<not> startswith (skip_ws t) '']''"
      by (rule 2(1) [OF Cons _ that f]) (simp add: that)
    moreover have "parse_members n (skip_ws t) = parse_members m' (skip_ws t)"
      if "c = CHR ''{''" "\<not> startswith (skip_ws t) ''}''"
      by (rule 2(2) [OF Cons _ _ that f]) (simp_all add: that)
    ultimately show ?thesis by (simp add: Cons m)
  qed (simp add: m)
next
  case (4 n s)
  obtain m' where m: "m = Suc m'" using 4(4) by (cases m) auto
  have v: "parse_value n s = parse_value m' s"
    by (rule 4(1)) (use 4(3,4) m in simp_all)
  show ?case
  proof (cases "parse_value n s")
    case (Some p)
    obtain w r where p: "p = (w, r)" by fastforce
    show ?thesis
    proof (cases "skip_ws r")
      case (Cons c r1)
      have "length r < length s" using parse_shorter(1) Some p by blast
      then have l: "length (skip_ws r1) + 2 \<le> length s"
        using length_skip_ws [of r] length_skip_ws [of r1] Cons by simp
      have "parse_elements n (skip_ws r1) = parse_elements m' (skip_ws r1)" if "c = CHR '',''"
        by (rule 4(2) [OF Some p [symmetric] Cons _ that]) (use that l 4(3,4) m in simp_all)
      then show ?thesis using Some p Cons v by (simp add: m)
    qed (use Some p v m in simp)
  qed (use v m in simp)
next
  case (6 n s)
  obtain m' where m: "m = Suc m'" using 6(4) by (cases m) auto
  show ?case
  proof (cases "\<exists>s1 k s2. s = CHR 0x22 # s1 \<and> scan_string s1 = Some (k, s2) \<and> startswith (skip_ws s2) '':''")
    case True
    then obtain s1 k s2 where s: "s = CHR 0x22 # s1" "scan_string s1 = Some (k, s2)"
      "startswith (skip_ws s2) '':''" by blast
    let ?u = "skip_ws (tl (skip_ws s2))"
    have u: "length ?u + 2 \<le> length s"
      using scan_string_shorter [OF s(2)] length_skip_ws [of s2] length_skip_ws [of "tl (skip_ws s2)"] s(1)
      by simp
    have v: "parse_value n ?u = parse_value m' ?u"
      by (rule 6(1) [OF s(1) _ s(2) refl]) (use s(3) u 6(3,4) m in simp_all)
    show ?thesis
    proof (cases "parse_value n ?u")
      case (Some p)
      obtain w r where p: "p = (w, r)" by fastforce
      show ?thesis
      proof (cases "skip_ws r")
        case (Cons c r1)
        have "length r < length ?u" using parse_shorter(1) Some p by blast
        then have l: "length (skip_ws r1) + 2 \<le> length s"
          using length_skip_ws [of r] length_skip_ws [of r1] Cons u by simp
        have "parse_members n (skip_ws r1) = parse_members m' (skip_ws r1)" if "c = CHR '',''"
          by (rule 6(2) [OF s(1) _ s(2) refl _ Some p [symmetric] Cons])
            (use s(3) that l 6(3,4) m in simp_all)
        then show ?thesis using Some p Cons v s by (simp add: m)
      qed (use Some p v m s in simp)
    qed (use v m s in simp)
  next
    case False
    then show ?thesis by (auto simp: m split: list.splits option.splits)
  qed
qed simp_all

subsection \<open>Decoding undoes encoding\<close>

definition num_end :: "string \<Rightarrow> bool" where
  "num_end r = (case r of [] \<Rightarrow> True | c # _ \<Rightarrow> \<not> is_digit c \<and> c \<notin> {CHR ''.'', CHR ''e'', CHR ''E''})"

fun wire_ok :: "json \<Rightarrow> bool" where
  "wire_ok (JFloat x) = False"
| "wire_ok (JInt n) = (length (nat_str (nat \<bar>n\<bar>)) \<le> 4300)"
| "wire_ok (JStr s) = ascii s"
| "wire_ok (JList vs) = list_all wire_ok vs"
| "wire_ok (JObj kvs) = (distinct (map fst kvs) \<and> list_all (\<lambda>kv. ascii (fst kv) \<and> wire_ok (snd kv)) kvs)"
| "wire_ok _ = True"

lemma hex4_u4: "n < 65536 \<Longrightarrow> hex4 (drop 2 (u4 n) @ r) = Some (n, r)"
proof -
  assume n: "n < 65536"
  have "((n div 4096 mod 16 * 16 + n div 256 mod 16) * 16 + n div 16 mod 16) * 16 + n mod 16 = n"
  proof -
    have 1: "n div 256 = n div 16 div 16" "n div 4096 = n div 16 div 16 div 16"
      by (simp_all add: div_mult2_eq [symmetric])
    have 2: "n div 16 div 16 div 16 mod 16 = n div 16 div 16 div 16" using n by simp
    show ?thesis by (simp only: 1 2 div_mult_mod_eq)
  qed
  moreover have "n div 4096 mod 16 = n div 4096" "n div 4096 < 16" using n by simp_all
  ultimately show ?thesis by (simp add: hex4_def u4_def hex_val_digit)
qed

lemma scan_string_backslash:
  "scan_string (CHR 0x5C # r) =
     (case scan_escape r of
        None \<Rightarrow> None
      | Some (x, r') \<Rightarrow> map_option (map_prod (append x) id) (scan_string r'))"
  by (subst scan_string.simps) simp

lemma scan_u4:
  assumes "n < 128"
  shows "scan_string (u4 n @ r) = map_option (map_prod (Cons (char_of n)) id) (scan_string r)"
proof -
  define h where "h = drop 2 (u4 n)"
  have u: "u4 n = CHR 0x5C # CHR ''u'' # h" by (simp add: u4_def h_def)
  have "hex4 (h @ r) = Some (n, r)" using hex4_u4 [of n r] assms by (simp add: h_def)
  then have "scan_escape (CHR ''u'' # h @ r) = Some ([char_of n], r)"
    using assms by (simp add: scan_escape_def utf8_encode_def)
  then show ?thesis by (subst scan_string.simps) (simp add: u map_prod_def append_Cons)
qed

lemma scan_esc_point:
  assumes "(of_char c :: nat) < 128"
  shows "scan_string (esc_point (of_char c) @ r) = map_option (map_prod (Cons c) id) (scan_string r)"
proof -
  have u: "scan_string (u4 (of_char c) @ r) = map_option (map_prod (Cons c) id) (scan_string r)"
    using scan_u4 [OF assms] by simp
  have c: "c = CHR 0x22" if "(of_char c :: nat) = 34" using that by (simp add: char_eq_iff)
  have e: "(of_char c :: nat) = k \<Longrightarrow> c = char_of k" for k by (metis char_of_char)
  consider (a) "(of_char c :: nat) \<in> {34, 92, 10, 13, 9, 12, 8}"
    | (b) "32 \<le> (of_char c :: nat)" "(of_char c :: nat) < 127" "(of_char c :: nat) \<notin> {34, 92}"
    | (u) "esc_point (of_char c) = u4 (of_char c)"
  proof (cases "(of_char c :: nat) \<in> {34, 92, 10, 13, 9, 12, 8}")
    case True
    then show thesis by (rule a)
  next
    case f: False
    show thesis
    proof (cases "32 \<le> (of_char c :: nat) \<and> (of_char c :: nat) < 127")
      case True
      then show thesis using f by (intro b) auto
    next
      case False
      then show thesis using f assms by (intro u) (auto simp: esc_point_def)
    qed
  qed
  then show ?thesis
  proof cases
    case a
    then have "c \<in> {CHR 0x22, CHR 0x5C, CHR 0x0A, CHR 0x0D, CHR 0x09, CHR 0x0C, CHR 0x08}"
      by (auto simp: char_eq_iff)
    then show ?thesis
      by (elim insertE) (simp_all add: esc_point_def scan_string_backslash scan_escape_def map_prod_def)
  next
    case b
    then have "c \<noteq> CHR 0x22" "c \<noteq> CHR 0x5C" by auto
    with b show ?thesis by (subst scan_string.simps) (simp add: esc_point_def)
  next
    case u
    then show ?thesis using \<open>scan_string (u4 (of_char c) @ r) = _\<close> by simp
  qed
qed

lemma scan_ascii_str: "ascii s \<Longrightarrow> scan_string (tl (ascii_str s) @ r) = Some (s, r)"
proof (induction s)
  case Nil
  then show ?case by (simp add: ascii_str_def scan_string.simps)
next
  case (Cons c s)
  then have "scan_string (tl (ascii_str s) @ r) = Some (s, r)" by simp
  then show ?case using Cons.prems scan_esc_point [of c "concat (map esc_point (map of_char s)) @ CHR 0x22 # r"]
    by (simp add: ascii_str_def utf8_points_ascii)
qed

lemma num_end_simps [simp]:
  "num_end []" "num_end (CHR '','' # r)" "num_end (CHR '']'' # r)" "num_end (CHR ''}'' # r)"
  by (simp_all add: num_end_def is_digit_def)

lemma takeWhile_digits:
  assumes "\<forall>c \<in> set ds. is_digit c" and "num_end r"
  shows "takeWhile is_digit (ds @ r) = ds \<and> dropWhile is_digit (ds @ r) = r"
  using assms by (cases r) (auto simp: num_end_def)

lemma scan_unsigned_nat_str:
  assumes "length (nat_str n) \<le> 4300" and "num_end r"
  shows "scan_unsigned neg (nat_str n @ r) = Some (JInt (if neg then - int n else int n), r)"
proof -
  obtain c cs where c: "nat_str n = c # cs" using nat_str_nonempty by (meson neq_Nil_conv)
  have d: "\<forall>c \<in> set (nat_str n). is_digit c" by (rule nat_str_digits)
  have zero: "cs = []" if "c = CHR ''0''"
    using nat_str_head that c by blast
  have "int_part (nat_str n @ r) = Some (nat_str n, r)"
    using takeWhile_digits [OF d assms(2)] d c zero by (auto simp: int_part_def)
  moreover have "frac_part r = None" "exp_part r = None"
    using assms(2) by (auto simp: frac_part_def exp_part_def num_end_def split: list.splits)
  ultimately show ?thesis using assms(1) by (simp add: scan_unsigned_def digits_val_nat_str)
qed

lemma scan_number_int_str:
  assumes "length (nat_str (nat \<bar>n\<bar>)) \<le> 4300" and "num_end r"
  shows "scan_number (int_str n @ r) = Some (JInt n, r)"
proof (cases "n < 0")
  case True
  then show ?thesis using scan_unsigned_nat_str [of "nat (- n)" r True] assms
    by (simp add: scan_number_def int_str_def)
next
  case False
  obtain c cs where c: "nat_str (nat n) = c # cs" using nat_str_nonempty by (meson neq_Nil_conv)
  then have "is_digit c" using nat_str_digits [of "nat n"] by simp
  then have "c \<noteq> CHR ''-''" by (auto simp: is_digit_def)
  then show ?thesis using False c scan_unsigned_nat_str [of "nat n" r False] assms
    by (simp add: scan_number_def int_str_def)
qed

definition int_start :: "string \<Rightarrow> bool" where
  "int_start s \<longleftrightarrow> (\<exists>c r. s = c # r \<and> (is_digit c \<or> c = CHR ''-'' \<and> (\<exists>d r'. r = d # r' \<and> is_digit d)))"

lemma int_start_int_str: "int_start (int_str n @ r)"
proof -
  obtain c cs where c: "nat_str (nat \<bar>n\<bar>) = c # cs" using nat_str_nonempty by (meson neq_Nil_conv)
  then have "is_digit c" using nat_str_digits [of "nat \<bar>n\<bar>"] by simp
  then show ?thesis using c by (cases "n < 0") (auto simp: int_start_def int_str_def)
qed

lemma literal_int: "int_start s \<Longrightarrow> literal s = scan_number s"
  by (auto simp: int_start_def literal_def startswith_def is_digit_def)

lemma dumps_head:
  assumes "wire_ok v"
  shows "\<exists>c r. dumps_default fr v = c # r \<and> \<not> json_space c \<and> c \<noteq> CHR '']'' \<and> c \<noteq> CHR ''}''"
proof (cases v)
  case (JInt n)
  then show ?thesis using int_start_int_str [of n "[]"] by (auto simp: int_start_def json_space_def is_digit_def)
qed (use assms in \<open>auto simp: ascii_str_def json_space_def\<close>)

lemma skip_ws_dumps: "wire_ok v \<Longrightarrow> skip_ws (dumps_default fr v @ r) = dumps_default fr v @ r"
  using dumps_head [of v fr] by (auto simp: skip_ws_def)

lemma skip_ws_simps [simp]:
  "skip_ws [] = []" "skip_ws (CHR '' '' # r) = skip_ws r" "skip_ws (CHR '','' # r) = CHR '','' # r"
  "skip_ws (CHR '']'' # r) = CHR '']'' # r" "skip_ws (CHR ''}'' # r) = CHR ''}'' # r"
  "skip_ws (CHR '':'' # r) = CHR '':'' # r" "skip_ws (CHR 0x22 # r) = CHR 0x22 # r"
  by (simp_all add: skip_ws_def json_space_def)

text \<open>What the scanner does on the text of one value, whatever follows it.\<close>

definition reads_back :: "(rat \<Rightarrow> string) \<Rightarrow> json \<Rightarrow> bool" where
  "reads_back fr v \<longleftrightarrow> (\<forall>r n. num_end r \<longrightarrow> 2 * length (dumps_default fr v @ r) + 1 \<le> n \<longrightarrow>
     parse_value n (dumps_default fr v @ r) = Some (v, r))"

lemma comma_space_Cons: "xs \<noteq> [] \<Longrightarrow> comma_space (x # xs) = x @ '', '' @ comma_space xs"
  by (cases xs) simp_all

lemma elements_read_back:
  assumes "vs \<noteq> []" and "\<forall>v \<in> set vs. wire_ok v \<and> reads_back fr v"
    and "2 * length (comma_space (map (dumps_default fr) vs) @ CHR '']'' # r) + 2 \<le> n"
  shows "parse_elements n (comma_space (map (dumps_default fr) vs) @ CHR '']'' # r) = Some (vs, r)"
  using assms
proof (induction vs arbitrary: n)
  case (Cons v vs)
  obtain n' where n: "n = Suc n'" using Cons.prems(3) by (cases n) auto
  have rb: "reads_back fr v" using Cons.prems(2) by simp
  show ?case
  proof (cases "vs = []")
    case True
    with Cons.prems rb show ?thesis by (simp add: n reads_back_def)
  next
    case False
    let ?u = "comma_space (map (dumps_default fr) vs) @ CHR '']'' # r"
    obtain v' vs' where v': "vs = v' # vs'" using False by (cases vs) auto
    have "skip_ws ?u = ?u"
      using Cons.prems(2) v' skip_ws_dumps [of v' fr] by (cases vs') (auto simp: comma_space_Cons)
    moreover have "parse_elements n' ?u = Some (vs, r)"
      using Cons.prems False n by (intro Cons.IH) (auto simp: comma_space_Cons)
    moreover have "parse_value n' (dumps_default fr v @ '', '' @ ?u) = Some (v, '', '' @ ?u)"
      using rb Cons.prems(3) False n unfolding reads_back_def by (simp add: comma_space_Cons)
    ultimately show ?thesis using False by (simp add: n comma_space_Cons)
  qed
qed simp

abbreviation member_text :: "(rat \<Rightarrow> string) \<Rightarrow> string \<times> json \<Rightarrow> string" where
  "member_text fr kv \<equiv> ascii_str (fst kv) @ '': '' @ dumps_default fr (snd kv)"

lemma member_reads_back:
  assumes "ascii k" and "wire_ok v" and "reads_back fr v" and "num_end r"
    and "2 * length (dumps_default fr v @ r) + 1 \<le> n"
  shows "parse_members (Suc n) (member_text fr (k, v) @ r) =
    (case skip_ws r of
       [] \<Rightarrow> None
     | c # r1 \<Rightarrow>
         if c = CHR ''}'' then Some ([(k, v)], r1)
         else if c = CHR '','' then map_option (map_prod (Cons (k, v)) id) (parse_members n (skip_ws r1))
         else None)"
proof -
  have k: "scan_string (concat (map esc_point (the (utf8_points k))) @ CHR 0x22 # t) = Some (k, t)" for t
    using scan_ascii_str [OF assms(1), of t] by (simp add: ascii_str_def)
  have v: "parse_value n (dumps_default fr v @ r) = Some (v, r)"
    using assms(3-5) unfolding reads_back_def by blast
  show ?thesis
    by (simp add: ascii_str_def k startswith_def skip_ws_dumps [OF assms(2)] v)
qed

lemma members_read_back:
  assumes "kvs \<noteq> []" and "\<forall>kv \<in> set kvs. ascii (fst kv) \<and> wire_ok (snd kv) \<and> reads_back fr (snd kv)"
    and "2 * length (comma_space (map (member_text fr) kvs) @ CHR ''}'' # r) + 2 \<le> n"
  shows "parse_members n (comma_space (map (member_text fr) kvs) @ CHR ''}'' # r) = Some (kvs, r)"
  using assms
proof (induction kvs arbitrary: n)
  case (Cons kv kvs)
  obtain n' where n: "n = Suc n'" using Cons.prems(3) by (cases n) auto
  obtain k v where kv: "kv = (k, v)" by fastforce
  have h: "ascii k" "wire_ok v" "reads_back fr v" using Cons.prems(2) by (auto simp: kv)
  show ?case
  proof (cases "kvs = []")
    case True
    with Cons.prems(3) show ?thesis
      using member_reads_back [OF h, of "CHR ''}'' # r" n'] by (simp add: n kv)
  next
    case False
    let ?u = "comma_space (map (member_text fr) kvs) @ CHR ''}'' # r"
    have "skip_ws ?u = ?u"
      using False by (cases kvs; cases "tl kvs") (auto simp: comma_space_Cons ascii_str_def)
    moreover have "parse_members n' ?u = Some (kvs, r)"
      using Cons.prems False n by (intro Cons.IH) (auto simp: comma_space_Cons)
    moreover have "parse_members (Suc n') (member_text fr (k, v) @ '', '' @ ?u) =
        map_option (map_prod (Cons (k, v)) id) (parse_members n' (skip_ws ?u))"
      using member_reads_back [OF h, of "'', '' @ ?u" n'] Cons.prems(3) False n
      by (simp add: comma_space_Cons kv)
    ultimately show ?thesis using False by (simp add: n comma_space_Cons kv)
  qed
qed simp

lemma dict_of_pairs_id: "distinct (map fst kvs) \<Longrightarrow> dict_of_pairs kvs = kvs"
proof (induction kvs rule: rev_induct)
  case (snoc kv kvs)
  then have "fst kv \<notin> fst ` set kvs" by auto
  then have "AList.update (fst kv) (snd kv) kvs = kvs @ [kv]" by (induction kvs) auto
  with snoc show ?case by (simp add: dict_of_pairs_def)
qed (simp add: dict_of_pairs_def)

lemma parse_literals:
  assumes "0 < n"
  shows "parse_value n (''null'' @ r) = Some (JNull, r)" "parse_value n (''true'' @ r) = Some (JBool True, r)"
    "parse_value n (''false'' @ r) = Some (JBool False, r)" "parse_value n (''NaN'' @ r) = Some (JNaN, r)"
    "parse_value n (''Infinity'' @ r) = Some (JPosInf, r)"
    "parse_value n (''-Infinity'' @ r) = Some (JNegInf, r)"
  using assms by (cases n; simp add: literal_def startswith_def)+

lemma wire_ok_reads_back: "wire_ok v \<Longrightarrow> reads_back fr v"
proof (induction v)
  case (JInt n)
  show ?case unfolding reads_back_def
  proof (intro allI impI)
    fix r :: string and m :: nat
    assume e: "num_end r" and m: "2 * length (dumps_default fr (JInt n) @ r) + 1 \<le> m"
    obtain m' where m': "m = Suc m'" using m by (cases m) auto
    have st: "int_start (int_str n @ r)" by (rule int_start_int_str)
    then obtain c t where c: "int_str n @ r = c # t" and d: "is_digit c \<or> c = CHR ''-''"
      unfolding int_start_def by blast
    have "c \<noteq> CHR 0x22" "c \<noteq> CHR ''[''" "c \<noteq> CHR ''{''" using d by (auto simp: is_digit_def)
    then have "parse_value m (int_str n @ r) = literal (int_str n @ r)" by (simp add: c m')
    then show "parse_value m (dumps_default fr (JInt n) @ r) = Some (JInt n, r)"
      using literal_int [OF st] scan_number_int_str [OF _ e] JInt by simp
  qed
next
  case (JStr s)
  show ?case unfolding reads_back_def
  proof (intro allI impI)
    fix r :: string and m :: nat
    assume "2 * length (dumps_default fr (JStr s) @ r) + 1 \<le> m"
    then obtain m' where m': "m = Suc m'" by (cases m) auto
    show "parse_value m (dumps_default fr (JStr s) @ r) = Some (JStr s, r)"
      using scan_ascii_str [of s r] JStr by (simp add: m' ascii_str_def)
  qed
next
  case (JList vs)
  then have ih: "\<forall>v \<in> set vs. wire_ok v \<and> reads_back fr v" by (auto simp: list_all_iff)
  show ?case unfolding reads_back_def
  proof (intro allI impI)
    fix r :: string and m :: nat
    assume m: "2 * length (dumps_default fr (JList vs) @ r) + 1 \<le> m"
    then obtain m' where m': "m = Suc m'" by (cases m) auto
    let ?u = "comma_space (map (dumps_default fr) vs) @ CHR '']'' # r"
    show "parse_value m (dumps_default fr (JList vs) @ r) = Some (JList vs, r)"
    proof (cases vs)
      case Nil
      then show ?thesis by (simp add: m' startswith_def)
    next
      case (Cons v vs')
      obtain c t where u: "?u = c # t" "\<not> json_space c" "c \<noteq> CHR '']''"
        using ih Cons dumps_head [of v fr] by (cases vs') (auto simp: comma_space_Cons)
      have "skip_ws ?u = ?u" "\<not> startswith ?u '']''" unfolding u(1) using u(2,3)
        by (auto simp: skip_ws_def startswith_def)
      moreover have "parse_elements m' ?u = Some (vs, r)"
        using m m' Cons by (intro elements_read_back ih) auto
      ultimately show ?thesis by (simp add: m')
    qed
  qed
next
  case (JObj kvs)
  then have ih: "\<forall>kv \<in> set kvs. ascii (fst kv) \<and> wire_ok (snd kv) \<and> reads_back fr (snd kv)"
    by (auto simp: list_all_iff)
  have d: "dict_of_pairs kvs = kvs" using JObj by (intro dict_of_pairs_id) simp
  show ?case unfolding reads_back_def
  proof (intro allI impI)
    fix r :: string and m :: nat
    assume m: "2 * length (dumps_default fr (JObj kvs) @ r) + 1 \<le> m"
    then obtain m' where m': "m = Suc m'" by (cases m) auto
    let ?u = "comma_space (map (member_text fr) kvs) @ CHR ''}'' # r"
    show "parse_value m (dumps_default fr (JObj kvs) @ r) = Some (JObj kvs, r)"
    proof (cases kvs)
      case Nil
      then show ?thesis by (simp add: m' startswith_def dict_of_pairs_def)
    next
      case (Cons kv kvs')
      obtain t where u: "?u = CHR 0x22 # t"
        using Cons by (cases kvs') (auto simp: comma_space_Cons ascii_str_def)
      have "skip_ws ?u = ?u" "\<not> startswith ?u ''}''" unfolding u by (auto simp: startswith_def)
      moreover have "parse_members m' ?u = Some (kvs, r)"
        using m m' Cons by (intro members_read_back ih) auto
      ultimately show ?thesis by (simp add: m' d)
    qed
  qed
qed (auto simp: reads_back_def parse_literals [simplified])

lemma loads_dumps: "wire_ok v \<Longrightarrow> json_loads (dumps_default fr v) = Some v"
proof -
  assume v: "wire_ok v"
  have "skip_ws (dumps_default fr v) = dumps_default fr v" using skip_ws_dumps [OF v, of fr "[]"] by simp
  moreover have "parse_value (2 * length (dumps_default fr v) + 1) (dumps_default fr v @ []) = Some (v, [])"
    using wire_ok_reads_back [OF v, of fr] unfolding reads_back_def by (metis append_Nil2 num_end_simps(1) order_refl)
  ultimately show ?thesis by (simp add: json_loads_def del: parse_value.simps)
qed

lemma dumps_ascii:
  assumes "wire_ok v"
  shows "ascii (dumps_default fr v)"
proof -
  have h: "(of_char (hex_digit d) :: nat) < 128" if "d < 16" for d
    using that by (simp add: hex_digit_def)
  have p: "ascii (esc_point n)" if "n < 128" for n
    using that by (simp add: esc_point_def u4_def h)
  have s: "ascii (ascii_str s)" if "ascii s" for s
    using that p by (auto simp: ascii_str_def utf8_points_ascii ascii_def list_all_iff)
  have n: "ascii (nat_str k)" for k
    using nat_str_digits [of k] by (auto simp: ascii_def list_all_iff is_digit_def)
  have c: "ascii (comma_space xs)" if "\<forall>x \<in> set xs. ascii x" for xs
    using that by (induction xs rule: comma_space.induct) simp_all
  show ?thesis using assms
  proof (induction v)
    case (JList vs)
    then show ?case by (auto simp: list_all_iff intro!: c)
  next
    case (JObj kvs)
    have "ascii (member_text fr kv)" if "kv \<in> set kvs" for kv
      using JObj that by (cases kv) (fastforce simp: list_all_iff s)
    then show ?case by (auto intro!: c)
  qed (auto simp: s n int_str_def)
qed

lemma header_roundtrip: "wire_ok v \<Longrightarrow> decode_header (encode_header fr v) = Some v"
  by (simp add: decode_header_def encode_header_def b64_roundtrip decode_encode_utf8 dumps_ascii loads_dumps)

lemma hex_digit_ascii [simp]: "d < 16 \<Longrightarrow> (of_char (hex_digit d) :: nat) < 128"
  by (simp add: hex_digit_def)

lemma ascii_to_hex [simp]: "ascii (to_hex bs)"
proof (induction bs)
  case (Cons b bs)
  have "unat b div 16 < 16" "unat b mod 16 < 16" using unat_byte_lt [of b] by simp_all
  with Cons show ?case by (simp add: to_hex_def)
qed (simp add: to_hex_def)

end
