(* ===== verification/Payment.thy ===== *)
theory Payment
  imports Nonce_Store Py_Codec
begin

text \<open>
  The payment side of \<open>agents/dark_pool.py\<close>: amounts, EIP-712 typed data, the checks around
  signature recovery, the \<open>accepts\<close> entries of a 402, the validation of a payment against the
  server's configuration, and the commit of its nonce.

  Recovering the signer of typed data (\<open>encode_typed_data\<close> and \<open>Account.recover_message\<close> of
  eth-account) is the parameter \<open>recover_message\<close>.
\<close>

subsection \<open>Constants and amounts\<close>

definition USDC_DECIMALS :: nat where
  "USDC_DECIMALS = 6"

definition X402_VERSION :: int where
  "X402_VERSION = 1"

definition DEFAULT_SCHEME :: string where
  "DEFAULT_SCHEME = ''exact''"

definition DEFAULT_NETWORK :: string where
  "DEFAULT_NETWORK = ''arc-testnet''"

definition SECP256K1_N :: nat where
  "SECP256K1_N = 0xFFFFFFFFFFFFFFFFFFFFFFFFFFFFFFFEBAAEDCE6AF48A03BBFD25E8CD0364141"

definition SECP256K1_HALF_N :: nat where
  "SECP256K1_HALF_N = SECP256K1_N div 2"

definition ZERO_ADDRESS :: string where
  "ZERO_ADDRESS = ''0x'' @ replicate 40 CHR ''0''"

definition VALUE_UPPER_FACTOR :: int where
  "VALUE_UPPER_FACTOR = 2"

definition GATEWAY_BATCHED_DOMAIN_NAME :: string where
  "GATEWAY_BATCHED_DOMAIN_NAME = ''GatewayWalletBatched''"

definition GATEWAY_BATCHED_DOMAIN_VERSION :: string where
  "GATEWAY_BATCHED_DOMAIN_VERSION = ''1''"

definition TESTNET_GATEWAY_WALLET :: string where
  "TESTNET_GATEWAY_WALLET = ''0x0077777d7EBA4688BDeF3E311b846F25870A19B9''"

definition usdc_to_base_units :: "rat \<Rightarrow> int" where
  "usdc_to_base_units amount = round_half_even (amount * 10 ^ USDC_DECIMALS)"

definition base_units_to_usdc :: "int \<Rightarrow> rat" where
  "base_units_to_usdc units = of_int units / 10 ^ USDC_DECIMALS"

lemma base_units_roundtrip: "usdc_to_base_units (base_units_to_usdc n) = n"
  by (simp add: usdc_to_base_units_def base_units_to_usdc_def)

subsection \<open>Typed data and signatures\<close>

text \<open>The parts of the typed-data dict that vary; its type table and primary type are constants. What a
  client takes from a server's challenge (recipient, domain name and version) is any JSON value.\<close>

record typed_data =
  td_name :: json
  td_version :: json
  td_chain_id :: int
  td_verifying_contract :: string
  td_from :: string
  td_to :: json
  td_value :: int
  td_valid_after :: int
  td_valid_before :: int
  td_nonce :: string

definition build_typed_data ::
  "string \<Rightarrow> json \<Rightarrow> int \<Rightarrow> int \<Rightarrow> int \<Rightarrow> string \<Rightarrow> int \<Rightarrow> string \<Rightarrow> json \<Rightarrow> json \<Rightarrow> typed_data" where
  "build_typed_data from_addr to_addr value valid_after valid_before nonce_hex chain_id
     verifying_contract name version =
     \<lparr>td_name = name, td_version = version, td_chain_id = chain_id,
      td_verifying_contract = verifying_contract, td_from = from_addr, td_to = to_addr,
      td_value = value, td_valid_after = valid_after, td_valid_before = valid_before,
      td_nonce = (if startswith nonce_hex ''0x'' then nonce_hex else ''0x'' @ nonce_hex)\<rparr>"

type_synonym recover = "typed_data \<Rightarrow> string \<Rightarrow> string res"

definition recover_signer :: "recover \<Rightarrow> typed_data \<Rightarrow> string \<Rightarrow> string res" where
  "recover_signer recover_message typed signature_hex =
     (let raw = (if startswith signature_hex ''0x'' \<or> startswith signature_hex ''0X''
                 then drop 2 signature_hex else signature_hex)
      in if length raw \<noteq> 130 then Inl (ValueError ''signature must be 65 bytes'')
         else (case fromhex raw of
             None \<Rightarrow> Inl (ValueError ''signature is not valid hex'')
           | Some sig_bytes \<Rightarrow>
               (let r = from_bytes_big (take 32 sig_bytes);
                    s = from_bytes_big (take 32 (drop 32 sig_bytes))
                in if r = 0 then Inl (ValueError ''signature r component is zero'')
                   else if s = 0 then Inl (ValueError ''signature s component is zero'')
                   else if SECP256K1_HALF_N < s then Inl (ValueError ''signature has high-s (EIP-2 malleability)'')
                   else res_bind (recover_message typed (''0x'' @ raw)) (\<lambda>recovered.
                     if lower recovered = ZERO_ADDRESS then Inl (ValueError ''ecrecover returned zero address'')
                     else Inr recovered))))"

subsection \<open>Configuration and payment requirements\<close>

record pool_config =
  pc_price_units :: int
  pc_payment_recipient :: string
  pc_chain_id :: int
  pc_usdc_address :: string
  pc_network :: string
  pc_usdc_name :: string
  pc_usdc_version :: string
  pc_max_timeout_seconds :: int
  pc_gateway_wallet_address :: "string option"
  pc_gateway_domain_name :: string
  pc_gateway_domain_version :: string

record payment_requirements =
  pr_scheme :: string
  pr_network :: string
  pr_max_amount_required :: string
  pr_resource :: string
  pr_description :: string
  pr_mime_type :: string
  pr_pay_to :: string
  pr_max_timeout_seconds :: int
  pr_asset :: string
  pr_extra :: dict

definition requirements_to_dict :: "payment_requirements \<Rightarrow> dict" where
  "requirements_to_dict r =
     [(''scheme'', JStr (pr_scheme r)), (''network'', JStr (pr_network r)),
      (''maxAmountRequired'', JStr (pr_max_amount_required r)), (''resource'', JStr (pr_resource r)),
      (''description'', JStr (pr_description r)), (''mimeType'', JStr (pr_mime_type r)),
      (''payTo'', JStr (pr_pay_to r)), (''maxTimeoutSeconds'', JInt (pr_max_timeout_seconds r)),
      (''asset'', JStr (pr_asset r)), (''extra'', JObj (pr_extra r))]"

definition direct_requirements :: "pool_config \<Rightarrow> string \<Rightarrow> payment_requirements" where
  "direct_requirements c resource =
     \<lparr>pr_scheme = DEFAULT_SCHEME, pr_network = pc_network c,
      pr_max_amount_required = int_str (pc_price_units c), pr_resource = resource,
      pr_description = ''RaBitQ dark pool query'', pr_mime_type = ''application/json'',
      pr_pay_to = pc_payment_recipient c, pr_max_timeout_seconds = pc_max_timeout_seconds c,
      pr_asset = pc_usdc_address c,
      pr_extra = [(''name'', JStr (pc_usdc_name c)), (''version'', JStr (pc_usdc_version c))]\<rparr>"

definition gateway_requirements :: "pool_config \<Rightarrow> string \<Rightarrow> payment_requirements option" where
  "gateway_requirements c resource =
     (case pc_gateway_wallet_address c of
        None \<Rightarrow> None
      | Some w \<Rightarrow> Some
          \<lparr>pr_scheme = DEFAULT_SCHEME, pr_network = pc_network c,
           pr_max_amount_required = int_str (pc_price_units c), pr_resource = resource,
           pr_description = ''RaBitQ dark pool query (Circle Gateway batched)'',
           pr_mime_type = ''application/json'', pr_pay_to = pc_payment_recipient c,
           pr_max_timeout_seconds = pc_max_timeout_seconds c, pr_asset = pc_usdc_address c,
           pr_extra = [(''name'', JStr (pc_gateway_domain_name c)), (''version'', JStr (pc_gateway_domain_version c)),
                       (''verifyingContract'', JStr w)]\<rparr>)"

definition all_accepts :: "pool_config \<Rightarrow> string \<Rightarrow> dict list" where
  "all_accepts c resource =
     requirements_to_dict (direct_requirements c resource) #
     (case gateway_requirements c resource of None \<Rightarrow> [] | Some g \<Rightarrow> [requirements_to_dict g])"

subsection \<open>Validation\<close>

text \<open>The 6-tuple \<open>_validate_payment\<close> returns.\<close>

record validation =
  vd_ok :: bool
  vd_error :: "string option"
  vd_signer :: "string option"
  vd_nonce :: "string option"
  vd_valid_before :: "int option"
  vd_verifying_contract :: "string option"

definition rejected :: "string \<Rightarrow> validation" where
  "rejected msg =
     \<lparr>vd_ok = False, vd_error = Some msg, vd_signer = None, vd_nonce = None,
      vd_valid_before = None, vd_verifying_contract = None\<rparr>"

record auth_fields =
  au_from :: json
  au_to :: json
  au_value :: int
  au_valid_after :: int
  au_valid_before :: int
  au_nonce :: json

definition read_authorization :: "dict \<Rightarrow> auth_fields res" where
  "read_authorization auth =
     res_bind (dict_item auth ''from'') (\<lambda>from_addr.
     res_bind (dict_item auth ''to'') (\<lambda>to_addr.
     res_bind (res_bind (dict_item auth ''value'') py_int) (\<lambda>value.
     res_bind (res_bind (dict_item auth ''validAfter'') py_int) (\<lambda>valid_after.
     res_bind (res_bind (dict_item auth ''validBefore'') py_int) (\<lambda>valid_before.
     res_bind (dict_item auth ''nonce'') (\<lambda>nonce_hex.
       Inr \<lparr>au_from = from_addr, au_to = to_addr, au_value = value, au_valid_after = valid_after,
            au_valid_before = valid_before, au_nonce = nonce_hex\<rparr>))))))"

text \<open>\<open>x.lower()\<close> and \<open>x.startswith(..)\<close> on a JSON value: only a string has these methods.\<close>

fun as_str :: "json \<Rightarrow> string res" where
  "as_str (JStr s) = Inr s"
| "as_str _ = Inl (AttributeError ''object has no attribute'')"

definition candidate_domains :: "pool_config \<Rightarrow> (string \<times> string \<times> string) list" where
  "candidate_domains c =
     (pc_usdc_address c, pc_usdc_name c, pc_usdc_version c) #
     (case pc_gateway_wallet_address c of None \<Rightarrow> []
      | Some w \<Rightarrow> [(w, pc_gateway_domain_name c, pc_gateway_domain_version c)])"

text \<open>
  The loop over the candidate domains: the address and verifying contract of the first domain in
  which the signature recovers the sender, else the last recovery error.
\<close>

fun try_domains ::
  "((string \<times> string \<times> string) \<Rightarrow> string res) \<Rightarrow> string \<Rightarrow> (string \<times> string \<times> string) list \<Rightarrow>
   string option \<Rightarrow> (string \<times> string) option \<times> string option" where
  "try_domains candidate_of from_addr [] last_err = (None, last_err)"
| "try_domains candidate_of from_addr ((vc, name, version) # ds) last_err =
     (case candidate_of (vc, name, version) of
        Inl e \<Rightarrow> try_domains candidate_of from_addr ds (Some ''signature recovery failed'')
      | Inr candidate \<Rightarrow>
          if lower candidate = lower from_addr then (Some (candidate, vc), last_err)
          else try_domains candidate_of from_addr ds last_err)"

definition typed_for :: "pool_config \<Rightarrow> string \<Rightarrow> string \<Rightarrow> auth_fields \<Rightarrow> string \<Rightarrow> string \<times> string \<times> string \<Rightarrow> typed_data" where
  "typed_for c from_addr to_addr a nonce_hex = (\<lambda>(vc, name, version).
     build_typed_data from_addr (JStr to_addr) (au_value a) (au_valid_after a) (au_valid_before a) nonce_hex
       (pc_chain_id c) vc (JStr name) (JStr version))"

definition validate_authorization ::
  "recover \<Rightarrow> pool_config \<Rightarrow> nonce_store \<Rightarrow> int \<Rightarrow> auth_fields \<Rightarrow> string \<Rightarrow> validation res" where
  "validate_authorization recover_message c store now a sig =
     (case au_from a of
        JStr from_addr \<Rightarrow>
          if lower from_addr = ZERO_ADDRESS then Inr (rejected ''from address is zero'')
          else if au_valid_before a \<le> now then Inr (rejected ''authorization expired'')
          else if now + 5 < au_valid_after a then Inr (rejected ''authorization not yet valid'')
          else res_bind (as_str (au_to a)) (\<lambda>to_addr.
            if lower to_addr \<noteq> lower (pc_payment_recipient c) then Inr (rejected ''wrong recipient'')
            else if au_value a < pc_price_units c then Inr (rejected ''insufficient amount'')
            else if pc_price_units c * VALUE_UPPER_FACTOR < au_value a then Inr (rejected ''excessive amount'')
            else res_bind (as_str (au_nonce a)) (\<lambda>nonce_hex.
              case try_domains (\<lambda>d. recover_signer recover_message (typed_for c from_addr to_addr a nonce_hex d) sig)
                     from_addr (candidate_domains c) None of
                (None, last_err) \<Rightarrow>
                  Inr (rejected (case last_err of Some e \<Rightarrow> e | None \<Rightarrow> ''signature does not match from-address''))
              | (Some (recovered, vc), _) \<Rightarrow>
                  res_bind (ns_has store (lower recovered) (lower nonce_hex) (Some (pc_chain_id c)) (Some vc)) (\<lambda>seen.
                    Inr \<lparr>vd_ok = \<not> seen, vd_error = (if seen then Some ''nonce replayed'' else None),
                         vd_signer = Some (lower recovered), vd_nonce = Some (lower nonce_hex),
                         vd_valid_before = Some (au_valid_before a), vd_verifying_contract = Some vc\<rparr>)))
      | _ \<Rightarrow> Inr (rejected ''from address is zero''))"

definition validate_payment ::
  "recover \<Rightarrow> pool_config \<Rightarrow> nonce_store \<Rightarrow> int \<Rightarrow> dict \<Rightarrow> validation res" where
  "validate_payment recover_message c store now payment =
     (if dict_get payment ''scheme'' \<noteq> JStr DEFAULT_SCHEME then Inr (rejected ''unsupported scheme'')
      else if dict_get payment ''network'' \<noteq> JStr (pc_network c) then Inr (rejected ''unsupported network'')
      else (case dict_get payment ''payload'' of
          JObj payload \<Rightarrow>
            (case (dict_get payload ''authorization'', dict_get payload ''signature'') of
               (JObj auth, JStr sig) \<Rightarrow>
                 (case read_authorization auth of
                    Inl (KeyError _) \<Rightarrow> Inr (rejected ''authorization fields invalid'')
                  | Inl (TypeError _) \<Rightarrow> Inr (rejected ''authorization fields invalid'')
                  | Inl (ValueError _) \<Rightarrow> Inr (rejected ''authorization fields invalid'')
                  | Inl e \<Rightarrow> Inl e
                  | Inr a \<Rightarrow> validate_authorization recover_message c store now a sig)
             | _ \<Rightarrow> Inr (rejected ''payload missing authorization or signature''))
        | _ \<Rightarrow> Inr (rejected ''missing payload'')))"

subsection \<open>Commit\<close>

definition commit_nonce ::
  "pool_config \<Rightarrow> nonce_store \<Rightarrow> string \<Rightarrow> string \<Rightarrow> int \<Rightarrow> string \<Rightarrow> (nonce_store \<times> string option) res" where
  "commit_nonce c store signer_lc nonce_lc valid_before vc =
     res_bind (ns_has store signer_lc nonce_lc (Some (pc_chain_id c)) (Some vc)) (\<lambda>seen.
       if seen then Inr (store, Some ''nonce replayed'')
       else res_bind (ns_add store signer_lc nonce_lc valid_before (Some (pc_chain_id c)) (Some vc)) (\<lambda>store'.
         Inr (store', None)))"

end
