(* ===== verification/Rate_Limiter.thy ===== *)
theory Rate_Limiter
  imports Py_Prelude
begin

text \<open>
  The token-bucket limiter of \<open>agents/rate_limiter.py\<close>. Token counts, refill rate and the
  monotonic clock are floats in the code and exact rationals here. The asynchronous and the
  synchronous entry points run the same critical section under a lock, so one definition
  models both; the clock reading they take before the lock is an argument.
\<close>

subsection \<open>State and operations\<close>

record bucket =
  bk_tokens :: rat
  bk_last_refill :: rat

record limiter =
  rl_capacity :: int
  rl_refill_per_second :: rat
  rl_buckets :: "(string \<times> bucket) list"

definition mk_limiter :: "int \<Rightarrow> rat \<Rightarrow> limiter res" where
  "mk_limiter capacity refill_per_second =
     (if capacity \<le> 0 then Inl (ValueError ''capacity must be > 0'')
      else if refill_per_second \<le> 0 then Inl (ValueError ''refill_per_second must be > 0'')
      else Inr \<lparr>rl_capacity = capacity, rl_refill_per_second = refill_per_second, rl_buckets = []\<rparr>)"

definition refilled :: "limiter \<Rightarrow> bucket \<Rightarrow> rat \<Rightarrow> rat" where
  "refilled l b now =
     (let elapsed = max 0 (now - bk_last_refill b)
      in min (of_int (rl_capacity l)) (bk_tokens b + elapsed * rl_refill_per_second l))"

definition consume_locked :: "limiter \<Rightarrow> string \<Rightarrow> int \<Rightarrow> rat \<Rightarrow> limiter \<times> bool" where
  "consume_locked l key tokens now =
     (let b = (case map_of (rl_buckets l) key of
                 None \<Rightarrow> \<lparr>bk_tokens = of_int (rl_capacity l), bk_last_refill = now\<rparr>
               | Some b \<Rightarrow> b\<lparr>bk_tokens := refilled l b now, bk_last_refill := now\<rparr>)
      in if of_int tokens \<le> bk_tokens b
         then (l\<lparr>rl_buckets := AList.update key (b\<lparr>bk_tokens := bk_tokens b - of_int tokens\<rparr>) (rl_buckets l)\<rparr>, True)
         else (l\<lparr>rl_buckets := AList.update key b (rl_buckets l)\<rparr>, False))"

text \<open>The answer of \<open>retry_after\<close>: a number of seconds, or \<open>float("inf")\<close>.\<close>

datatype delay = Seconds rat | Infinite

definition retry_after_locked :: "limiter \<Rightarrow> string \<Rightarrow> int \<Rightarrow> rat \<Rightarrow> delay" where
  "retry_after_locked l key tokens now =
     (case map_of (rl_buckets l) key of
        None \<Rightarrow> if tokens \<le> rl_capacity l then Seconds 0 else Infinite
      | Some b \<Rightarrow>
          (let projected = refilled l b now
           in if of_int tokens \<le> projected then Seconds 0
              else Seconds ((of_int tokens - projected) / rl_refill_per_second l)))"

definition try_consume :: "limiter \<Rightarrow> string \<Rightarrow> int \<Rightarrow> rat \<Rightarrow> (limiter \<times> bool) res" where
  "try_consume l key tokens now =
     (if tokens \<le> 0 then Inl (ValueError ''tokens must be > 0'')
      else Inr (consume_locked l key tokens now))"

definition retry_after :: "limiter \<Rightarrow> string \<Rightarrow> int \<Rightarrow> rat \<Rightarrow> delay res" where
  "retry_after l key tokens now =
     (if tokens \<le> 0 then Inl (ValueError ''tokens must be > 0'')
      else Inr (retry_after_locked l key tokens now))"

definition reset :: "limiter \<Rightarrow> string option \<Rightarrow> limiter" where
  "reset l key =
     (case key of None \<Rightarrow> l\<lparr>rl_buckets := []\<rparr>
      | Some k \<Rightarrow> l\<lparr>rl_buckets := AList.delete k (rl_buckets l)\<rparr>)"

definition tokens_of :: "limiter \<Rightarrow> string \<Rightarrow> rat \<Rightarrow> rat" where
  "tokens_of l key now =
     (case map_of (rl_buckets l) key of
        None \<Rightarrow> of_int (rl_capacity l)
      | Some b \<Rightarrow> refilled l b now)"

definition limiter_len :: "limiter \<Rightarrow> int" where
  "limiter_len l = int (length (rl_buckets l))"

subsection \<open>Invariant\<close>

text \<open>
  Capacity and rate are positive, every bucket holds between nothing and its capacity, and no
  bucket has been refilled later than the clock says.
\<close>

definition bucket_ok :: "limiter \<Rightarrow> rat \<Rightarrow> bucket \<Rightarrow> bool" where
  "bucket_ok l now b \<longleftrightarrow>
     0 \<le> bk_tokens b \<and> bk_tokens b \<le> of_int (rl_capacity l) \<and> bk_last_refill b \<le> now"

definition limiter_inv :: "limiter \<Rightarrow> rat \<Rightarrow> bool" where
  "limiter_inv l now \<longleftrightarrow>
     0 < rl_capacity l \<and> 0 < rl_refill_per_second l \<and> distinct (map fst (rl_buckets l)) \<and>
     (\<forall>k b. map_of (rl_buckets l) k = Some b \<longrightarrow> bucket_ok l now b)"

lemma limiter_inv_init: "mk_limiter c r = Inr l \<Longrightarrow> limiter_inv l now"
  by (auto simp: mk_limiter_def limiter_inv_def split: if_splits)

lemma limiter_invD:
  "limiter_inv l now \<Longrightarrow> 0 < rl_capacity l"
  "limiter_inv l now \<Longrightarrow> 0 < rl_refill_per_second l"
  "limiter_inv l now \<Longrightarrow> map_of (rl_buckets l) k = Some b \<Longrightarrow> bucket_ok l now b"
  by (auto simp: limiter_inv_def)

lemma limiter_inv_later: "limiter_inv l now \<Longrightarrow> now \<le> later \<Longrightarrow> limiter_inv l later"
  unfolding limiter_inv_def bucket_ok_def by force

lemma limiter_inv_update:
  assumes "limiter_inv l now" and "bucket_ok l now b"
  shows "limiter_inv (l\<lparr>rl_buckets := AList.update k b (rl_buckets l)\<rparr>) now"
  using assms by (auto simp: limiter_inv_def update_conv' distinct_update bucket_ok_def split: if_splits)

lemma limiter_inv_reset: "limiter_inv l now \<Longrightarrow> limiter_inv (reset l key) now"
proof (cases key)
  case None
  then show "limiter_inv l now \<Longrightarrow> limiter_inv (reset l key) now"
    by (simp add: limiter_inv_def reset_def bucket_ok_def)
next
  case (Some k)
  have "map_of (AList.delete k (rl_buckets l)) k' = Some b \<Longrightarrow> map_of (rl_buckets l) k' = Some b" for k' b
    by (simp add: delete_conv' split: if_splits)
  with Some show "limiter_inv l now \<Longrightarrow> limiter_inv (reset l key) now"
    by (simp add: limiter_inv_def reset_def bucket_ok_def distinct_delete del: map_of_eq_Some_iff) meson
qed

text \<open>What the bucket of a key holds once it is refilled; a key never seen starts full.\<close>

lemma refilled_bounds:
  assumes "limiter_inv l now" and "bucket_ok l now b" and "now \<le> later"
  shows "0 \<le> refilled l b later" and "refilled l b later \<le> of_int (rl_capacity l)"
    and "bk_tokens b \<le> refilled l b later"
proof -
  have "0 \<le> max 0 (later - bk_last_refill b) * rl_refill_per_second l"
    using limiter_invD(2) [OF assms(1)] by (intro mult_nonneg_nonneg) auto
  moreover have "0 \<le> bk_tokens b" "bk_tokens b \<le> of_int (rl_capacity l)"
    using assms(2) by (auto simp: bucket_ok_def)
  ultimately show "0 \<le> refilled l b later" "refilled l b later \<le> of_int (rl_capacity l)"
    "bk_tokens b \<le> refilled l b later"
    using limiter_invD(1) [OF assms(1)] by (auto simp: refilled_def Let_def)
qed

lemma tokens_of_bounds:
  assumes "limiter_inv l now" and "now \<le> later"
  shows "0 \<le> tokens_of l key later" and "tokens_of l key later \<le> of_int (rl_capacity l)"
  using refilled_bounds [OF assms(1) _ assms(2)] limiter_invD [OF assms(1)]
  by (auto simp: tokens_of_def split: option.splits)

subsection \<open>One consumption\<close>

text \<open>
  The whole effect of \<open>_consume_locked\<close> in terms of the refilled balance: the request is granted
  exactly when the balance covers it, and the bucket is left with the balance less what was
  granted, stamped with the clock.
\<close>

lemma consume_locked_eq:
  "consume_locked l key tokens now =
     (let bal = tokens_of l key now; ok = of_int tokens \<le> bal
      in (l\<lparr>rl_buckets := AList.update key
             \<lparr>bk_tokens = (if ok then bal - of_int tokens else bal), bk_last_refill = now\<rparr>
             (rl_buckets l)\<rparr>, ok))"
proof (cases "map_of (rl_buckets l) key")
  case (Some b)
  then show ?thesis by (cases b) (simp add: consume_locked_def tokens_of_def Let_def)
qed (simp add: consume_locked_def tokens_of_def Let_def)

lemma consume_locked_inv:
  assumes "limiter_inv l now" and "now \<le> later" and "0 < tokens"
  shows "limiter_inv (fst (consume_locked l key tokens later)) later"
proof -
  have inv: "limiter_inv l later" using assms limiter_inv_later by blast
  have "0 < (of_int tokens :: rat)" using assms(3) by simp
  then show ?thesis
    using tokens_of_bounds [OF assms(1,2), of key]
    by (auto simp: consume_locked_eq Let_def bucket_ok_def intro!: limiter_inv_update [OF inv])
qed

lemma consume_locked_frame:
  "rl_capacity (fst (consume_locked l key tokens now)) = rl_capacity l"
  "rl_refill_per_second (fst (consume_locked l key tokens now)) = rl_refill_per_second l"
  "key' \<noteq> key \<Longrightarrow> map_of (rl_buckets (fst (consume_locked l key tokens now))) key' = map_of (rl_buckets l) key'"
  by (simp_all add: consume_locked_eq Let_def update_conv')

lemma tokens_of_frame:
  assumes "rl_capacity l' = rl_capacity l" and "rl_refill_per_second l' = rl_refill_per_second l"
    and "map_of (rl_buckets l') key = map_of (rl_buckets l) key"
  shows "tokens_of l' key now = tokens_of l key now"
  by (simp add: tokens_of_def refilled_def assms split: option.splits)

lemma consume_other_key:
  "key' \<noteq> key \<Longrightarrow> tokens_of (fst (consume_locked l key tokens now)) key' t = tokens_of l key' t"
  by (rule tokens_of_frame) (simp_all add: consume_locked_frame)

text \<open>The balance right after a consumption, and how it grows until the next one.\<close>

lemma tokens_after_consume:
  assumes "limiter_inv l now" and "now \<le> t" and "t \<le> t'"
  shows "tokens_of (fst (consume_locked l key tokens t)) key t' =
     min (of_int (rl_capacity l))
       ((if snd (consume_locked l key tokens t) then tokens_of l key t - of_int tokens else tokens_of l key t)
        + (t' - t) * rl_refill_per_second l)"
  using assms(3)
  by (simp add: consume_locked_eq Let_def tokens_of_def [of "_\<lparr>rl_buckets := _\<rparr>"] refilled_def update_conv')

subsection \<open>Runs of requests\<close>

text \<open>
  A sequence of calls, each with its key, its token count and the clock reading it took. The
  clock is monotonic, so the readings of calls that follow each other do not decrease.
\<close>

type_synonym request = "string \<times> int \<times> rat"

fun consume_run :: "limiter \<Rightarrow> request list \<Rightarrow> limiter" where
  "consume_run l [] = l"
| "consume_run l ((key, tokens, now) # rs) = consume_run (fst (consume_locked l key tokens now)) rs"

text \<open>How many tokens the run hands out to one key.\<close>

fun granted :: "limiter \<Rightarrow> string \<Rightarrow> request list \<Rightarrow> int" where
  "granted l k [] = 0"
| "granted l k ((key, tokens, now) # rs) =
     (if key = k \<and> snd (consume_locked l key tokens now) then tokens else 0) +
     granted (fst (consume_locked l key tokens now)) k rs"

fun timed :: "rat \<Rightarrow> request list \<Rightarrow> rat \<Rightarrow> bool" where
  "timed t0 [] t1 = (t0 \<le> t1)"
| "timed t0 ((key, tokens, now) # rs) t1 = (0 < tokens \<and> t0 \<le> now \<and> timed now rs t1)"

lemma timed_le: "timed t0 rs t1 \<Longrightarrow> t0 \<le> t1"
  by (induction t0 rs t1 rule: timed.induct) auto

lemma tokens_of_grow:
  assumes "limiter_inv l t" and "t \<le> t'" and "t' \<le> t''"
  shows "tokens_of l key t'' \<le> tokens_of l key t' + (t'' - t') * rl_refill_per_second l"
proof (cases "map_of (rl_buckets l) key")
  case None
  have "0 \<le> (t'' - t') * rl_refill_per_second l"
    using limiter_invD(2) [OF assms(1)] assms(3) by (intro mult_nonneg_nonneg) auto
  with None show ?thesis by (simp add: tokens_of_def)
next
  case (Some b)
  then have "bk_last_refill b \<le> t" using limiter_invD(3) [OF assms(1)] by (auto simp: bucket_ok_def)
  then have m: "max 0 (t'' - bk_last_refill b) = t'' - bk_last_refill b"
    "max 0 (t' - bk_last_refill b) = t' - bk_last_refill b" using assms by auto
  have "0 \<le> (t'' - t') * rl_refill_per_second l"
    using limiter_invD(2) [OF assms(1)] assms(3) by (intro mult_nonneg_nonneg) auto
  then show ?thesis by (simp add: tokens_of_def Some refilled_def m algebra_simps min_def)
qed

lemma granted_balance:
  assumes "limiter_inv l t0" and "timed t0 rs t1"
  shows "of_int (granted l k rs) + tokens_of (consume_run l rs) k t1
     \<le> tokens_of l k t0 + (t1 - t0) * rl_refill_per_second l"
  using assms
proof (induction l k rs arbitrary: t0 rule: granted.induct)
  case (1 l k)
  then show ?case using tokens_of_grow [of l t0 t0 t1 k] by simp
next
  case (2 l k key tokens now rs)
  let ?l = "fst (consume_locked l key tokens now)"
  let ?r = "rl_refill_per_second l"
  have now: "t0 \<le> now" "0 < tokens" "timed now rs t1" using "2.prems" by auto
  have inv: "limiter_inv ?l now" using consume_locked_inv [OF "2.prems"(1) now(1,2)] .
  have IH: "of_int (granted ?l k rs) + tokens_of (consume_run ?l rs) k t1
     \<le> tokens_of ?l k now + (t1 - now) * ?r"
    using "2.IH" [OF inv now(3)] by (simp add: consume_locked_frame)
  have grow: "tokens_of l k now \<le> tokens_of l k t0 + (now - t0) * ?r"
    using tokens_of_grow [OF "2.prems"(1) order_refl now(1)] .
  have cap: "tokens_of l k now \<le> of_int (rl_capacity l)"
    using tokens_of_bounds(2) [OF "2.prems"(1) now(1)] .
  have "of_int (if key = k \<and> snd (consume_locked l key tokens now) then tokens else 0)
      + tokens_of ?l k now \<le> tokens_of l k now"
  proof (cases "key = k")
    case True
    then show ?thesis
      using tokens_after_consume [OF "2.prems"(1) now(1) order_refl, of k tokens] by auto
  next
    case False
    then show ?thesis by (simp add: consume_other_key)
  qed
  with IH grow show ?case by (simp add: algebra_simps)
qed

lemma consume_run_inv:
  "limiter_inv l t0 \<Longrightarrow> timed t0 rs t1 \<Longrightarrow> limiter_inv (consume_run l rs) t1"
proof (induction l rs arbitrary: t0 rule: consume_run.induct)
  case (1 l)
  then show ?case using limiter_inv_later by simp
next
  case (2 l key tokens now rs)
  then have "limiter_inv (fst (consume_locked l key tokens now)) now" "timed now rs t1"
    using consume_locked_inv [OF "2.prems"(1), of now tokens key] by auto
  from "2.IH" [OF this] show ?case by simp
qed

text \<open>Requests of other keys change nothing for a key.\<close>

lemma consume_run_other:
  "\<forall>(key, tokens, now) \<in> set rs. key \<noteq> k \<Longrightarrow> tokens_of (consume_run l rs) k t = tokens_of l k t"
  by (induction l rs rule: consume_run.induct) (auto simp: consume_other_key)

text \<open>
  What a client sees of its bucket depends on its own requests only: dropping every request of
  the other keys from a run grants it the same tokens.
\<close>

lemma granted_cong:
  assumes "rl_capacity l = rl_capacity l'" and "rl_refill_per_second l = rl_refill_per_second l'"
    and "map_of (rl_buckets l) k = map_of (rl_buckets l') k"
  shows "granted l k rs = granted l' k (filter (\<lambda>(key, _). key = k) rs)"
  using assms
proof (induction rs arbitrary: l l')
  case (Cons a rs)
  obtain key tokens now where a: "a = (key, tokens, now)" by (cases a)
  show ?case
  proof (cases "key = k")
    case True
    have tk: "tokens_of l k now = tokens_of l' k now" by (rule tokens_of_frame) (use Cons.prems in simp_all)
    have "granted (fst (consume_locked l k tokens now)) k rs =
        granted (fst (consume_locked l' k tokens now)) k (filter (\<lambda>(key, _). key = k) rs)"
      by (rule Cons.IH)
        (use Cons.prems in \<open>simp_all add: consume_locked_frame consume_locked_eq Let_def tk update_conv'\<close>)
    moreover have "snd (consume_locked l k tokens now) = snd (consume_locked l' k tokens now)"
      by (simp add: consume_locked_eq Let_def tk)
    ultimately show ?thesis by (simp add: a True)
  next
    case False
    have "granted (fst (consume_locked l key tokens now)) k rs = granted l' k (filter (\<lambda>(key, _). key = k) rs)"
      by (rule Cons.IH) (use Cons.prems False in \<open>simp_all add: consume_locked_frame\<close>)
    with False show ?thesis by (simp add: a)
  qed
qed simp

subsection \<open>retry_after\<close>

lemma retry_after_locked_eq:
  assumes "limiter_inv l now" and "tokens \<le> rl_capacity l"
  shows "retry_after_locked l key tokens now =
     Seconds (max 0 ((of_int tokens - tokens_of l key now) / rl_refill_per_second l))"
  using limiter_invD(2) [OF assms(1)] assms(2)
  by (auto simp: retry_after_locked_def tokens_of_def Let_def max_def divide_le_0_iff
      zero_le_divide_iff split: option.splits)

text \<open>Waiting the announced time is enough, and it is the least time that is.\<close>

lemma retry_after_exact:
  assumes inv: "limiter_inv l now" and cap: "tokens \<le> rl_capacity l" and "now \<le> t"
    and d: "retry_after_locked l key tokens now = Seconds d"
  shows "snd (consume_locked l key tokens t) \<longleftrightarrow> d \<le> t - now"
proof -
  let ?r = "rl_refill_per_second l"
  have r: "0 < ?r" using limiter_invD(2) [OF inv] .
  have capq: "(of_int tokens :: rat) \<le> of_int (rl_capacity l)" using cap by simp
  have bal: "of_int tokens \<le> tokens_of l key t \<longleftrightarrow> of_int tokens \<le> tokens_of l key now + (t - now) * ?r"
  proof (cases "map_of (rl_buckets l) key")
    case None
    have "0 \<le> (t - now) * ?r" using r \<open>now \<le> t\<close> by (intro mult_nonneg_nonneg) auto
    with None capq show ?thesis by (simp add: tokens_of_def)
  next
    case (Some b)
    then have "bk_last_refill b \<le> now" using limiter_invD(3) [OF inv] by (auto simp: bucket_ok_def)
    then have m: "max 0 (t - bk_last_refill b) = t - bk_last_refill b"
      "max 0 (now - bk_last_refill b) = now - bk_last_refill b" using \<open>now \<le> t\<close> by auto
    have "0 \<le> (t - now) * ?r" using r \<open>now \<le> t\<close> by (intro mult_nonneg_nonneg) auto
    with capq show ?thesis by (simp add: tokens_of_def Some refilled_def m algebra_simps min_def)
  qed
  have "d = max 0 ((of_int tokens - tokens_of l key now) / ?r)"
    using d retry_after_locked_eq [OF inv cap] by simp
  moreover have "(of_int tokens - tokens_of l key now) / ?r \<le> t - now \<longleftrightarrow>
      of_int tokens \<le> tokens_of l key now + (t - now) * ?r"
    unfolding pos_divide_le_eq [OF r] by linarith
  ultimately show ?thesis using bal \<open>now \<le> t\<close> by (simp add: consume_locked_eq Let_def)
qed

text \<open>More tokens than the bucket can hold are never granted.\<close>

lemma over_capacity_refused:
  assumes "limiter_inv l now" and "now \<le> t" and "rl_capacity l < tokens"
  shows "\<not> snd (consume_locked l key tokens t)"
proof -
  have "tokens_of l key t \<le> of_int (rl_capacity l)" using tokens_of_bounds(2) [OF assms(1,2)] .
  moreover have "(of_int (rl_capacity l) :: rat) < of_int tokens" using assms(3) by simp
  ultimately show ?thesis by (simp add: consume_locked_eq Let_def)
qed

text \<open>
  For such a request the two branches of \<open>retry_after\<close> disagree: a key without a bucket is told
  never, a key with one a finite delay.
\<close>

lemma over_capacity_delay:
  assumes "limiter_inv l now" and "rl_capacity l < tokens"
  shows "retry_after_locked l key tokens now = Infinite \<longleftrightarrow> map_of (rl_buckets l) key = None"
  using assms(2) by (auto simp: retry_after_locked_def Let_def split: option.splits)

subsection \<open>Properties\<close>

text \<open>C3: (bounds) The rate bound. Whatever mix of clients calls the limiter between two instants of its clock, one key is
  granted at most what its bucket held at the start plus what the elapsed time refills, and so at
  most the capacity plus rate times time; and the balance stays between zero and the capacity.\<close>

theorem rate_bound:
  assumes "limiter_inv l t0" and "timed t0 rs t1"
  shows "of_int (granted l k rs) \<le> tokens_of l k t0 + (t1 - t0) * rl_refill_per_second l
    \<and> of_int (granted l k rs) \<le> of_int (rl_capacity l) + (t1 - t0) * rl_refill_per_second l
    \<and> 0 \<le> tokens_of (consume_run l rs) k t1
    \<and> tokens_of (consume_run l rs) k t1 \<le> of_int (rl_capacity (consume_run l rs))"
  using granted_balance [OF assms, of k] tokens_of_bounds [OF assms(1) order_refl, of k]
    tokens_of_bounds [OF consume_run_inv [OF assms] order_refl, of k] by auto

lemma rate_bound_witness:
  "of_int (granted \<lparr>rl_capacity = 2, rl_refill_per_second = 1/2, rl_buckets = []\<rparr> ''a''
       [(''a'', 1, 0), (''b'', 1, 1), (''a'', 1, 1), (''a'', 1, 2)])
     \<le> tokens_of \<lparr>rl_capacity = 2, rl_refill_per_second = 1/2, rl_buckets = []\<rparr> ''a'' 0 + (2 - 0) * (1/2)"
  using rate_bound [of "\<lparr>rl_capacity = 2, rl_refill_per_second = 1/2, rl_buckets = []\<rparr>" 0
      "[(''a'', 1, 0), (''b'', 1, 1), (''a'', 1, 1), (''a'', 1, 2)]" 2 "''a''"]
  by (simp add: limiter_inv_def)

text \<open>The delay that \<open>retry_after\<close> announces is exact: after waiting at least that long the same request
  is granted, after waiting less it is refused.\<close>

theorem retry_after_sound_and_minimal:
  assumes "limiter_inv l now" and "tokens \<le> rl_capacity l" and "now \<le> t"
    and "retry_after l key tokens now = Inr (Seconds d)"
  shows "\<exists>l'. try_consume l key tokens t = Inr (l', d \<le> t - now)"
proof -
  have "0 < tokens" and d: "retry_after_locked l key tokens now = Seconds d"
    using assms(4) by (auto simp: retry_after_def split: if_splits)
  with retry_after_exact [OF assms(1-3) d] show ?thesis
    by (cases "consume_locked l key tokens t") (auto simp: try_consume_def)
qed

lemma retry_after_sound_and_minimal_witness:
  "\<exists>l'. try_consume \<lparr>rl_capacity = 2, rl_refill_per_second = 1/2,
       rl_buckets = [(''a'', \<lparr>bk_tokens = 0, bk_last_refill = 10\<rparr>)]\<rparr> ''a'' 1 12 = Inr (l', (2::rat) \<le> 12 - 10)"
  by (rule retry_after_sound_and_minimal)
     (simp_all add: limiter_inv_def bucket_ok_def retry_after_def retry_after_locked_def refilled_def Let_def)

text \<open>Clients are isolated: what the limiter grants one key over a run of requests is what it grants
  when every request of the other keys is left out of the run.\<close>

theorem clients_are_isolated:
  "granted l k rs = granted l k (filter (\<lambda>(key, _). key = k) rs)"
  by (rule granted_cong) simp_all

text \<open>A request for more tokens than the bucket holds is refused at every later time, yet \<open>retry_after\<close>
  announces a finite delay for it as soon as the key has a bucket; only an unknown key is told
  \<open>inf\<close>.\<close>

theorem over_capacity_announcement:
  assumes "limiter_inv l now" and "now \<le> t" and "rl_capacity l < tokens"
  shows "snd (consume_locked l key tokens t) = False \<and>
    (retry_after_locked l key tokens now = Infinite) = (map_of (rl_buckets l) key = None)"
  using over_capacity_refused [OF assms] over_capacity_delay [OF assms(1,3)] by blast

lemma over_capacity_announcement_witness:
  "retry_after_locked \<lparr>rl_capacity = 2, rl_refill_per_second = 1,
      rl_buckets = [(''a'', \<lparr>bk_tokens = 0, bk_last_refill = 0\<rparr>)]\<rparr> ''a'' 3 0 = Seconds 3 \<and>
   snd (consume_locked \<lparr>rl_capacity = 2, rl_refill_per_second = 1,
      rl_buckets = [(''a'', \<lparr>bk_tokens = 0, bk_last_refill = 0\<rparr>)]\<rparr> ''a'' 3 99) = False"
  using over_capacity_announcement [of "\<lparr>rl_capacity = 2, rl_refill_per_second = 1,
      rl_buckets = [(''a'', \<lparr>bk_tokens = 0, bk_last_refill = 0\<rparr>)]\<rparr>" 0 99 3 "''a''"]
  by (simp add: limiter_inv_def bucket_ok_def retry_after_locked_def refilled_def Let_def)

end
