(* ===== verification/Memory_Service.thy ===== *)
theory Memory_Service
  imports Py_Json "HOL-Library.Multiset"
begin

text \<open>
  The semantic memory of \<open>agents/memory_service.py\<close>: the 1-bit encoder, the query by table lookup,
  decay and eviction, the Merkle root over the pinned entries, and persistence.

  Vectors are lists of reals; the rounding of \<open>float32\<close> is not modelled. What is not in the
  repository is a parameter: \<open>build_rotation\<close> (numpy's generator and QR factorisation, a function
  of dimension and seed), \<open>argpartition\<close> and \<open>argsort\<close> of numpy, \<open>sha256\<close> (\<open>H\<close>), and the
  shortest decimal form of a float (\<open>fr\<close>).
\<close>

subsection \<open>Data\<close>

definition THETA :: real where
  "THETA = 5 / 100"

definition VALID_KINDS :: "string list" where
  "VALID_KINDS = [''working'', ''episodic'', ''semantic'', ''pinned'']"

definition PERSIST_VERSION :: int where
  "PERSIST_VERSION = 3"

type_synonym vec = "real list"

record entry =
  e_trace_id :: string
  e_kind :: string
  e_pinned :: bool
  e_payload :: dict
  e_bits_packed :: "byte list"
  e_l1 :: real
  e_norm :: real
  e_weight :: real
  e_last_decay_ts :: real

record memory =
  ms_dim :: nat
  ms_decay_lambdas :: "(string \<times> real) list"
  ms_seed :: int
  ms_P :: "vec list"
  ms_centroid :: "vec option"
  ms_entries :: "(string \<times> entry) list"

definition default_lambdas :: "(string \<times> real) list" where
  "default_lambdas =
     [(''working'', 1 / 86400), (''episodic'', 1 / (7 * 86400)), (''semantic'', 1 / (90 * 86400))]"

definition mk_memory ::
  "(nat \<Rightarrow> int \<Rightarrow> vec list) \<Rightarrow> nat \<Rightarrow> (string \<times> real) list option \<Rightarrow> int \<Rightarrow> memory" where
  "mk_memory build_rotation d decay_lambdas seed =
     \<lparr>ms_dim = d,
      ms_decay_lambdas = (case decay_lambdas of
          None \<Rightarrow> default_lambdas
        | Some ls \<Rightarrow> if ls = [] then default_lambdas else ls),
      ms_seed = seed, ms_P = build_rotation d seed, ms_centroid = None, ms_entries = []\<rparr>"

definition set_centroid :: "memory \<Rightarrow> vec option \<Rightarrow> memory res" where
  "set_centroid m v =
     (if 0 < length (ms_entries m)
      then Inl (RuntimeError ''set_centroid() cannot be called after entries have been added'')
      else (case v of
              None \<Rightarrow> Inr (m\<lparr>ms_centroid := None\<rparr>)
            | Some c \<Rightarrow>
                if length c \<noteq> ms_dim m then Inl (ValueError ''centroid dim != index dim'')
                else Inr (m\<lparr>ms_centroid := Some c\<rparr>)))"

subsection \<open>The encoder\<close>

definition dot :: "vec \<Rightarrow> vec \<Rightarrow> real" where
  "dot u v = sum_list (map2 (*) u v)"

definition l2norm :: "vec \<Rightarrow> real" where
  "l2norm v = sqrt (dot v v)"

definition byte_of_bits :: "bool list \<Rightarrow> byte" where
  "byte_of_bits bs = of_nat (foldl (\<lambda>a b. 2 * a + of_bool b) 0 bs)"

text \<open>\<open>np.packbits\<close>: eight bits to a byte, the first bit the most significant.\<close>

fun packbits :: "bool list \<Rightarrow> byte list" where
  "packbits bs = (if bs = [] then [] else byte_of_bits (take 8 bs) # packbits (drop 8 bs))"

declare packbits.simps [simp del]

definition pack_bits :: "vec \<Rightarrow> nat \<Rightarrow> byte list" where
  "pack_bits sv d =
     (let bits = map (\<lambda>x. 0 < x) sv
      in packbits (if d mod 8 \<noteq> 0 then bits @ replicate (8 - d mod 8) False else bits))"

definition ensure_centroid :: "memory \<Rightarrow> memory" where
  "ensure_centroid m =
     (case ms_centroid m of None \<Rightarrow> m\<lparr>ms_centroid := Some (replicate (ms_dim m) 0)\<rparr> | Some c \<Rightarrow> m)"

record encoded =
  en_rotated :: vec
  en_bits :: "byte list"
  en_l1 :: real
  en_norm :: real

definition encode_at :: "memory \<Rightarrow> vec \<Rightarrow> vec \<Rightarrow> encoded" where
  "encode_at m c v =
     (let centered = map2 (-) v c;
          norm0 = l2norm centered;
          raw_norm = l2norm v;
          (unit, norm) =
            (if norm0 = 0
             then (if raw_norm = 0 then map (\<lambda>_. 0) v else map (\<lambda>x. x / raw_norm) v, raw_norm)
             else (map (\<lambda>x. x / norm0) centered, norm0));
          rotated = map (dot unit) (ms_P m);
          signs = map (\<lambda>x. if 0 \<le> x then 1 else - 1) rotated
      in \<lparr>en_rotated = rotated, en_bits = pack_bits signs (ms_dim m),
          en_l1 = sum_list (map abs rotated), en_norm = norm\<rparr>)"

definition encode :: "memory \<Rightarrow> vec \<Rightarrow> (memory \<times> encoded) res" where
  "encode m v =
     (if length v \<noteq> ms_dim m then Inl (ValueError ''vec dim != index dim'')
      else (let m' = ensure_centroid m
            in Inr (m', encode_at m' (the (ms_centroid m')) v)))"

subsection \<open>Insertion\<close>

definition add ::
  "memory \<Rightarrow> string \<Rightarrow> vec \<Rightarrow> string \<Rightarrow> bool \<Rightarrow> dict option \<Rightarrow> real \<Rightarrow> memory res" where
  "add m trace_id v kind pinned payload now =
     (if kind \<notin> set VALID_KINDS then Inl (ValueError ''kind must be one of VALID_KINDS'')
      else (let kind' = (if pinned \<and> kind \<noteq> ''pinned'' then ''pinned'' else kind);
                pinned' = (if \<not> pinned \<and> kind' = ''pinned'' then True else pinned)
            in res_bind (encode m v) (\<lambda>(m', en).
                 Inr (m'\<lparr>ms_entries := AList.update trace_id
                   \<lparr>e_trace_id = trace_id, e_kind = kind', e_pinned = pinned',
                    e_payload = (case payload of None \<Rightarrow> [] | Some d \<Rightarrow> d),
                    e_bits_packed = en_bits en, e_l1 = en_l1 en, e_norm = en_norm en,
                    e_weight = 1, e_last_decay_ts = now\<rparr> (ms_entries m')\<rparr>))))"

subsection \<open>Query\<close>

text \<open>\<open>_SIGNS_MASK\<close>: row \<open>p\<close> holds the signs of the bits of byte \<open>p\<close>, most significant first.\<close>

definition signs_mask :: "vec list" where
  "signs_mask = map (\<lambda>p. map (\<lambda>j. real ((p div 2 ^ (7 - j)) mod 2) * 2 - 1) [0..<8]) [0..<256]"

fun chunks8 :: "'a list \<Rightarrow> 'a list list" where
  "chunks8 xs = (if xs = [] then [] else take 8 xs # chunks8 (drop 8 xs))"

declare chunks8.simps [simp del]

definition lookup_table :: "vec \<Rightarrow> vec list" where
  "lookup_table q = map (\<lambda>block. map (dot block) signs_mask) (chunks8 q)"

definition approx_inner :: "vec list \<Rightarrow> byte list \<Rightarrow> real" where
  "approx_inner lookup bits = sum_list (map2 (\<lambda>row b. row ! unat b) lookup bits)"

definition est_cosine :: "vec list \<Rightarrow> entry \<Rightarrow> real" where
  "est_cosine lookup e = approx_inner lookup (e_bits_packed e) / (if 0 < e_l1 e then e_l1 e else 1)"

text \<open>Python's \<open>xs[:k]\<close>.\<close>

definition py_take :: "int \<Rightarrow> 'a list \<Rightarrow> 'a list" where
  "py_take k xs = (if 0 \<le> k then take (nat k) xs else take (nat (int (length xs) + k)) xs)"

text \<open>\<open>np.stack\<close> wants rows of one length; the rotated query must fit the padded row.\<close>

definition query ::
  "(vec \<Rightarrow> int \<Rightarrow> nat list) \<Rightarrow> (vec \<Rightarrow> nat list) \<Rightarrow> memory \<Rightarrow> vec \<Rightarrow> int \<Rightarrow>
   (memory \<times> (string \<times> real) list) res" where
  "query argpartition argsort m v k =
     (if ms_entries m = [] then Inr (m, [])
      else res_bind (encode m v) (\<lambda>(m', en).
        let ids = map fst (ms_entries m');
            es = map snd (ms_entries m');
            n_bytes = length (e_bits_packed (hd es))
        in if \<exists>e \<in> set es. length (e_bits_packed e) \<noteq> n_bytes
           then Inl (ValueError ''all input arrays must have the same shape'')
           else if 8 * n_bytes < ms_dim m'
           then Inl (ValueError ''could not broadcast input array'')
           else
             let q = en_rotated en @ replicate (8 * n_bytes - ms_dim m') 0;
                 lookup = lookup_table q;
                 scored = map (\<lambda>e. est_cosine lookup e * e_weight e) es;
                 neg = map uminus scored;
                 n = int (length ids);
                 kk = min k n
             in if kk < n \<and> kk - 1 < - n then Inl (ValueError ''kth out of bounds'')
                else
                  let top = (if kk < n then py_take kk (argpartition neg (kk - 1)) else [0..<length ids]);
                      order = map ((!) top) (argsort (map ((!) neg) top))
                  in Inr (m', map (\<lambda>j. (ids ! j, scored ! j)) order)))"

subsection \<open>Decay\<close>

definition decay_rate :: "(string \<times> real) list \<Rightarrow> string \<Rightarrow> real" where
  "decay_rate lambdas kind = (case map_of lambdas kind of None \<Rightarrow> 0 | Some l \<Rightarrow> l)"

definition decay_entry :: "(string \<times> real) list \<Rightarrow> real \<Rightarrow> entry \<Rightarrow> entry" where
  "decay_entry lambdas now e =
     (if e_pinned e then e\<lparr>e_last_decay_ts := now\<rparr>
      else (let dt = max 0 (now - e_last_decay_ts e)
            in e\<lparr>e_weight := e_weight e * exp (- decay_rate lambdas (e_kind e) * dt),
                 e_last_decay_ts := now\<rparr>))"

definition decay_step :: "memory \<Rightarrow> real \<Rightarrow> memory" where
  "decay_step m now =
     (let entries = map (\<lambda>(t, e). (t, decay_entry (ms_decay_lambdas m) now e)) (ms_entries m);
          to_drop = map fst (filter (\<lambda>(t, e). \<not> e_pinned e \<and> e_weight e < THETA) entries)
      in m\<lparr>ms_entries := foldl (\<lambda>d t. AList.delete t d) entries to_drop\<rparr>)"

subsection \<open>The pinned Merkle root\<close>

definition utf8 :: "string \<Rightarrow> byte list" where
  "utf8 s = map of_char s"

definition leaf_preimage :: "(rat \<Rightarrow> string) \<Rightarrow> entry \<Rightarrow> byte list" where
  "leaf_preimage fr e =
     utf8 (e_trace_id e) @ [0] @ e_bits_packed e @ [0] @ utf8 (canonical_json fr (JObj (e_payload e)))"

definition pinned_leaf :: "(byte list \<Rightarrow> byte list) \<Rightarrow> (rat \<Rightarrow> string) \<Rightarrow> entry \<Rightarrow> byte list" where
  "pinned_leaf H fr e = H (leaf_preimage fr e)"

fun pair_up :: "byte list list \<Rightarrow> byte list list" where
  "pair_up (a # b # xs) = (a @ b) # pair_up xs"
| "pair_up _ = []"

definition pad_layer :: "byte list list \<Rightarrow> byte list list" where
  "pad_layer layer = (if odd (length layer) then layer @ [last layer] else layer)"

lemma length_pair_up: "length (pair_up xs) = length xs div 2"
  by (induction xs rule: pair_up.induct) auto

function merkle_reduce :: "(byte list \<Rightarrow> byte list) \<Rightarrow> byte list list \<Rightarrow> byte list" where
  "merkle_reduce H layer =
     (if 1 < length layer then merkle_reduce H (map H (pair_up (pad_layer layer))) else hd layer)"
  by auto
termination
  by (relation "measure (length \<circ> snd)") (auto simp: length_pair_up pad_layer_def, presburger)

declare merkle_reduce.simps [simp del]

definition pinned_sorted :: "memory \<Rightarrow> entry list" where
  "pinned_sorted m = sort_key e_trace_id (filter e_pinned (map snd (ms_entries m)))"

definition pinned_merkle_root :: "(byte list \<Rightarrow> byte list) \<Rightarrow> (rat \<Rightarrow> string) \<Rightarrow> memory \<Rightarrow> byte list" where
  "pinned_merkle_root H fr m =
     (let pinned = pinned_sorted m
      in if pinned = [] then H [] else merkle_reduce H (map (pinned_leaf H fr) pinned))"

definition pinned_ids :: "memory \<Rightarrow> string list" where
  "pinned_ids m = sort (map fst (filter (\<lambda>(t, e). e_pinned e) (ms_entries m)))"

definition weight_of :: "memory \<Rightarrow> string \<Rightarrow> real res" where
  "weight_of m t = map_sum id e_weight (of_opt (KeyError t) (map_of (ms_entries m) t))"

definition memory_len :: "memory \<Rightarrow> int" where
  "memory_len m = int (length (ms_entries m))"

subsection \<open>The table lookup computes the inner product with the signs\<close>

definition bits_val :: "bool list \<Rightarrow> nat" where
  "bits_val bs = foldl (\<lambda>a b. 2 * a + of_bool b) 0 bs"

lemma bits_val_snoc: "bits_val (bs @ [b]) = 2 * bits_val bs + of_bool b"
  by (simp add: bits_val_def)

lemma bits_val_less: "bits_val bs < 2 ^ length bs"
  by (induction bs rule: rev_induct) (auto simp: bits_val_snoc, simp add: bits_val_def)

lemma bits_val_nth:
  "j < length bs \<Longrightarrow> (bits_val bs div 2 ^ (length bs - 1 - j)) mod 2 = of_bool (bs ! j)"
proof (induction bs rule: rev_induct)
  case (snoc b bs)
  show ?case
  proof (cases "j = length bs")
    case True
    then show ?thesis by (simp add: bits_val_snoc)
  next
    case False
    with snoc.prems have j: "j < length bs" by simp
    define k where "k = length bs - 1 - j"
    have k: "length (bs @ [b]) - 1 - j = Suc k" using j by (simp add: k_def)
    have "bits_val (bs @ [b]) div 2 ^ Suc k = (2 * bits_val bs + of_bool b) div 2 div 2 ^ k"
      by (simp add: bits_val_snoc div_mult2_eq)
    also have "\<dots> = bits_val bs div 2 ^ k" by (cases b) simp_all
    finally have "bits_val (bs @ [b]) div 2 ^ Suc k mod 2 = of_bool (bs ! j)"
      using snoc.IH [OF j] by (simp add: k_def)
    then show ?thesis unfolding k using j by (simp add: nth_append)
  qed
qed simp

lemma unat_byte_of_bits: "length bs \<le> 8 \<Longrightarrow> unat (byte_of_bits bs) = bits_val bs"
proof -
  assume "length bs \<le> 8"
  then have "(2::nat) ^ length bs \<le> 2 ^ 8" by (intro power_increasing) auto
  with bits_val_less [of bs] have "bits_val bs < 256" by simp
  then have "unat (of_nat (bits_val bs) :: byte) = bits_val bs" by (simp add: unat_of_nat)
  then show ?thesis by (simp add: byte_of_bits_def bits_val_def)
qed

definition bit_sign :: "bool \<Rightarrow> real" where
  "bit_sign b = (if b then 1 else - 1)"

lemma signs_mask_row:
  assumes "length bs = 8"
  shows "signs_mask ! unat (byte_of_bits bs) = map bit_sign bs"
proof -
  have lt: "bits_val bs < 256" using bits_val_less [of bs] assms by simp
  have u: "unat (byte_of_bits bs) = bits_val bs" using unat_byte_of_bits assms by simp
  have "signs_mask ! bits_val bs = map (\<lambda>j. real ((bits_val bs div 2 ^ (7 - j)) mod 2) * 2 - 1) [0..<8]"
    using lt by (simp add: signs_mask_def)
  also have "\<dots> = map (\<lambda>j. bit_sign (bs ! j)) [0..<8]"
    using bits_val_nth [of _ bs] assms by (intro map_cong) (auto simp: bit_sign_def)
  also have "\<dots> = map bit_sign bs" using assms by (intro nth_equalityI) auto
  finally show ?thesis by (simp add: u)
qed

lemma dot_append:
  "length a = length c \<Longrightarrow> dot (a @ b) (c @ d) = dot a c + dot b d"
  by (simp add: dot_def)

lemma dot_zeros: "dot (replicate n 0) v = 0"
proof (induction n arbitrary: v)
  case (Suc n)
  then show ?case by (cases v) (simp_all add: dot_def)
qed (simp add: dot_def)

lemma ceil8_step: "0 < n \<Longrightarrow> Suc ((n - 8 + 7) div 8) = (n + 7) div (8::nat)"
proof (cases "n < 8")
  case True
  assume "0 < n"
  with True have "(n + 7) div 8 = Suc ((n - 1) div 8)" by simp
  with True show ?thesis by simp
next
  case False
  then obtain k where "n = k + 8" by (metis add.commute le_Suc_ex not_less)
  then show ?thesis by simp
qed

lemma ceil8_pad: "d + (if d mod 8 \<noteq> 0 then 8 - d mod 8 else 0) = 8 * ((d + 7) div (8::nat))"
proof -
  define q r where "q = d div 8" and "r = d mod 8"
  have d: "d = 8 * q + r" and r: "r < 8" by (simp_all add: q_def r_def)
  have "(d + 7) div 8 = q + (r + 7) div 8" by (simp add: d)
  moreover have "(r + 7) div 8 = (if r = 0 then 0 else 1)" using r by (cases "r = 0") auto
  ultimately show ?thesis using r d by (auto simp flip: r_def)
qed

lemma length_packbits_8: "length (packbits bs) = (length bs + 7) div 8"
proof (induction bs rule: packbits.induct)
  case (1 bs)
  show ?case
  proof (cases "bs = []")
    case False
    then have "length (packbits bs) = Suc ((length bs - 8 + 7) div 8)"
      using 1 by (subst packbits.simps) simp
    with ceil8_step [of "length bs"] False show ?thesis by simp
  qed (simp add: packbits.simps)
qed

text \<open>The scan of one packed code against the table, eight coordinates at a time.\<close>

lemma approx_inner_packbits:
  "length q = length bs \<Longrightarrow> 8 dvd length bs \<Longrightarrow>
   approx_inner (lookup_table q) (packbits bs) = dot q (map bit_sign bs)"
proof (induction bs arbitrary: q rule: packbits.induct)
  case (1 bs)
  show ?case
  proof (cases "bs = []")
    case True
    then show ?thesis using 1 by (simp add: packbits.simps approx_inner_def dot_def)
  next
    case False
    with 1 have len: "8 \<le> length bs" "8 dvd length (drop 8 bs)"
      by (auto intro: dvd_imp_le simp: dvd_diff_nat)
    have q: "lookup_table q = map (dot (take 8 q)) signs_mask # lookup_table (drop 8 q)"
      using False "1.prems" by (simp add: lookup_table_def chunks8.simps [of q]) auto
    have b: "packbits bs = byte_of_bits (take 8 bs) # packbits (drop 8 bs)"
      using False by (subst packbits.simps) simp
    have "unat (byte_of_bits (take 8 bs)) < length signs_mask"
      using unsigned_less [of "byte_of_bits (take 8 bs)"] by (simp add: signs_mask_def)
    then have row: "map (dot (take 8 q)) signs_mask ! unat (byte_of_bits (take 8 bs)) =
        dot (take 8 q) (map bit_sign (take 8 bs))"
      using signs_mask_row [of "take 8 bs"] len by simp
    have "approx_inner (lookup_table q) (packbits bs) =
        dot (take 8 q) (map bit_sign (take 8 bs)) + dot (drop 8 q) (map bit_sign (drop 8 bs))"
      using 1 False len by (simp add: q b approx_inner_def row)
    also have "\<dots> = dot (take 8 q @ drop 8 q) (map bit_sign (take 8 bs) @ map bit_sign (drop 8 bs))"
      using "1.prems" by (simp only: dot_append length_take length_map)
    also have "\<dots> = dot q (map bit_sign bs)" by (simp flip: map_append)
    finally show ?thesis .
  qed
qed

lemma length_pack_bits: "length sv = d \<Longrightarrow> length (pack_bits sv d) = (d + 7) div 8"
proof -
  assume "length sv = d"
  then have "length (pack_bits sv d) = (d + (if d mod 8 \<noteq> 0 then 8 - d mod 8 else 0) + 7) div 8"
    by (simp add: pack_bits_def Let_def length_packbits_8)
  also have "\<dots> = (8 * ((d + 7) div 8) + 7) div 8" by (simp only: ceil8_pad)
  also have "\<dots> = (d + 7) div 8" by simp
  finally show ?thesis .
qed

lemma approx_inner_pack_bits:
  assumes "length sv = d" and "length q = d"
  shows "approx_inner (lookup_table (q @ replicate (8 * ((d + 7) div 8) - d) 0)) (pack_bits sv d) =
     dot q (map (\<lambda>x. if 0 < x then 1 else - 1) sv)"
proof -
  let ?pad = "8 * ((d + 7) div 8) - d"
  define n where "n = ?pad"
  have n: "n = (if d mod 8 \<noteq> 0 then 8 - d mod 8 else 0)"
    using ceil8_pad [of d] unfolding n_def by linarith
  then have p: "pack_bits sv d = packbits (map (\<lambda>x. 0 < x) sv @ replicate n False)"
    by (simp add: pack_bits_def Let_def)
  have "8 dvd d + n" using ceil8_pad [of d] unfolding n by (metis dvd_triv_left)
  then have "approx_inner (lookup_table (q @ replicate n 0)) (packbits (map (\<lambda>x. 0 < x) sv @ replicate n False)) =
      dot (q @ replicate n 0) (map bit_sign (map (\<lambda>x. 0 < x) sv @ replicate n False))"
    using assms by (intro approx_inner_packbits) auto
  also have "\<dots> = dot q (map bit_sign (map (\<lambda>x. 0 < x) sv))"
    using assms by (simp add: dot_append dot_zeros)
  finally show ?thesis unfolding n_def [symmetric] p by (simp add: bit_sign_def o_def)
qed

subsection \<open>Well-formed memories\<close>

definition entry_wf :: "nat \<Rightarrow> string \<Rightarrow> entry \<Rightarrow> bool" where
  "entry_wf d t e \<longleftrightarrow>
     e_trace_id e = t \<and> e_kind e \<in> set VALID_KINDS \<and> (e_pinned e \<longleftrightarrow> e_kind e = ''pinned'') \<and>
     length (e_bits_packed e) = (d + 7) div 8 \<and>
     0 \<le> e_weight e \<and> e_weight e \<le> 1 \<and> (e_pinned e \<longrightarrow> e_weight e = 1) \<and> 0 \<le> e_l1 e"

definition memory_wf :: "memory \<Rightarrow> bool" where
  "memory_wf m \<longleftrightarrow>
     distinct (map fst (ms_entries m)) \<and>
     (\<forall>(t, e) \<in> set (ms_entries m). entry_wf (ms_dim m) t e) \<and>
     length (ms_P m) = ms_dim m \<and>
     (case ms_centroid m of None \<Rightarrow> ms_entries m = [] | Some c \<Rightarrow> length c = ms_dim m)"

lemma memory_wfD:
  "memory_wf m \<Longrightarrow> distinct (map fst (ms_entries m))"
  "memory_wf m \<Longrightarrow> (t, e) \<in> set (ms_entries m) \<Longrightarrow> entry_wf (ms_dim m) t e"
  "memory_wf m \<Longrightarrow> length (ms_P m) = ms_dim m"
  by (auto simp: memory_wf_def)

lemma memory_wf_init:
  "length (build_rotation d seed) = d \<Longrightarrow> memory_wf (mk_memory build_rotation d ls seed)"
  by (simp add: mk_memory_def memory_wf_def)

lemma memory_wf_set_centroid:
  "memory_wf m \<Longrightarrow> set_centroid m v = Inr m' \<Longrightarrow> memory_wf m'"
  by (auto simp: set_centroid_def memory_wf_def split: if_splits option.splits)

lemma ensure_centroid_simps [simp]:
  "ms_dim (ensure_centroid m) = ms_dim m" "ms_P (ensure_centroid m) = ms_P m"
  "ms_entries (ensure_centroid m) = ms_entries m" "ms_decay_lambdas (ensure_centroid m) = ms_decay_lambdas m"
  "ms_seed (ensure_centroid m) = ms_seed m"
  "ms_centroid (ensure_centroid m) \<noteq> None"
  "ensure_centroid (ensure_centroid m) = ensure_centroid m"
  by (auto simp: ensure_centroid_def split: option.split)

lemma ensure_centroid_wf: "memory_wf m \<Longrightarrow> memory_wf (ensure_centroid m)"
  by (auto simp: memory_wf_def ensure_centroid_def split: option.splits)

lemma encode_at_shape:
  assumes "length (ms_P m) = ms_dim m"
  shows "length (en_rotated (encode_at m c v)) = ms_dim m"
    and "length (en_bits (encode_at m c v)) = (ms_dim m + 7) div 8"
    and "0 \<le> en_l1 (encode_at m c v)"
    and "en_bits (encode_at m c v) =
      pack_bits (map (\<lambda>x. if 0 \<le> x then 1 else - 1) (en_rotated (encode_at m c v))) (ms_dim m)"
    and "en_l1 (encode_at m c v) = sum_list (map abs (en_rotated (encode_at m c v)))"
  using assms
  by (auto simp: encode_at_def Let_def length_pack_bits intro!: sum_list_nonneg split: prod.splits)

lemma encode_at_cong:
  "ms_P m = ms_P m' \<Longrightarrow> ms_dim m = ms_dim m' \<Longrightarrow> encode_at m c v = encode_at m' c v"
  by (simp add: encode_at_def)

text \<open>\<open>add\<close> in one equation: the centroid is armed and the entry is written under its id.\<close>

definition new_entry :: "memory \<Rightarrow> string \<Rightarrow> vec \<Rightarrow> string \<Rightarrow> bool \<Rightarrow> dict option \<Rightarrow> real \<Rightarrow> entry" where
  "new_entry m t v kind pinned payload now =
     (let en = encode_at m (the (ms_centroid (ensure_centroid m))) v;
          p = (pinned \<or> kind = ''pinned'')
      in \<lparr>e_trace_id = t, e_kind = (if p then ''pinned'' else kind), e_pinned = p,
          e_payload = (case payload of None \<Rightarrow> [] | Some d \<Rightarrow> d),
          e_bits_packed = en_bits en, e_l1 = en_l1 en, e_norm = en_norm en,
          e_weight = 1, e_last_decay_ts = now\<rparr>)"

lemma add_eq:
  "add m t v kind pinned payload now =
     (if kind \<notin> set VALID_KINDS then Inl (ValueError ''kind must be one of VALID_KINDS'')
      else if length v \<noteq> ms_dim m then Inl (ValueError ''vec dim != index dim'')
      else Inr ((ensure_centroid m)\<lparr>ms_entries :=
             AList.update t (new_entry m t v kind pinned payload now) (ms_entries m)\<rparr>))"
  using encode_at_cong [of "ensure_centroid m" m]
  by (auto simp: add_def encode_def new_entry_def Let_def)

lemma add_entries:
  "add m t v kind pinned payload now = Inr m' \<Longrightarrow>
   ms_entries m' = AList.update t (new_entry m t v kind pinned payload now) (ms_entries m)"
  by (auto simp: add_eq split: if_splits)

lemma new_entry_wf:
  assumes "memory_wf m" and "kind \<in> set VALID_KINDS"
  shows "entry_wf (ms_dim m) t (new_entry m t v kind pinned payload now)"
  using encode_at_shape [OF memory_wfD(3) [OF assms(1)]] assms(2)
  by (auto simp: entry_wf_def new_entry_def Let_def VALID_KINDS_def)

lemma add_wf:
  assumes "memory_wf m" and "add m t v kind pinned payload now = Inr m'"
  shows "memory_wf m'"
proof -
  have k: "kind \<in> set VALID_KINDS" and m': "m' = (ensure_centroid m)\<lparr>ms_entries :=
      AList.update t (new_entry m t v kind pinned payload now) (ms_entries m)\<rparr>"
    using assms(2) by (auto simp: add_eq split: if_splits)
  have w: "memory_wf (ensure_centroid m)" using ensure_centroid_wf [OF assms(1)] .
  have "entry_wf (ms_dim m) t' e'"
    if "(t', e') \<in> set (AList.update t (new_entry m t v kind pinned payload now) (ms_entries m))" for t' e'
  proof -
    have "distinct (map fst (AList.update t (new_entry m t v kind pinned payload now) (ms_entries m)))"
      using memory_wfD(1) [OF assms(1)] by (rule distinct_update)
    from map_of_is_SomeI [OF this that] have
      "((map_of (ms_entries m))(t \<mapsto> new_entry m t v kind pinned payload now)) t' = Some e'"
      by (simp add: update_conv')
    then show ?thesis
      using new_entry_wf [OF assms(1) k] memory_wfD(2) [OF assms(1)] map_of_SomeD
      by (fastforce split: if_splits)
  qed
  then show ?thesis
    using w memory_wfD(1) [OF assms(1)] ensure_centroid_simps(6) [of m]
    by (auto simp: memory_wf_def m' distinct_update split: option.splits)
qed

subsection \<open>Decay and eviction\<close>

definition kept :: "entry \<Rightarrow> bool" where
  "kept e \<longleftrightarrow> e_pinned e \<or> THETA \<le> e_weight e"

lemma decay_step_entries:
  assumes "distinct (map fst (ms_entries m))"
  shows "ms_entries (decay_step m now) =
     filter (\<lambda>(t, e). kept e) (map (\<lambda>(t, e). (t, decay_entry (ms_decay_lambdas m) now e)) (ms_entries m))"
proof -
  let ?es = "map (\<lambda>(t, e). (t, decay_entry (ms_decay_lambdas m) now e)) (ms_entries m)"
  have "map fst ?es = map fst (ms_entries m)" by auto
  then have d: "distinct (map fst ?es)" using assms by (simp only:)
  have "ms_entries (decay_step m now) =
      filter (\<lambda>(k, _). k \<notin> set (map fst (filter (\<lambda>(t, e). \<not> e_pinned e \<and> e_weight e < THETA) ?es))) ?es"
    by (simp only: decay_step_def Let_def foldl_delete memory.select_convs memory.update_convs)
      simp
  also have "\<dots> = filter (\<lambda>(t, e). \<not> (\<not> e_pinned e \<and> e_weight e < THETA)) ?es"
    by (rule filter_drop_keys [OF d])
  also have "\<dots> = filter (\<lambda>(t, e). kept e) ?es"
    by (rule filter_cong) (auto simp: kept_def)
  finally show ?thesis .
qed

lemma decay_step_frame [simp]:
  "ms_dim (decay_step m now) = ms_dim m" "ms_P (decay_step m now) = ms_P m"
  "ms_centroid (decay_step m now) = ms_centroid m" "ms_decay_lambdas (decay_step m now) = ms_decay_lambdas m"
  "ms_seed (decay_step m now) = ms_seed m"
  by (simp_all add: decay_step_def Let_def)

definition rates_ok :: "memory \<Rightarrow> bool" where
  "rates_ok m \<longleftrightarrow> (\<forall>(k, l) \<in> set (ms_decay_lambdas m). 0 \<le> l)"

lemma decay_rate_nonneg: "rates_ok m \<Longrightarrow> 0 \<le> decay_rate (ms_decay_lambdas m) k"
  by (auto simp: rates_ok_def decay_rate_def split: option.split dest: map_of_SomeD)

lemma decay_entry_frame [simp]:
  "e_trace_id (decay_entry L now e) = e_trace_id e" "e_kind (decay_entry L now e) = e_kind e"
  "e_pinned (decay_entry L now e) = e_pinned e" "e_payload (decay_entry L now e) = e_payload e"
  "e_bits_packed (decay_entry L now e) = e_bits_packed e" "e_l1 (decay_entry L now e) = e_l1 e"
  "e_norm (decay_entry L now e) = e_norm e" "e_last_decay_ts (decay_entry L now e) = now"
  by (simp_all add: decay_entry_def Let_def)

lemma decay_entry_wf:
  assumes "rates_ok m" and "entry_wf d t e"
  shows "entry_wf d t (decay_entry (ms_decay_lambdas m) now e)"
proof -
  have "exp (- decay_rate (ms_decay_lambdas m) (e_kind e) * max 0 (now - e_last_decay_ts e)) \<le> 1"
    using decay_rate_nonneg [OF assms(1), of "e_kind e"] by (simp add: mult_nonneg_nonneg)
  then have "e_weight e * exp (- decay_rate (ms_decay_lambdas m) (e_kind e) * max 0 (now - e_last_decay_ts e)) \<le> 1 * 1"
    using assms(2) by (intro mult_mono) (auto simp: entry_wf_def)
  with assms(2) show ?thesis by (auto simp: entry_wf_def decay_entry_def Let_def)
qed

lemma decay_step_wf: "memory_wf m \<Longrightarrow> rates_ok m \<Longrightarrow> memory_wf (decay_step m now)"
  unfolding memory_wf_def
  by (auto simp: decay_step_entries split_beta o_def intro!: distinct_map_filter decay_entry_wf split: option.splits)

text \<open>Decaying in two steps is decaying once, as long as the clock does not run back.\<close>

lemma decay_entry_compose:
  assumes "e_last_decay_ts e \<le> t1" and "t1 \<le> t2"
  shows "decay_entry L t2 (decay_entry L t1 e) = decay_entry L t2 e"
proof (cases "e_pinned e")
  case False
  let ?l = "decay_rate L (e_kind e)"
  have "exp (- ?l * (t1 - e_last_decay_ts e)) * exp (- ?l * (t2 - t1)) = exp (- ?l * (t2 - e_last_decay_ts e))"
    by (simp add: algebra_simps flip: exp_add)
  with False assms show ?thesis by (simp add: decay_entry_def Let_def mult.assoc)
qed (simp add: decay_entry_def)

lemma decay_weight_antimono:
  assumes "rates_ok m" and "0 \<le> e_weight e" and "e_last_decay_ts e \<le> t1" and "t1 \<le> t2"
    and "kept (decay_entry (ms_decay_lambdas m) t2 e)"
  shows "kept (decay_entry (ms_decay_lambdas m) t1 e)"
proof (cases "e_pinned e")
  case False
  let ?l = "decay_rate (ms_decay_lambdas m) (e_kind e)"
  have "?l * (t1 - e_last_decay_ts e) \<le> ?l * (t2 - e_last_decay_ts e)"
    using decay_rate_nonneg [OF assms(1)] assms(4) by (intro mult_left_mono) auto
  then have "exp (- ?l * (t2 - e_last_decay_ts e)) \<le> exp (- ?l * (t1 - e_last_decay_ts e))" by simp
  then have "e_weight e * exp (- ?l * (t2 - e_last_decay_ts e)) \<le> e_weight e * exp (- ?l * (t1 - e_last_decay_ts e))"
    using assms(2) by (intro mult_left_mono)
  with False assms show ?thesis by (simp add: kept_def decay_entry_def Let_def)
qed (simp add: kept_def)

end
