(* ===== verification/Memory_Query.thy ===== *)
theory Memory_Query
  imports Memory_Service
begin

text \<open>
  What a query of \<open>agents/memory_service.py\<close> returns: the table scan scores an entry by the inner
  product of its stored signs with the rotated query over its \<open>l1\<close>, weighted by its decay weight,
  and the answer is the top \<open>k\<close> of these scores in descending order. And what decay does to an
  entry over time.
\<close>

subsection \<open>What numpy promises\<close>

definition argsort_ok :: "(vec \<Rightarrow> nat list) \<Rightarrow> bool" where
  "argsort_ok f \<longleftrightarrow> (\<forall>xs. mset (f xs) = mset [0..<length xs] \<and> sorted (map ((!) xs) (f xs)))"

definition argpartition_ok :: "(vec \<Rightarrow> int \<Rightarrow> nat list) \<Rightarrow> bool" where
  "argpartition_ok f \<longleftrightarrow>
     (\<forall>xs kth. kth < length xs \<longrightarrow>
        mset (f xs (int kth)) = mset [0..<length xs] \<and>
        (\<forall>i j. i \<le> kth \<longrightarrow> kth \<le> j \<longrightarrow> j < length xs \<longrightarrow> xs ! (f xs (int kth) ! i) \<le> xs ! (f xs (int kth) ! j)))"

lemma argsort_mset: "argsort_ok f \<Longrightarrow> mset (map ((!) ys) (f (map g ys))) = mset ys"
proof -
  assume "argsort_ok f"
  then have "mset (map ((!) ys) (f (map g ys))) = mset (map ((!) ys) [0..<length ys])"
    by (simp add: argsort_ok_def)
  then show ?thesis by (simp add: map_nth)
qed

lemma argsort_sorted:
  assumes "argsort_ok f"
  shows "sorted (map g (map ((!) ys) (f (map g ys))))"
proof -
  let ?p = "f (map g ys)"
  have s: "sorted (map ((!) (map g ys)) ?p)" and m: "mset ?p = mset [0..<length ys]"
    using assms by (simp_all add: argsort_ok_def)
  have "set ?p = {0..<length ys}" using mset_eq_setD [OF m] by simp
  then have "map ((!) (map g ys)) ?p = map g (map ((!) ys) ?p)" by auto
  with s show ?thesis by (simp only:)
qed

subsection \<open>Scores\<close>

text \<open>The query as the scan sees it: rotated and padded to whole bytes.\<close>

definition padded_query :: "memory \<Rightarrow> vec \<Rightarrow> vec" where
  "padded_query m v =
     en_rotated (encode_at m (the (ms_centroid m)) v) @ replicate (8 * ((ms_dim m + 7) div 8) - ms_dim m) 0"

definition score :: "memory \<Rightarrow> vec \<Rightarrow> entry \<Rightarrow> real" where
  "score m v e = est_cosine (lookup_table (padded_query m v)) e * e_weight e"

lemma wf_centroid: "memory_wf m \<Longrightarrow> ms_entries m \<noteq> [] \<Longrightarrow> ensure_centroid m = m"
  by (auto simp: memory_wf_def ensure_centroid_def split: option.splits)

definition scores :: "memory \<Rightarrow> vec \<Rightarrow> vec" where
  "scores m v = map (\<lambda>te. score m v (snd te)) (ms_entries m)"

definition winners :: "(vec \<Rightarrow> int \<Rightarrow> nat list) \<Rightarrow> vec \<Rightarrow> int \<Rightarrow> nat list" where
  "winners ap neg k =
     (if k < int (length neg) then take (nat k) (ap neg (k - 1)) else [0..<length neg])"

lemma query_eq:
  assumes wf: "memory_wf m" and ne: "ms_entries m \<noteq> []" and len: "length v = ms_dim m" and k: "1 \<le> k"
  defines "neg \<equiv> map uminus (scores m v)"
  shows "query ap as m v k = Inr (m, map (\<lambda>j. (map fst (ms_entries m) ! j, scores m v ! j))
           (map ((!) (winners ap neg k)) (as (map ((!) neg) (winners ap neg k)))))"
proof -
  define nb where "nb = (ms_dim m + 7) div 8"
  have bl: "\<forall>e \<in> set (map snd (ms_entries m)). length (e_bits_packed e) = nb"
    using memory_wfD(2) [OF wf] by (auto simp: entry_wf_def nb_def)
  then have hb: "length (e_bits_packed (hd (map snd (ms_entries m)))) = nb"
    using ne by (metis hd_in_set list.map_disc_iff)
  have d8: "\<not> 8 * nb < ms_dim m" unfolding nb_def by linarith
  have enc: "encode m v = Inr (m, encode_at m (the (ms_centroid m)) v)"
    using len wf_centroid [OF wf ne] by (simp add: encode_def)
  have sc: "map (\<lambda>e. est_cosine (lookup_table (en_rotated (encode_at m (the (ms_centroid m)) v) @
        replicate (8 * nb - ms_dim m) 0)) e * e_weight e) (map snd (ms_entries m)) = scores m v"
    by (simp add: scores_def score_def padded_query_def nb_def)
  have n: "length (map fst (ms_entries m)) = length neg" by (simp add: neg_def scores_def)
  have "0 < length neg" using ne by (simp add: neg_def scores_def)
  with k have w: "(if min k (int (length neg)) < int (length neg)
      then py_take (min k (int (length neg))) (ap neg (min k (int (length neg)) - 1)) else [0..<length neg]) =
      winners ap neg k" and nob: "\<not> (min k (int (length neg)) < int (length neg) \<and>
        min k (int (length neg)) - 1 < - int (length neg))"
    by (auto simp: winners_def py_take_def min_def)
  have nb0: "\<not> (\<exists>e \<in> set (map snd (ms_entries m)). length (e_bits_packed e) \<noteq> nb)" using bl by blast
  show ?thesis
    unfolding query_def enc res_bind_simps split_conv Let_def hb sc n
    by (simp only: if_not_P [OF ne] if_not_P [OF nb0] if_not_P [OF d8] if_not_P [OF nob] w simp_thms
        neg_def [symmetric])
qed

lemma winners_spec:
  assumes ap: "argpartition_ok ap" and k: "1 \<le> k" and ne: "neg \<noteq> []"
  shows "length (winners ap neg k) = min (nat k) (length neg)"
    and "distinct (winners ap neg k)" and "set (winners ap neg k) \<subseteq> {0..<length neg}"
    and "i \<in> set (winners ap neg k) \<Longrightarrow> j < length neg \<Longrightarrow> j \<notin> set (winners ap neg k) \<Longrightarrow> neg ! i \<le> neg ! j"
proof -
  let ?w = "winners ap neg k"
  have "length ?w = min (nat k) (length neg) \<and> distinct ?w \<and> set ?w \<subseteq> {0..<length neg} \<and>
    (\<forall>i \<in> set ?w. \<forall>j < length neg. j \<notin> set ?w \<longrightarrow> neg ! i \<le> neg ! j)"
  proof (cases "k < int (length neg)")
    case False
    then show ?thesis by (auto simp: winners_def)
  next
    case True
    define q where "q = nat (k - 1)"
    define p where "p = ap neg (int q)"
    have kq: "int q = k - 1" "nat k = Suc q" "q < length neg" using k True by (auto simp: q_def)
    have m: "mset p = mset [0..<length neg]"
      and o: "\<And>i j. i \<le> q \<Longrightarrow> q \<le> j \<Longrightarrow> j < length neg \<Longrightarrow> neg ! (p ! i) \<le> neg ! (p ! j)"
      using ap kq(3) by (auto simp: argpartition_ok_def p_def)
    have dp: "distinct p" using m by (metis distinct_upt mset_eq_imp_distinct_iff)
    have sp: "set p = {0..<length neg}" using mset_eq_setD [OF m] by simp
    have lp: "length p = length neg" using mset_eq_length [OF m] by simp
    have w: "?w = take (Suc q) p" using True kq by (simp add: winners_def p_def)
    have "neg ! i \<le> neg ! j" if h: "i \<in> set ?w" "j < length neg" "j \<notin> set ?w" for i j
    proof -
      obtain a where "a < length (take (Suc q) p)" "take (Suc q) p ! a = i"
        using h(1) unfolding w in_set_conv_nth by blast
      then have a: "a \<le> q" "p ! a = i" by auto
      obtain b where b: "b < length p" "p ! b = j" using h(2) sp by (metis atLeastLessThan_iff in_set_conv_nth le0)
      have "q \<le> b"
      proof (rule ccontr)
        assume "\<not> q \<le> b"
        then have "j \<in> set (take (Suc q) p)" using b by (auto simp: in_set_conv_nth)
        with h(3) show False by (simp add: w)
      qed
      with o [OF a(1) this] a(2) b lp show ?thesis by simp
    qed
    then show ?thesis using w dp sp lp kq set_take_subset [of "Suc q" p] by auto
  qed
  then show "length ?w = min (nat k) (length neg)" "distinct ?w" "set ?w \<subseteq> {0..<length neg}"
    "i \<in> set ?w \<Longrightarrow> j < length neg \<Longrightarrow> j \<notin> set ?w \<Longrightarrow> neg ! i \<le> neg ! j" by auto
qed

subsection \<open>The estimator\<close>

text \<open>The stored code of a vector: the sign bits and the L1 norm of its rotated form.\<close>

definition codes :: "memory \<Rightarrow> vec \<Rightarrow> entry \<Rightarrow> bool" where
  "codes m v e \<longleftrightarrow>
     e_bits_packed e = en_bits (encode_at m (the (ms_centroid m)) v) \<and>
     e_l1 e = en_l1 (encode_at m (the (ms_centroid m)) v)"

definition rotated :: "memory \<Rightarrow> vec \<Rightarrow> vec" where
  "rotated m v = en_rotated (encode_at m (the (ms_centroid m)) v)"

definition sgn1 :: "real \<Rightarrow> real" where
  "sgn1 x = (if 0 \<le> x then 1 else - 1)"

lemma est_cosine_codes:
  assumes P: "length (ms_P m) = ms_dim m" and e: "codes m v e"
  shows "est_cosine (lookup_table (padded_query m q)) e =
     dot (rotated m q) (map sgn1 (rotated m v)) /
     (let l = sum_list (map abs (rotated m v)) in if 0 < l then l else 1)"
proof -
  let ?c = "the (ms_centroid m)"
  let ?s = "map (\<lambda>x. if 0 \<le> x then 1 else - 1 :: real) (rotated m v)"
  have len: "length ?s = ms_dim m" "length (rotated m q) = ms_dim m"
    using encode_at_shape(1) [OF P] by (simp_all add: rotated_def)
  have b: "e_bits_packed e = pack_bits ?s (ms_dim m)"
    using e encode_at_shape(4) [OF P] by (simp add: codes_def rotated_def)
  have "approx_inner (lookup_table (padded_query m q)) (e_bits_packed e) =
      dot (rotated m q) (map (\<lambda>x. if 0 < x then 1 else - 1) ?s)"
    using approx_inner_pack_bits [OF len] by (simp only: b padded_query_def rotated_def)
  also have "map (\<lambda>x. if 0 < x then 1 else - 1 :: real) ?s = map sgn1 (rotated m v)"
    by (simp add: sgn1_def)
  finally show ?thesis
    using e encode_at_shape(5) [OF P] by (simp add: est_cosine_def codes_def rotated_def Let_def)
qed

lemma dot_signs: "dot r (map sgn1 r) = sum_list (map abs r)"
  by (induction r) (simp_all add: dot_def sgn1_def abs_real_def)

subsection \<open>Properties\<close>

text \<open>Sorting the indices by value keeps numpy's promises; three entries to query.\<close>

definition sort_index :: "vec \<Rightarrow> nat list" where
  "sort_index xs = sort_key ((!) xs) [0..<length xs]"

lemma sort_index_ok: "argsort_ok sort_index" "argpartition_ok (\<lambda>xs _. sort_index xs)"
proof -
  show "argsort_ok sort_index" by (simp add: argsort_ok_def sort_index_def)
  have "xs ! (sort_index xs ! i) \<le> xs ! (sort_index xs ! j)" if "i \<le> j" "j < length xs" for xs :: vec and i j
    using sorted_nth_mono [of "map ((!) xs) (sort_index xs)" i j] that by (simp add: sort_index_def)
  then show "argpartition_ok (\<lambda>xs _. sort_index xs)"
    by (auto simp: argpartition_ok_def sort_index_def [abs_def] simp del: mset_upt)
qed

definition three_entries :: "real list \<Rightarrow> memory" where
  "three_entries l1s =
     \<lparr>ms_dim = 1, ms_decay_lambdas = default_lambdas, ms_seed = 0, ms_P = [[1]], ms_centroid = Some [0],
      ms_entries = map (\<lambda>(t, l). (t, \<lparr>e_trace_id = t, e_kind = ''working'', e_pinned = False, e_payload = [],
        e_bits_packed = [128], e_l1 = l, e_norm = 1, e_weight = 1, e_last_decay_ts = 0\<rparr>))
        (zip [''a'', ''b'', ''c''] l1s)\<rparr>"

lemma three_entries_wf: "memory_wf (three_entries [3, 1, 2])" "ms_entries (three_entries [3, 1, 2]) \<noteq> []"
  "ms_dim (three_entries l1s) = 1"
  by (simp_all add: memory_wf_def entry_wf_def three_entries_def VALID_KINDS_def)

text \<open>C6: (equivalence) The binary scan is exact arithmetic on the stored signs: for an entry that holds the code of a
  vector \<open>w\<close>, the score the table lookup computes for a query is the inner product of the rotated
  query with the signs of the rotated \<open>w\<close>, divided by the L1 norm of the rotated \<open>w\<close>; for a query
  with \<open>w\<close> itself it is exactly 1 (when the rotated vector is not zero), for any dimension, whole
  bytes or not.\<close>

theorem scan_is_sign_inner_product:
  assumes "memory_wf m" and "add m t w kind pinned payload now = Inr m'"
    and "map_of (ms_entries m') t = Some e"
  shows "est_cosine (lookup_table (padded_query m' q)) e =
       dot (rotated m' q) (map sgn1 (rotated m' w)) /
       (let l = sum_list (map abs (rotated m' w)) in if 0 < l then l else 1)
    \<and> (0 < sum_list (map abs (rotated m' w)) \<longrightarrow> est_cosine (lookup_table (padded_query m' w)) e = 1)"
proof -
  have m': "m' = (ensure_centroid m)\<lparr>ms_entries :=
      AList.update t (new_entry m t w kind pinned payload now) (ms_entries m)\<rparr>"
    using assms(2) by (auto simp: add_eq split: if_splits)
  have e: "e = new_entry m t w kind pinned payload now"
    using assms(3) by (simp add: m' update_conv')
  have c: "ms_centroid m' = ms_centroid (ensure_centroid m)" "ms_P m' = ms_P m" "ms_dim m' = ms_dim m"
    by (simp_all add: m')
  have "codes m' w e"
    using encode_at_cong [OF c(2,3)] by (simp add: codes_def e new_entry_def Let_def c(1))
  note est = est_cosine_codes [OF memory_wfD(3) [OF add_wf [OF assms(1,2)]] this]
  show ?thesis unfolding est Let_def by (simp add: dot_signs)
qed

lemma scan_is_sign_inner_product_witness:
  "\<exists>m' e. add (mk_memory (\<lambda>_ _. [[1, 0], [0, 1]]) 2 None 0) ''t'' [0, - 1] ''working'' False None 0 = Inr m' \<and>
     map_of (ms_entries m') ''t'' = Some e \<and> est_cosine (lookup_table (padded_query m' [0, - 1])) e = 1"
proof -
  let ?m = "mk_memory (\<lambda>_ _. [[1, 0], [0, 1]]) 2 None 0"
  obtain m' where m': "add ?m ''t'' [0, - 1] ''working'' False None 0 = Inr m'"
    by (simp add: add_eq mk_memory_def VALID_KINDS_def)
  then obtain e where e: "map_of (ms_entries m') ''t'' = Some e"
    by (auto simp: add_eq mk_memory_def VALID_KINDS_def)
  have m'eq: "ms_centroid m' = Some [0, 0]" "ms_P m' = [[1, 0], [0, 1]]" "ms_dim m' = 2"
    using m' by (auto simp: add_eq mk_memory_def VALID_KINDS_def ensure_centroid_def numeral_2_eq_2)
  have "0 < sum_list (map abs (rotated m' [0, - 1]))"
    by (simp add: rotated_def encode_at_def m'eq l2norm_def dot_def)
  then have "est_cosine (lookup_table (padded_query m' [0, - 1])) e = 1"
    using scan_is_sign_inner_product [OF memory_wf_init m' e, THEN conjunct2] by simp
  with m' e show ?thesis by blast
qed

text \<open>C7: (functional) A query returns the top \<open>k\<close>: on a well-formed, non-empty memory, \<open>min k n\<close> pairs with distinct ids,
  each with the score of the entry stored under its id, in descending order, and no entry left out
  scores higher than one returned; the memory itself is unchanged.\<close>

theorem query_returns_top_k:
  assumes "memory_wf m" and "ms_entries m \<noteq> []" and "length v = ms_dim m" and "1 \<le> k"
    and "argpartition_ok ap" and "argsort_ok as"
  shows "\<exists>res. query ap as m v k = Inr (m, res) \<and>
    length res = min (nat k) (length (ms_entries m)) \<and> distinct (map fst res) \<and>
    sorted_wrt (\<ge>) (map snd res) \<and>
    (\<forall>(t, s) \<in> set res. \<exists>e. map_of (ms_entries m) t = Some e \<and> s = score m v e) \<and>
    (\<forall>(t, e) \<in> set (ms_entries m). t \<notin> fst ` set res \<longrightarrow> (\<forall>(t', s) \<in> set res. score m v e \<le> s))"
proof -
  define neg where "neg = map uminus (scores m v)"
  define w where "w = winners ap neg k"
  define ord where "ord = map ((!) w) (as (map ((!) neg) w))"
  let ?n = "length (ms_entries m)"
  let ?res = "map (\<lambda>j. (map fst (ms_entries m) ! j, scores m v ! j)) ord"
  have ln: "length neg = ?n" "length (scores m v) = ?n" by (simp_all add: neg_def scores_def)
  have q: "query ap as m v k = Inr (m, ?res)"
    using query_eq [OF assms(1-4)] by (simp only: neg_def w_def ord_def)
  have ne: "neg \<noteq> []" using assms(2) ln by auto
  note ws = winners_spec [OF assms(5,4) ne, folded w_def, unfolded ln]
  have mo: "mset ord = mset w" unfolding ord_def by (rule argsort_mset [OF assms(6)])
  then have so: "set ord = set w" "distinct ord" "length ord = length w"
    using ws(2) by (metis mset_eq_setD, metis mset_eq_imp_distinct_iff, metis mset_eq_length)
  have d: "distinct (map fst (ms_entries m))" using memory_wfD(1) [OF assms(1)] .
  have lt: "j < ?n" if "j \<in> set ord" for j using that so(1) ws(3) by auto
  have sn: "scores m v ! j = - neg ! j" "scores m v ! j = score m v (snd (ms_entries m ! j))"
    "map fst (ms_entries m) ! j = fst (ms_entries m ! j)" if "j < ?n" for j
    using that by (simp_all add: neg_def scores_def)
  have 1: "distinct (map fst ?res)"
  proof -
    have "inj_on ((!) (map fst (ms_entries m))) (set ord)"
      using inj_on_nth [OF d, of "set ord"] lt by simp
    then show ?thesis using so(2) by (simp add: distinct_map o_def)
  qed
  have 2: "sorted_wrt (\<ge>) (map snd ?res)"
  proof -
    have "sorted (map ((!) neg) ord)" unfolding ord_def by (rule argsort_sorted [OF assms(6)])
    then have "sorted_wrt (\<lambda>i j. neg ! i \<le> neg ! j) ord" by (simp add: sorted_map)
    then have "sorted_wrt (\<lambda>i j. scores m v ! i \<ge> scores m v ! j) ord"
      by (rule sorted_wrt_mono_rel [rotated]) (use lt sn(1) in auto)
    then show ?thesis by (simp add: sorted_wrt_map)
  qed
  have 3: "\<exists>e. map_of (ms_entries m) t = Some e \<and> s = score m v e" if h: "(t, s) \<in> set ?res" for t s
  proof -
    obtain j where "j < ?n" "t = fst (ms_entries m ! j)" "s = score m v (snd (ms_entries m ! j))"
      using h lt sn(2,3) by auto
    moreover have "(fst (ms_entries m ! j), snd (ms_entries m ! j)) \<in> set (ms_entries m)"
      using \<open>j < ?n\<close> by simp
    ultimately show ?thesis using d map_of_is_SomeI by metis
  qed
  have 4: "score m v e \<le> s"
    if te: "(t, e) \<in> set (ms_entries m)" "t \<notin> fst ` set ?res" "(t', s) \<in> set ?res" for t e t' s
  proof -
    obtain i where i: "i < ?n" "ms_entries m ! i = (t, e)" using te(1) by (metis in_set_conv_nth)
    have "i \<notin> set ord"
    proof
      assume "i \<in> set ord"
      then have "t \<in> fst ` set ?res" using i by (force simp: image_iff sn(3))
      with te(2) show False by simp
    qed
    obtain j where j: "j \<in> set ord" "s = scores m v ! j" using te(3) by auto
    have "neg ! j \<le> neg ! i"
      using ws(4) [of j i] j(1) i(1) \<open>i \<notin> set ord\<close> so(1) by auto
    then show ?thesis using sn(1,2) [OF i(1)] sn(1) [OF lt [OF j(1)]] i j by simp
  qed
  have "length ?res = min (nat k) ?n" using so(3) ws(1) by simp
  moreover have "\<forall>(t, s) \<in> set ?res. \<exists>e. map_of (ms_entries m) t = Some e \<and> s = score m v e"
    using 3 by blast
  moreover have "\<forall>(t, e) \<in> set (ms_entries m). t \<notin> fst ` set ?res \<longrightarrow> (\<forall>(t', s) \<in> set ?res. score m v e \<le> s)"
    using 4 by blast
  ultimately show ?thesis by (intro exI [of _ ?res] conjI q 1 2)
qed

lemma query_returns_top_k_witness:
  "\<exists>res. query (\<lambda>xs _. sort_index xs) sort_index (three_entries [3, 1, 2]) [1] 2 = Inr (three_entries [3, 1, 2], res) \<and>
     length res = 2 \<and> sorted_wrt (\<ge>) (map snd res)"
  using query_returns_top_k [of "three_entries [3, 1, 2]" "[1]" 2 "\<lambda>xs _. sort_index xs" sort_index]
  by (auto simp: three_entries_wf sort_index_ok) (simp add: three_entries_def)

lemma decay_filter_map:
  "(\<And>e. e \<in> snd ` set xs \<Longrightarrow> g (f e) = h e) \<Longrightarrow> (\<And>e. e \<in> snd ` set xs \<Longrightarrow> K (h e) \<Longrightarrow> K (f e)) \<Longrightarrow>
   filter (\<lambda>(t, e). K e) (map (\<lambda>(t, e). (t, g e)) (filter (\<lambda>(t, e). K e) (map (\<lambda>(t, e). (t, f e)) xs))) =
   filter (\<lambda>(t, e). K e) (map (\<lambda>(t, e). (t, h e)) xs)"
proof (induction xs)
  case (Cons a xs)
  obtain t e where a: "a = (t, e)" by fastforce
  have gf: "g (f e) = h e" and K: "K (h e) \<Longrightarrow> K (f e)" using Cons.prems by (simp_all add: a)
  have "filter (\<lambda>(t, e). K e) (map (\<lambda>(t, e). (t, g e)) (filter (\<lambda>(t, e). K e) (map (\<lambda>(t, e). (t, f e)) xs))) =
      filter (\<lambda>(t, e). K e) (map (\<lambda>(t, e). (t, h e)) xs)"
    by (rule Cons.IH) (use Cons.prems in simp_all)
  with gf K show ?case by (cases "K (f e)") (auto simp: a)
qed simp

text \<open>C8: (functional) Decay is a law of elapsed time, not of how often the tick runs: from a well-formed memory with
  non-negative rates whose entries were stamped no later than \<open>t1\<close>, ticking at \<open>t1\<close> and then at \<open>t2\<close>
  leaves exactly the memory that one tick at \<open>t2\<close> leaves (weights, stamps and evictions), so a
  repeated tick at the same time changes nothing; and a tick keeps exactly the pinned entries and
  those whose decayed weight is at least \<open>THETA\<close>.\<close>

theorem decay_is_a_law_of_time:
  assumes "memory_wf m" and "rates_ok m"
    and "\<forall>(t, e) \<in> set (ms_entries m). e_last_decay_ts e \<le> t1" and "t1 \<le> t2"
  shows "decay_step (decay_step m t1) t2 = decay_step m t2 \<and>
    (map_of (ms_entries (decay_step m t2)) t =
      (case map_of (ms_entries m) t of
         None \<Rightarrow> None
       | Some e \<Rightarrow>
           let e' = (if e_pinned e then e\<lparr>e_last_decay_ts := t2\<rparr>
                     else e\<lparr>e_weight := e_weight e * exp (- decay_rate (ms_decay_lambdas m) (e_kind e) * (t2 - e_last_decay_ts e)),
                            e_last_decay_ts := t2\<rparr>)
           in if e_pinned e' \<or> THETA \<le> e_weight e' then Some e' else None))"
proof (rule conjI)
  have d: "distinct (map fst (ms_entries m))" using memory_wfD(1) [OF assms(1)] .
  have d1: "distinct (map fst (ms_entries (decay_step m t1)))"
    using memory_wfD(1) [OF decay_step_wf [OF assms(1,2)]] .
  have ts: "e_last_decay_ts e \<le> t1" "0 \<le> e_weight e" if "e \<in> snd ` set (ms_entries m)" for e
    using that assms(3) memory_wfD(2) [OF assms(1)] by (auto simp: entry_wf_def)
  have "ms_entries (decay_step (decay_step m t1) t2) = ms_entries (decay_step m t2)"
    unfolding decay_step_entries [OF d1] decay_step_entries [OF d] decay_step_frame
    by (rule decay_filter_map)
       (use ts assms(2,4) in \<open>auto simp: decay_entry_compose intro: decay_weight_antimono\<close>)
  then show "decay_step (decay_step m t1) t2 = decay_step m t2"
    by (intro memory.equality) simp_all
  let ?es = "map (\<lambda>(t, e). (t, decay_entry (ms_decay_lambdas m) t2 e)) (ms_entries m)"
  have "map fst ?es = map fst (ms_entries m)" by auto
  then have "distinct (map fst ?es)" using d by (simp only:)
  then have f: "map_of (filter (\<lambda>(t, e). kept e) ?es) t =
      (case map_of ?es t of None \<Rightarrow> None | Some e \<Rightarrow> if kept e then Some e else None)"
    by (rule map_of_filter_val)
  have g: "decay_entry (ms_decay_lambdas m) t2 e = (if e_pinned e then e\<lparr>e_last_decay_ts := t2\<rparr>
       else e\<lparr>e_weight := e_weight e * exp (- decay_rate (ms_decay_lambdas m) (e_kind e) * (t2 - e_last_decay_ts e)),
              e_last_decay_ts := t2\<rparr>)" if "map_of (ms_entries m) t = Some e" for e
    using ts(1) [of e] assms(4) map_of_SomeD [OF that] by (force simp: decay_entry_def Let_def)
  show "map_of (ms_entries (decay_step m t2)) t =
      (case map_of (ms_entries m) t of
         None \<Rightarrow> None
       | Some e \<Rightarrow>
           let e' = (if e_pinned e then e\<lparr>e_last_decay_ts := t2\<rparr>
                     else e\<lparr>e_weight := e_weight e * exp (- decay_rate (ms_decay_lambdas m) (e_kind e) * (t2 - e_last_decay_ts e)),
                            e_last_decay_ts := t2\<rparr>)
           in if e_pinned e' \<or> THETA \<le> e_weight e' then Some e' else None)"
    unfolding decay_step_entries [OF d] f
    by (cases "map_of (ms_entries m) t") (simp_all add: map_of_map g kept_def Let_def)
qed

lemma decay_is_a_law_of_time_witness:
  "decay_step (decay_step (three_entries [3, 1, 2]) 10) 20 = decay_step (three_entries [3, 1, 2]) 20"
  using decay_is_a_law_of_time [of "three_entries [3, 1, 2]" 10 20 "''a''"]
  by (simp add: three_entries_wf(1)) (simp add: three_entries_def rates_ok_def default_lambdas_def)

end
