(* ===== verification/Memory_Root.thy ===== *)
theory Memory_Root
  imports Memory_Service
begin

text \<open>
  The pinned Merkle root of \<open>agents/memory_service.py\<close>: it is a function of the pinned ids, codes
  and payloads only, so neither the order of insertion, nor decay, nor unpinned entries move it,
  and up to collisions among the inputs that are hashed it determines them.
\<close>

subsection \<open>What the root depends on\<close>

type_synonym pinned_item = "string \<times> byte list \<times> dict"

definition item_of :: "entry \<Rightarrow> pinned_item" where
  "item_of e = (e_trace_id e, e_bits_packed e, e_payload e)"

definition item_preimage :: "(rat \<Rightarrow> string) \<Rightarrow> pinned_item \<Rightarrow> byte list" where
  "item_preimage fr = (\<lambda>(t, bits, d).
     utf8 t @ [0] @ bits @ [0] @ utf8 (canonical_json fr (JObj d)))"

definition pinned_items :: "memory \<Rightarrow> pinned_item list" where
  "pinned_items m = map item_of (pinned_sorted m)"

lemma leaf_of_item: "pinned_leaf H fr e = H (item_preimage fr (item_of e))"
  by (simp add: pinned_leaf_def leaf_preimage_def item_preimage_def item_of_def)

lemma root_of_items:
  "pinned_merkle_root H fr m =
     (if pinned_items m = [] then H []
      else merkle_reduce H (map (\<lambda>i. H (item_preimage fr i)) (pinned_items m)))"
  by (simp add: pinned_merkle_root_def pinned_items_def Let_def leaf_of_item [abs_def] o_def)

text \<open>The pinned entries as a map from ids.\<close>

definition pinned_view :: "memory \<Rightarrow> string \<Rightarrow> (byte list \<times> dict) option" where
  "pinned_view m t =
     (case map_of (ms_entries m) t of
        None \<Rightarrow> None
      | Some e \<Rightarrow> if e_pinned e then Some (e_bits_packed e, e_payload e) else None)"

lemma set_pinned_items:
  assumes "memory_wf m"
  shows "set (pinned_items m) = {(t, b, d). pinned_view m t = Some (b, d)}"
proof -
  have d: "distinct (map fst (ms_entries m))" using memory_wfD(1) [OF assms] .
  have t: "e_trace_id e = t" if "(t, e) \<in> set (ms_entries m)" for t e
    using memory_wfD(2) [OF assms that] by (simp add: entry_wf_def)
  have 1: "pinned_view m t = Some (b, p) \<longleftrightarrow>
      (\<exists>e. (t, e) \<in> set (ms_entries m) \<and> e_pinned e \<and> e_bits_packed e = b \<and> e_payload e = p)" for t b p
  proof -
    have "pinned_view m t = Some (b, p) \<longleftrightarrow>
        (\<exists>e. map_of (ms_entries m) t = Some e \<and> e_pinned e \<and> e_bits_packed e = b \<and> e_payload e = p)"
      by (auto simp: pinned_view_def split: option.splits)
    with map_of_eq_Some_iff [OF d, of t] show ?thesis by simp
  qed
  show ?thesis
    unfolding pinned_items_def pinned_sorted_def item_of_def
    using t by (fastforce simp: 1 image_iff)
qed

lemma map_fst_pinned_items: "map fst (pinned_items m) = map e_trace_id (pinned_sorted m)"
  by (simp add: pinned_items_def item_of_def)

lemma entries_trace_ids:
  assumes "memory_wf m"
  shows "map e_trace_id (map snd (ms_entries m)) = map fst (ms_entries m)"
  using memory_wfD(2) [OF assms] by (auto simp: entry_wf_def)

lemma pinned_items_sorted:
  assumes "memory_wf m"
  shows "sorted (map fst (pinned_items m))" and "distinct (map fst (pinned_items m))"
proof -
  show "sorted (map fst (pinned_items m))"
    by (simp add: map_fst_pinned_items pinned_sorted_def)
  have "distinct (map e_trace_id (map snd (ms_entries m)))"
    using memory_wfD(1) [OF assms] unfolding entries_trace_ids [OF assms] .
  then have "distinct (map e_trace_id (filter e_pinned (map snd (ms_entries m))))"
    by (rule distinct_map_filter)
  then have i: "inj_on e_trace_id (set (pinned_sorted m))" and "distinct (pinned_sorted m)"
    by (simp_all add: pinned_sorted_def distinct_map)
  then show "distinct (map fst (pinned_items m))"
    by (simp add: map_fst_pinned_items distinct_map)
qed

lemma sorted_keys_unique:
  assumes "sorted (map fst xs)" and "distinct (map fst xs)"
    and "sorted (map fst ys)" and "distinct (map fst ys)" and "set xs = set ys"
  shows "xs = ys"
proof -
  have "mset xs = mset ys"
    using assms set_eq_iff_mset_eq_distinct [of xs ys] by (simp add: distinct_map)
  then have "sort_key fst xs = ys"
    using assms(2,3) by (intro sort_key_inj_key_eq) (simp_all add: distinct_map)
  moreover have "sort_key fst xs = xs"
    using assms(1,2) by (intro sort_key_inj_key_eq) (simp_all add: distinct_map)
  ultimately show ?thesis by simp
qed

lemma pinned_items_view:
  "memory_wf m \<Longrightarrow> memory_wf m' \<Longrightarrow> pinned_view m = pinned_view m' \<Longrightarrow> pinned_items m = pinned_items m'"
  by (rule sorted_keys_unique [OF pinned_items_sorted pinned_items_sorted]) (simp_all only: set_pinned_items)

lemma root_view:
  "memory_wf m \<Longrightarrow> memory_wf m' \<Longrightarrow> pinned_view m = pinned_view m' \<Longrightarrow>
   pinned_merkle_root H fr m = pinned_merkle_root H fr m'"
  using pinned_items_view [of m m'] by (simp only: root_of_items)

subsection \<open>Operations and the pinned view\<close>

lemma decay_view:
  assumes "distinct (map fst (ms_entries m))"
  shows "pinned_view (decay_step m now) = pinned_view m"
proof (rule ext)
  fix t
  let ?es = "map (\<lambda>(t, e). (t, decay_entry (ms_decay_lambdas m) now e)) (ms_entries m)"
  have m: "map_of ?es t = map_option (decay_entry (ms_decay_lambdas m) now) (map_of (ms_entries m) t)"
    by (simp add: map_of_map)
  have "map fst ?es = map fst (ms_entries m)" by auto
  then have "distinct (map fst ?es)" using assms by (simp only:)
  then have f: "map_of (filter (\<lambda>(t, e). kept e) ?es) t =
      (case map_of ?es t of None \<Rightarrow> None | Some e \<Rightarrow> if kept e then Some e else None)"
    by (rule map_of_filter_val)
  show "pinned_view (decay_step m now) t = pinned_view m t"
    unfolding pinned_view_def decay_step_entries [OF assms] f m
    by (simp add: kept_def split: option.split)
qed

lemma add_view:
  assumes "add m t v kind pinned payload now = Inr m'"
  shows "pinned_view m' =
     (pinned_view m)(t := if pinned \<or> kind = ''pinned''
        then Some (en_bits (encode_at m (the (ms_centroid (ensure_centroid m))) v),
                   case payload of None \<Rightarrow> [] | Some d \<Rightarrow> d)
        else None)"
  using assms
  by (auto simp: add_eq pinned_view_def update_conv' new_entry_def Let_def fun_eq_iff split: if_splits)

subsection \<open>The root determines the pinned items\<close>

text \<open>Every input that the reduction of a layer hashes.\<close>

function node_inputs :: "(byte list \<Rightarrow> byte list) \<Rightarrow> byte list list \<Rightarrow> byte list list" where
  "node_inputs H layer =
     (if 1 < length layer
      then pair_up (pad_layer layer) @ node_inputs H (map H (pair_up (pad_layer layer))) else [])"
  by auto
termination
  by (relation "measure (length \<circ> snd)") (auto simp: length_pair_up pad_layer_def, presburger)

declare node_inputs.simps [simp del]

definition root_inputs :: "(byte list \<Rightarrow> byte list) \<Rightarrow> (rat \<Rightarrow> string) \<Rightarrow> memory \<Rightarrow> byte list list" where
  "root_inputs H fr m =
     (let ps = map (item_preimage fr) (pinned_items m) in ps @ node_inputs H (map H ps))"

lemma pair_up_inj:
  "length xs = length ys \<Longrightarrow> even (length xs) \<Longrightarrow> \<forall>x \<in> set xs. length x = n \<Longrightarrow>
   \<forall>y \<in> set ys. length y = n \<Longrightarrow> pair_up xs = pair_up ys \<Longrightarrow> xs = ys"
proof (induction xs arbitrary: ys rule: pair_up.induct)
  case (1 a b xs)
  then obtain c d ys' where ys: "ys = c # d # ys'"
    by (metis length_Suc_conv)
  with 1 show ?case by auto
qed auto

lemma pad_layer_props:
  "layer \<noteq> [] \<Longrightarrow> set (pad_layer layer) = set layer" "even (length (pad_layer layer))"
  by (auto simp: pad_layer_def)

lemma pad_layer_inj:
  "length xs = length ys \<Longrightarrow> pad_layer xs = pad_layer ys \<Longrightarrow> xs = ys"
  by (auto simp: pad_layer_def split: if_splits)

lemma map_inj_on:
  "map f xs = map f ys \<Longrightarrow> inj_on f (set xs \<union> set ys) \<Longrightarrow> xs = ys"
  by (metis inj_on_map_eq_map)

lemma merkle_reduce_inj:
  "\<forall>x. length (H x) = n \<Longrightarrow> length xs = length ys \<Longrightarrow> xs \<noteq> [] \<Longrightarrow>
    \<forall>x \<in> set xs. length x = n \<Longrightarrow> \<forall>y \<in> set ys. length y = n \<Longrightarrow>
    inj_on H (set (node_inputs H xs) \<union> set (node_inputs H ys)) \<Longrightarrow>
    merkle_reduce H xs = merkle_reduce H ys \<Longrightarrow> xs = ys"
proof (induction H xs arbitrary: ys rule: merkle_reduce.induct)
  case (1 H xs)
  show ?case
  proof (cases "1 < length xs")
    case False
    with "1.prems"(3) obtain x where x: "xs = [x]" by (cases xs) auto
    with "1.prems"(2) obtain y where y: "ys = [y]" by (cases ys) auto
    from "1.prems"(7) show ?thesis by (simp add: x y merkle_reduce.simps)
  next
    case True
    let ?px = "pair_up (pad_layer xs)" and ?py = "pair_up (pad_layer ys)"
    have ny: "1 < length ys" "ys \<noteq> []" using True "1.prems"(2) by auto
    have ni: "node_inputs H xs = ?px @ node_inputs H (map H ?px)"
      "node_inputs H ys = ?py @ node_inputs H (map H ?py)"
      using True ny by (simp_all add: node_inputs.simps [of H xs] node_inputs.simps [of H ys])
    have lp: "length (pad_layer xs) = length (pad_layer ys)"
      using "1.prems"(2) by (simp add: pad_layer_def)
    have "length (pad_layer xs) \<ge> 2" using True by (simp add: pad_layer_def)
    then have ne: "map H ?px \<noteq> []" by (simp add: length_pair_up flip: length_greater_0_conv)
    have "map H ?px = map H ?py"
    proof (rule "1.IH" [OF True])
      show "length (map H ?px) = length (map H ?py)" by (simp add: length_pair_up lp)
      show "inj_on H (set (node_inputs H (map H ?px)) \<union> set (node_inputs H (map H ?py)))"
        using "1.prems"(6) by (rule inj_on_subset) (auto simp: ni)
      show "merkle_reduce H (map H ?px) = merkle_reduce H (map H ?py)"
        using "1.prems"(7) True ny
        by (simp add: merkle_reduce.simps [of H xs] merkle_reduce.simps [of H ys])
    qed (use ne "1.prems"(1) in auto)
    moreover have "inj_on H (set ?px \<union> set ?py)"
      using "1.prems"(6) by (rule inj_on_subset) (auto simp: ni)
    ultimately have "?px = ?py" by (rule map_inj_on)
    then have "pad_layer xs = pad_layer ys"
      using "1.prems"(3-5) ny(2) pad_layer_props by (intro pair_up_inj [OF lp]) auto
    then show ?thesis using "1.prems"(2) pad_layer_inj by blast
  qed
qed

text \<open>One leaf: the id, the code and the payload can be read back from the bytes that are hashed.\<close>

lemma unat_of_char: "unat (of_char c :: byte) = of_char c"
proof -
  have "unat (of_nat (of_char c) :: byte) = of_char c mod 2 ^ LENGTH(8)" by (rule unat_of_nat)
  also have "\<dots> = of_char c" by (rule mod_less) (use of_char_lt [of c] in simp)
  finally show ?thesis by (simp only: of_nat_of_char)
qed

lemma of_char_byte_eq: "(of_char c :: byte) = of_char d \<longleftrightarrow> c = d"
  by (metis unat_of_char char_eq_iff)

lemma utf8_inj: "utf8 s = utf8 t \<Longrightarrow> s = t"
  unfolding utf8_def by (rule map_injective) (auto intro!: injI simp: of_char_byte_eq)

definition no_nul :: "string \<Rightarrow> bool" where
  "no_nul s \<longleftrightarrow> CHR 0x00 \<notin> set s"

lemma no_nul_utf8: "no_nul s \<longleftrightarrow> 0 \<notin> set (utf8 s)"
proof -
  have "(0 :: byte) = of_char CHR 0x00" by simp
  then have "0 = (of_char c :: byte) \<longleftrightarrow> c = CHR 0x00" for c
    using of_char_byte_eq [of "CHR 0x00" c] by auto
  then have "0 \<in> set (utf8 s) \<longleftrightarrow> CHR 0x00 \<in> set s"
    by (simp only: utf8_def set_map image_iff) blast
  then show ?thesis by (simp only: no_nul_def)
qed

lemma last_split_unique:
  assumes "z \<notin> set ys" and "z \<notin> set ys'" and "xs @ z # ys = xs' @ z # ys'"
  shows "xs = xs' \<and> ys = ys'"
proof -
  have tw: "takeWhile (\<lambda>a. a \<noteq> z) (rev vs @ z # ws) = rev vs" if "z \<notin> set vs" for vs ws
    using that by (subst takeWhile_append2) auto
  have "rev ys @ z # rev xs = rev ys' @ z # rev xs'"
    using arg_cong [OF assms(3), of rev] by simp
  then have "takeWhile (\<lambda>a. a \<noteq> z) (rev ys @ z # rev xs) = takeWhile (\<lambda>a. a \<noteq> z) (rev ys' @ z # rev xs')"
    by (simp only:)
  then have "rev ys = rev ys'" by (simp only: tw [OF assms(1)] tw [OF assms(2)])
  then have "ys = ys'" by simp
  then show ?thesis using assms(3) by simp
qed

lemma item_preimage_inj:
  assumes "no_nul (canonical_json fr (JObj d))" and "no_nul (canonical_json fr (JObj d'))"
    and "length b = length b'"
    and "item_preimage fr (t, b, d) = item_preimage fr (t', b', d')"
  shows "t = t' \<and> b = b' \<and> canonical_json fr (JObj d) = canonical_json fr (JObj d')"
proof -
  have "(utf8 t @ 0 # b) @ 0 # utf8 (canonical_json fr (JObj d)) =
      (utf8 t' @ 0 # b') @ 0 # utf8 (canonical_json fr (JObj d'))"
    using assms(4) by (simp add: item_preimage_def)
  from last_split_unique [OF _ _ this] assms(1,2)
  have a: "utf8 t @ 0 # b = utf8 t' @ 0 # b'"
    and c: "utf8 (canonical_json fr (JObj d)) = utf8 (canonical_json fr (JObj d'))"
    by (auto simp: no_nul_utf8)
  from a assms(3) have "utf8 t = utf8 t' \<and> b = b'" by auto
  then show ?thesis using utf8_inj c by blast
qed

definition canonical_item :: "pinned_item \<Rightarrow> string \<times> byte list \<times> json" where
  "canonical_item = (\<lambda>(t, b, d). (t, b, sort_keys (JObj d)))"

lemma pinned_items_length:
  "memory_wf m \<Longrightarrow> (t, b, d) \<in> set (pinned_items m) \<Longrightarrow> length b = (ms_dim m + 7) div 8"
  using memory_wfD(2) [of m]
  by (auto simp: set_pinned_items pinned_view_def entry_wf_def dest!: map_of_SomeD split: option.splits if_splits)

lemma items_of_preimages:
  assumes "float_repr_ok fr" and "length xs = length ys"
    and "\<forall>(t, b, d) \<in> set xs. length b = n" and "\<forall>(t, b, d) \<in> set ys. length b = n"
    and "map (item_preimage fr) xs = map (item_preimage fr) ys"
  shows "map canonical_item xs = map canonical_item ys"
  using assms(2-5)
proof (induction xs ys rule: list_induct2)
  case (Cons x xs y ys)
  obtain t b d where x: "x = (t, b, d)" by (cases x)
  obtain t' b' d' where y: "y = (t', b', d')" by (cases y)
  have nn: "no_nul (canonical_json fr v)" for v
    using no_nul_json_dumps [OF assms(1)] by (simp add: no_nul_def canonical_json_def)
  from Cons.prems item_preimage_inj [OF nn nn, of b b' t d t' d'] canonical_json_eq_iff [OF assms(1)]
  have "canonical_item x = canonical_item y" by (simp add: x y canonical_item_def)
  with Cons show ?case by simp
qed simp

lemma root_inj:
  assumes wf: "memory_wf m" "memory_wf m'" and dim: "ms_dim m = ms_dim m'"
    and fr: "float_repr_ok fr" and H: "\<forall>x. length (H x) = n"
    and len: "length (pinned_items m) = length (pinned_items m')"
    and inj: "inj_on H (set (root_inputs H fr m) \<union> set (root_inputs H fr m'))"
    and root: "pinned_merkle_root H fr m = pinned_merkle_root H fr m'"
  shows "map canonical_item (pinned_items m) = map canonical_item (pinned_items m')"
proof (cases "pinned_items m = []")
  case True
  then show ?thesis using len by simp
next
  case False
  then have ne: "pinned_items m' \<noteq> []" using len by auto
  let ?ps = "map (item_preimage fr) (pinned_items m)" and ?qs = "map (item_preimage fr) (pinned_items m')"
  have "merkle_reduce H (map H ?ps) = merkle_reduce H (map H ?qs)"
    using root False ne by (simp add: root_of_items o_def)
  moreover have "inj_on H (set (node_inputs H (map H ?ps)) \<union> set (node_inputs H (map H ?qs)))"
    by (rule inj_on_subset [OF inj]) (auto simp: root_inputs_def Let_def)
  ultimately have "map H ?ps = map H ?qs"
    using len False H by (intro merkle_reduce_inj [where n = n]) auto
  moreover have "inj_on H (set ?ps \<union> set ?qs)"
    by (rule inj_on_subset [OF inj]) (auto simp: root_inputs_def Let_def)
  ultimately have "?ps = ?qs" by (rule map_inj_on)
  then show ?thesis
    using pinned_items_length [OF wf(1)] pinned_items_length [OF wf(2)] dim
    by (intro items_of_preimages [OF fr len, where n = "(ms_dim m + 7) div 8"]) auto
qed

subsection \<open>Properties of the root\<close>

text \<open>A one-dimensional memory with one pinned rule, for the concrete instances.\<close>

definition rule_memory :: "dict \<Rightarrow> memory" where
  "rule_memory d =
     \<lparr>ms_dim = 1, ms_decay_lambdas = default_lambdas, ms_seed = 0, ms_P = [[1]], ms_centroid = Some [0],
      ms_entries = [(''rule:0'', \<lparr>e_trace_id = ''rule:0'', e_kind = ''pinned'', e_pinned = True, e_payload = d,
        e_bits_packed = [128], e_l1 = 1, e_norm = 1, e_weight = 1, e_last_decay_ts = 0\<rparr>)]\<rparr>"

lemma rule_memory_facts:
  "memory_wf (rule_memory d)" "rates_ok (rule_memory d)" "ms_dim (rule_memory d) = 1"
  "ms_centroid (rule_memory d) = Some [0]" "pinned_items (rule_memory d) = [(''rule:0'', [128], d)]"
  "pinned_view (rule_memory d) t = (if t = ''rule:0'' then Some ([128], d) else None)"
  by (simp_all add: memory_wf_def entry_wf_def rule_memory_def VALID_KINDS_def rates_ok_def
      default_lambdas_def pinned_items_def pinned_sorted_def item_of_def pinned_view_def)

text \<open>What happens between two anchorings: decay ticks (\<open>Inl\<close>) and unpinned insertions (\<open>Inr\<close>).\<close>

type_synonym background_op = "real + string \<times> vec \<times> string \<times> dict option \<times> real"

fun unpinned_op :: "memory \<Rightarrow> background_op \<Rightarrow> bool" where
  "unpinned_op m (Inl now) = True"
| "unpinned_op m (Inr (t, v, kind, payload, now)) = (kind \<noteq> ''pinned'' \<and> pinned_view m t = None)"

lemma unpinned_op_cong: "pinned_view m = pinned_view m' \<Longrightarrow> unpinned_op m op = unpinned_op m' op"
  by (cases "(m, op)" rule: unpinned_op.cases) simp_all

fun background_run :: "background_op list \<Rightarrow> memory \<Rightarrow> memory res" where
  "background_run [] m = Inr m"
| "background_run (Inl now # ops) m = background_run ops (decay_step m now)"
| "background_run (Inr (t, v, kind, payload, now) # ops) m =
     res_bind (add m t v kind False payload now) (background_run ops)"

lemma background_run_view:
  "memory_wf m \<Longrightarrow> rates_ok m \<Longrightarrow>
   \<forall>op \<in> set ops. unpinned_op m op \<Longrightarrow>
   background_run ops m = Inr m' \<Longrightarrow>
   memory_wf m' \<and> pinned_view m' = pinned_view m"
proof (induction ops m rule: background_run.induct)
  case (2 now ops m)
  have v: "pinned_view (decay_step m now) = pinned_view m"
    using decay_view [OF memory_wfD(1) [OF "2.prems"(1)]] .
  have "memory_wf (decay_step m now)" "rates_ok (decay_step m now)"
    using decay_step_wf "2.prems" by (simp_all add: rates_ok_def)
  from "2.IH" [OF this] "2.prems"(3,4) show ?case
    using unpinned_op_cong [OF v] by (simp add: v)
next
  case (3 t v kind payload now ops m)
  then obtain m1 where m1: "add m t v kind False payload now = Inr m1" "background_run ops m1 = Inr m'"
    by (auto simp: res_bind_eq_Inr)
  have tv: "kind \<noteq> ''pinned''" "pinned_view m t = None" using "3.prems"(3) by auto
  then have v: "pinned_view m1 = pinned_view m" by (simp add: add_view [OF m1(1)] fun_upd_idem)
  have "rates_ok m1" using "3.prems"(2) m1(1) by (auto simp: add_eq rates_ok_def split: if_splits)
  moreover have "\<forall>op \<in> set ops. unpinned_op m1 op"
    using "3.prems"(3) unpinned_op_cong [OF v] by simp
  ultimately show ?case
    using "3.IH" [OF add_wf [OF "3.prems"(1) m1(1)]] m1(2) unfolding v by blast
qed auto

text \<open>C4: (invariant) The anchored root is stable: over any sequence of decay ticks at any clock readings, and any
  insertions of entries that are not pinned under ids that no pinned entry uses, the pinned Merkle
  root stays what it was, and every pinned entry keeps its code, payload and weight 1.\<close>

theorem root_is_stable:
  assumes "memory_wf m" and "rates_ok m"
    and "\<forall>op \<in> set ops. unpinned_op m op"
    and "background_run ops m = Inr m'"
  shows "pinned_merkle_root H fr m' = pinned_merkle_root H fr m \<and>
    (\<forall>t b d. pinned_view m t = Some (b, d) \<longrightarrow>
       pinned_view m' t = Some (b, d) \<and> weight_of m' t = Inr 1)"
proof -
  have r: "memory_wf m'" "pinned_view m' = pinned_view m"
    using background_run_view [OF assms] by auto
  have "weight_of m' t = Inr 1" if "pinned_view m' t = Some (b, d)" for t b d
    using that memory_wfD(2) [OF r(1)]
    by (auto simp: pinned_view_def weight_of_def entry_wf_def dest!: map_of_SomeD split: option.splits if_splits)
  then show ?thesis using root_view [OF r(1) assms(1) r(2)] r(2) by auto
qed

lemma root_is_stable_witness:
  "\<forall>H fr. \<exists>m'. background_run [Inr (''t'', [2], ''working'', None, 5), Inl 100, Inl 40] (rule_memory [(''n'', JInt 1)]) = Inr m' \<and>
     pinned_merkle_root H fr m' = pinned_merkle_root H fr (rule_memory [(''n'', JInt 1)])"
proof (intro allI)
  fix H fr
  obtain m' where m': "background_run [Inr (''t'', [2], ''working'', None, 5), Inl 100, Inl 40]
      (rule_memory [(''n'', JInt 1)]) = Inr m'"
    by (simp add: add_eq VALID_KINDS_def rule_memory_facts)
  from root_is_stable [OF rule_memory_facts(1,2) _ this, of H fr]
  show "\<exists>m'. background_run [Inr (''t'', [2], ''working'', None, 5), Inl 100, Inl 40] (rule_memory [(''n'', JInt 1)]) = Inr m' \<and>
     pinned_merkle_root H fr m' = pinned_merkle_root H fr (rule_memory [(''n'', JInt 1)])"
    using m' by (auto simp: rule_memory_facts)
qed

text \<open>The root does not depend on the order of insertion: adding two entries under different ids in
  either order, at whatever times, gives memories with the same root, also when no centroid was set
  and the first insertion arms it.\<close>

theorem root_is_order_independent:
  assumes "memory_wf m" and "a \<noteq> b"
    and "add m a va ka pa da ta = Inr m1" and "add m1 b vb kb pb db tb = Inr m2"
    and "add m b vb kb pb db tb' = Inr n1" and "add n1 a va ka pa da ta' = Inr n2"
  shows "pinned_merkle_root H fr m2 = pinned_merkle_root H fr n2"
proof (rule root_view)
  show "memory_wf m2" "memory_wf n2" using assms add_wf by blast+
  have e: "ensure_centroid m1 = m1" "ms_centroid m1 = ms_centroid (ensure_centroid m)"
    "ensure_centroid n1 = n1" "ms_centroid n1 = ms_centroid (ensure_centroid m)"
    "ms_P m1 = ms_P m" "ms_dim m1 = ms_dim m" "ms_P n1 = ms_P m" "ms_dim n1 = ms_dim m"
    using assms(3,5) ensure_centroid_simps(6) [of m]
    by (auto simp: add_eq ensure_centroid_def split: if_splits option.splits)
  have "encode_at m1 = encode_at m" "encode_at n1 = encode_at m"
    using e by (auto simp: fun_eq_iff intro: encode_at_cong)
  with e show "pinned_view m2 = pinned_view n2"
    unfolding add_view [OF assms(4)] add_view [OF assms(6)] add_view [OF assms(3)] add_view [OF assms(5)]
    using assms(2) by (auto simp: fun_eq_iff)
qed

lemma root_is_order_independent_witness:
  "\<forall>H fr. \<exists>m2 n2. res_bind (add (rule_memory []) ''a'' [1] ''pinned'' True None 1) (\<lambda>m. add m ''b'' [2] ''pinned'' True None 2) = Inr m2 \<and>
     res_bind (add (rule_memory []) ''b'' [2] ''pinned'' True None 3) (\<lambda>m. add m ''a'' [1] ''pinned'' True None 4) = Inr n2 \<and>
     pinned_merkle_root H fr m2 = pinned_merkle_root H fr n2"
proof (intro allI)
  fix H fr
  have k: "''pinned'' \<in> set VALID_KINDS" by (simp add: VALID_KINDS_def)
  obtain m1 n1 where m1: "add (rule_memory []) ''a'' [1] ''pinned'' True None 1 = Inr m1" "ms_dim m1 = 1"
    and n1: "add (rule_memory []) ''b'' [2] ''pinned'' True None 3 = Inr n1" "ms_dim n1 = 1"
    by (auto simp: add_eq k rule_memory_facts)
  obtain m2 n2 where m2: "add m1 ''b'' [2] ''pinned'' True None 2 = Inr m2"
    and n2: "add n1 ''a'' [1] ''pinned'' True None 4 = Inr n2"
    using m1(2) n1(2) by (auto simp: add_eq k)
  have "''a'' \<noteq> ''b''" by simp
  from root_is_order_independent [OF rule_memory_facts(1) this m1(1) m2 n1(1) n2, of H fr] m1 n1 m2 n2
  show "\<exists>m2 n2. res_bind (add (rule_memory []) ''a'' [1] ''pinned'' True None 1) (\<lambda>m. add m ''b'' [2] ''pinned'' True None 2) = Inr m2 \<and>
     res_bind (add (rule_memory []) ''b'' [2] ''pinned'' True None 3) (\<lambda>m. add m ''a'' [1] ''pinned'' True None 4) = Inr n2 \<and>
     pinned_merkle_root H fr m2 = pinned_merkle_root H fr n2" by auto
qed

text \<open>C5: (safety) The root is tamper-evident: two memories of the same dimension and number of pinned entries with
  the same root hold the same pinned ids, codes and payloads (payloads up to the order of object
  keys), unless the hash collides on two of the inputs that computing the two roots hashed. Ids may
  contain any character, the separator byte included.\<close>

theorem root_is_tamper_evident:
  assumes "memory_wf m" and "memory_wf m'" and "ms_dim m = ms_dim m'"
    and "float_repr_ok fr" and "\<forall>x. length (H x) = 32"
    and "length (pinned_items m) = length (pinned_items m')"
    and "inj_on H (set (root_inputs H fr m) \<union> set (root_inputs H fr m'))"
    and "pinned_merkle_root H fr m = pinned_merkle_root H fr m'"
  shows "map canonical_item (pinned_items m) = map canonical_item (pinned_items m')"
  by (rule root_inj [OF assms])

lemma root_is_tamper_evident_witness:
  "map canonical_item (pinned_items (rule_memory [(''a'', JInt 1), (''b'', JInt 2)])) =
   map canonical_item (pinned_items (rule_memory [(''b'', JInt 2), (''a'', JInt 1)]))"
proof (rule root_is_tamper_evident [of _ _ ratio_repr "\<lambda>_. replicate 32 0"])
  have "sort_keys (JObj [(''a'', JInt 1), (''b'', JInt 2)]) = sort_keys (JObj [(''b'', JInt 2), (''a'', JInt 1)])"
    by code_simp
  then have c: "canonical_json ratio_repr (JObj [(''a'', JInt 1), (''b'', JInt 2)]) =
      canonical_json ratio_repr (JObj [(''b'', JInt 2), (''a'', JInt 1)])" by (simp only: canonical_json_def)
  have n: "node_inputs H [x] = []" for H x by (simp add: node_inputs.simps)
  show "inj_on (\<lambda>_. replicate 32 0)
      (set (root_inputs (\<lambda>_. replicate 32 0) ratio_repr (rule_memory [(''a'', JInt 1), (''b'', JInt 2)])) \<union>
       set (root_inputs (\<lambda>_. replicate 32 0) ratio_repr (rule_memory [(''b'', JInt 2), (''a'', JInt 1)])))"
    by (simp add: root_inputs_def rule_memory_facts item_preimage_def c n)
  show "pinned_merkle_root (\<lambda>_. replicate 32 0) ratio_repr (rule_memory [(''a'', JInt 1), (''b'', JInt 2)]) =
      pinned_merkle_root (\<lambda>_. replicate 32 0) ratio_repr (rule_memory [(''b'', JInt 2), (''a'', JInt 1)])"
    by (simp add: root_of_items rule_memory_facts)
qed (simp_all add: rule_memory_facts ratio_repr_ok)

end
