(* ===== verification/Memory_Persist.thy ===== *)
theory Memory_Persist
  imports Memory_Root
begin

text \<open>
  Persistence of \<open>agents/memory_service.py\<close>: what \<open>save\<close> writes, every check of \<open>load\<close> in its
  order, and that loading a saved memory gives it back; then \<open>memory_stats\<close> and \<open>hash_to_vec\<close>. The
  npz container is modelled by the arrays it holds, a missing array being \<open>None\<close>, and the JSON
  sidecar by its decoded keys.
\<close>

subsection \<open>The archive\<close>

record meta =
  md_version :: "int option"
  md_dim :: "nat option"
  md_seed :: "int option"
  md_decay_lambdas :: "(string \<times> real) list option"
  md_centroid :: "vec option"
  md_trace_ids :: "string list option"
  md_kinds :: "string list option"
  md_pinned :: "bool list option"
  md_payloads :: "dict option list option"

datatype meta_array = MalformedMeta | MetaJson meta

record archive =
  ar_bits_packed :: "byte list list option"
  ar_l1s :: "real list option"
  ar_weights :: "real list option"
  ar_last_decay_ts :: "real list option"
  ar_norms :: "real list option"
  ar_meta :: "meta_array option"
  ar_version :: "int list option"

datatype mem_file = NoFile | PickleFile | UnreadableFile | NpzFile archive

definition save :: "memory \<Rightarrow> mem_file res" where
  "save m =
     (let entries = map snd (ms_entries m)
      in if entries \<noteq> [] \<and> (\<exists>e \<in> set entries. length (e_bits_packed e) \<noteq> length (e_bits_packed (hd entries)))
         then Inl (ValueError ''all input arrays must have the same shape'')
         else Inr (NpzFile
           \<lparr>ar_bits_packed = Some (map e_bits_packed entries), ar_l1s = Some (map e_l1 entries),
            ar_weights = Some (map e_weight entries), ar_last_decay_ts = Some (map e_last_decay_ts entries),
            ar_norms = Some (map e_norm entries),
            ar_meta = Some (MetaJson
              \<lparr>md_version = Some PERSIST_VERSION, md_dim = Some (ms_dim m), md_seed = Some (ms_seed m),
               md_decay_lambdas = Some (ms_decay_lambdas m), md_centroid = ms_centroid m,
               md_trace_ids = Some (map e_trace_id entries), md_kinds = Some (map e_kind entries),
               md_pinned = Some (map e_pinned entries), md_payloads = Some (map (Some \<circ> e_payload) entries)\<rparr>),
            ar_version = Some [PERSIST_VERSION]\<rparr>))"

definition load_row ::
  "meta \<Rightarrow> byte list list \<Rightarrow> real list \<Rightarrow> real list \<Rightarrow> real list \<Rightarrow> real list \<Rightarrow> string list \<Rightarrow>
   string list \<Rightarrow> bool list \<Rightarrow> dict option list \<Rightarrow> nat \<Rightarrow> string \<times> entry" where
  "load_row md bits l1s weights tss norms tids kinds pinned payloads i =
     (tids ! i,
      \<lparr>e_trace_id = tids ! i, e_kind = kinds ! i, e_pinned = pinned ! i,
       e_payload = (case payloads ! i of None \<Rightarrow> [] | Some d \<Rightarrow> d),
       e_bits_packed = bits ! i, e_l1 = l1s ! i, e_norm = norms ! i, e_weight = weights ! i,
       e_last_decay_ts = tss ! i\<rparr>)"

definition load_archive :: "(nat \<Rightarrow> int \<Rightarrow> vec list) \<Rightarrow> archive \<Rightarrow> memory res" where
  "load_archive build_rotation ar =
     (case (ar_bits_packed ar, ar_l1s ar, ar_weights ar, ar_last_decay_ts ar, ar_norms ar, ar_meta ar, ar_version ar) of
        (Some bits, Some l1s, Some weights, Some tss, Some norms, Some meta, Some version) \<Rightarrow>
          (case meta of
             MalformedMeta \<Rightarrow> Inl (ValueError ''malformed metadata'')
           | MetaJson md \<Rightarrow>
               (let meta_version = (case md_version md of None \<Rightarrow> - 1 | Some v \<Rightarrow> v)
                in if version = [] then Inl (ValueError ''could not read memory archive'')
                   else if hd version \<noteq> meta_version then Inl (ValueError ''version mismatch'')
                   else if hd version \<noteq> PERSIST_VERSION then Inl (ValueError ''unsupported persist version'')
                   else
                     (case (md_dim md, md_seed md, md_decay_lambdas md, md_trace_ids md, md_kinds md, md_pinned md, md_payloads md) of
                        (Some d, Some seed, Some lambdas, Some tids, Some kinds, Some pinned, Some payloads) \<Rightarrow>
                          (let n = length tids
                           in if length l1s \<noteq> n \<or> length bits \<noteq> n \<or> length weights \<noteq> n \<or> length tss \<noteq> n \<or>
                                 length norms \<noteq> n \<or> length kinds \<noteq> n \<or> length pinned \<noteq> n \<or> length payloads \<noteq> n
                              then Inl (ValueError ''malformed memory archive: row-count mismatch'')
                              else
                                (let inst = mk_memory build_rotation d (Some lambdas) seed
                                 in Inr (inst\<lparr>ms_centroid := md_centroid md,
                                      ms_entries := foldl (\<lambda>es (t, e). AList.update t e es) []
                                        (map (load_row md bits l1s weights tss norms tids kinds pinned payloads) [0..<n])\<rparr>)))
                      | _ \<Rightarrow> Inl (ValueError ''malformed metadata: missing key''))))
      | _ \<Rightarrow> Inl (ValueError ''malformed memory archive: missing keys''))"

fun load :: "(nat \<Rightarrow> int \<Rightarrow> vec list) \<Rightarrow> mem_file \<Rightarrow> memory res" where
  "load build_rotation NoFile = Inl (FileNotFoundError ''No such file or directory'')"
| "load build_rotation PickleFile = Inl (ValueError ''refusing to load pickle-magic file'')"
| "load build_rotation UnreadableFile = Inl (ValueError ''could not read memory archive'')"
| "load build_rotation (NpzFile ar) = load_archive build_rotation ar"

lemma foldl_update_distinct:
  "distinct (map fst (acc @ xs)) \<Longrightarrow> foldl (\<lambda>es (t, e). AList.update t e es) acc xs = acc @ xs"
proof (induction xs arbitrary: acc)
  case (Cons x xs)
  obtain t e where x: "x = (t, e)" by fastforce
  have "t \<notin> fst ` set acc" using Cons.prems by (auto simp: x)
  then have "AList.update t e acc = acc @ [(t, e)]" by (induction acc) auto
  with Cons.IH [of "acc @ [(t, e)]"] Cons.prems show ?case by (simp add: x)
qed simp

subsection \<open>Statistics\<close>

record mem_stats =
  st_entries :: int
  st_dim :: int
  st_bytes_per_vec :: int
  st_fp32_bytes_per_vec :: int
  st_compression_x :: rat
  st_index_bytes :: int
  st_fp32_index_bytes :: int

text \<open>\<open>round(x, 2)\<close>: to the nearest hundredth, halves to the even one.\<close>

definition round2 :: "rat \<Rightarrow> rat" where
  "round2 x = of_int (round_half_even (100 * x)) / 100"

definition memory_stats :: "memory \<Rightarrow> mem_stats" where
  "memory_stats m =
     (let n_bits_bytes = (int (ms_dim m) + 7) div 8;
          bytes_per_vec = n_bits_bytes + 4 + 4;
          fp32_bytes_per_vec = int (ms_dim m) * 4;
          n = int (length (ms_entries m))
      in \<lparr>st_entries = n, st_dim = int (ms_dim m), st_bytes_per_vec = bytes_per_vec,
          st_fp32_bytes_per_vec = fp32_bytes_per_vec,
          st_compression_x = round2 (of_int fp32_bytes_per_vec / of_int bytes_per_vec),
          st_index_bytes = bytes_per_vec * n, st_fp32_index_bytes = fp32_bytes_per_vec * n\<rparr>)"

subsection \<open>A vector from a string\<close>

text \<open>\<open>standard_normal rng_seed d\<close> is the first \<open>d\<close> draws of numpy's generator with that seed.\<close>

definition hash_to_vec ::
  "(byte list \<Rightarrow> byte list) \<Rightarrow> (int \<Rightarrow> nat \<Rightarrow> vec) \<Rightarrow> string \<Rightarrow> nat \<Rightarrow> int \<Rightarrow> vec" where
  "hash_to_vec H standard_normal s d seed =
     (let digest = H (utf8 s);
          rng_seed = Bit_Operations.xor (int (from_bytes_big (take 8 digest))) seed;
          v = standard_normal rng_seed d;
          n = l2norm v
      in if n = 0 then v else map (\<lambda>x. x / n) v)"

lemma dot_scale: "dot (map (\<lambda>x. x / c) v) (map (\<lambda>x. x / c) v) = dot v v / (c * c)"
  by (induction v) (simp_all add: dot_def add_divide_distrib)

lemma dot_self_nonneg: "0 \<le> dot v v"
  by (induction v) (simp_all add: dot_def)

lemma hash_to_vec_unit:
  "l2norm (standard_normal (Bit_Operations.xor (int (from_bytes_big (take 8 (H (utf8 s))))) seed) d) \<noteq> 0 \<Longrightarrow>
   l2norm (hash_to_vec H standard_normal s d seed) = 1"
  using dot_self_nonneg
  by (simp add: hash_to_vec_def Let_def l2norm_def dot_scale real_sqrt_divide)

subsection \<open>Properties\<close>

lemma load_save:
  assumes "memory_wf m" and "ms_P m = build_rotation (ms_dim m) (ms_seed m)" and "ms_decay_lambdas m \<noteq> []"
  shows "res_bind (save m) (load build_rotation) = Inr m"
proof -
  let ?es = "map snd (ms_entries m)"
  have len: "length (e_bits_packed e) = (ms_dim m + 7) div 8" if "e \<in> set ?es" for e
    using that memory_wfD(2) [OF assms(1)] by (auto simp: entry_wf_def)
  have same: "\<not> (\<exists>e \<in> set ?es. length (e_bits_packed e) \<noteq> length (e_bits_packed (hd ?es)))"
  proof (cases "?es = []")
    case False
    then show ?thesis using len len [OF hd_in_set [OF False]] by auto
  qed simp
  have row: "map (load_row md (map e_bits_packed ?es) (map e_l1 ?es) (map e_weight ?es)
      (map e_last_decay_ts ?es) (map e_norm ?es) (map e_trace_id ?es) (map e_kind ?es) (map e_pinned ?es)
      (map (Some \<circ> e_payload) ?es)) [0..<length ?es] = ms_entries m" for md
  proof (rule nth_equalityI)
    fix i assume "i < length (map (load_row md (map e_bits_packed ?es) (map e_l1 ?es) (map e_weight ?es)
      (map e_last_decay_ts ?es) (map e_norm ?es) (map e_trace_id ?es) (map e_kind ?es) (map e_pinned ?es)
      (map (Some \<circ> e_payload) ?es)) [0..<length ?es])"
    then have i: "i < length (ms_entries m)" by simp
    obtain t e where te: "ms_entries m ! i = (t, e)" by fastforce
    then have "(t, e) \<in> set (ms_entries m)" using i by (metis nth_mem)
    then have "e_trace_id e = t" using memory_wfD(2) [OF assms(1)] by (simp add: entry_wf_def)
    with i te show "map (load_row md (map e_bits_packed ?es) (map e_l1 ?es) (map e_weight ?es)
      (map e_last_decay_ts ?es) (map e_norm ?es) (map e_trace_id ?es) (map e_kind ?es) (map e_pinned ?es)
      (map (Some \<circ> e_payload) ?es)) [0..<length ?es] ! i = ms_entries m ! i"
      by (simp add: load_row_def)
  qed simp
  have fold: "foldl (\<lambda>es (t, e). AList.update t e es) [] (ms_entries m) = ms_entries m"
    using foldl_update_distinct [of "[]" "ms_entries m"] memory_wfD(1) [OF assms(1)] by simp
  have "save m = Inr (NpzFile
           \<lparr>ar_bits_packed = Some (map e_bits_packed ?es), ar_l1s = Some (map e_l1 ?es),
            ar_weights = Some (map e_weight ?es), ar_last_decay_ts = Some (map e_last_decay_ts ?es),
            ar_norms = Some (map e_norm ?es),
            ar_meta = Some (MetaJson
              \<lparr>md_version = Some PERSIST_VERSION, md_dim = Some (ms_dim m), md_seed = Some (ms_seed m),
               md_decay_lambdas = Some (ms_decay_lambdas m), md_centroid = ms_centroid m,
               md_trace_ids = Some (map e_trace_id ?es), md_kinds = Some (map e_kind ?es),
               md_pinned = Some (map e_pinned ?es), md_payloads = Some (map (Some \<circ> e_payload) ?es)\<rparr>),
            ar_version = Some [PERSIST_VERSION]\<rparr>)"
    unfolding save_def Let_def using same by (simp only: simp_thms if_False)
  then show ?thesis
    using assms(2,3) row fold by (simp add: load_archive_def mk_memory_def)
qed



end
