(* ===== verification/Dark_Pool.thy ===== *)
theory Dark_Pool
  imports Payment Rate_Limiter Memory_Query Memory_Persist
begin

text \<open>
  The server of \<open>agents/dark_pool.py\<close>: its state, the two paid handlers \<open>_handle_query\<close> and
  \<open>_handle_add\<close> with every early return in order, the purge of its lifespan, and the startup guard.

  A handler is given the request, the clock readings it takes, and the environment \<open>ev\<close> of
  functions that are not in the repository: signature recovery, pydantic's validation of the two
  bodies, numpy's two orderings. An exception that leaves a handler (which the framework answers with a 500) is an
  \<open>Inl\<close> beside the state the handler had reached.
\<close>

subsection \<open>State, requests and responses\<close>

record dark_pool =
  dp_config :: pool_config
  dp_memory :: memory
  dp_nonce_store :: nonce_store
  dp_rate_limiter :: limiter

record add_body =
  ab_trace_id :: string
  ab_vec :: vec
  ab_payload :: dict
  ab_kind :: string

record environment =
  ev_recover :: recover
  ev_query_body :: "dict \<Rightarrow> (vec \<times> int) option"
  ev_add_body :: "dict \<Rightarrow> add_body option"
  ev_argpartition :: "vec \<Rightarrow> int \<Rightarrow> nat list"
  ev_argsort :: "vec \<Rightarrow> nat list"

record http_request =
  rq_path :: string
  rq_body :: "json option"
  rq_payment :: "string option"

record clock =
  ck_now :: int
  ck_mono :: rat
  ck_mono_retry :: rat
  ck_add :: real

datatype content =
    ErrorContent string
  | PaymentRequired int "dict list" "string option"
  | RateLimited string delay
  | Results "(string \<times> real \<times> dict) list"
  | Added string int string

record response =
  rs_status :: int
  rs_retry_after :: "int option"
  rs_content :: content

definition respond :: "int \<Rightarrow> content \<Rightarrow> response" where
  "respond status c = \<lparr>rs_status = status, rs_retry_after = None, rs_content = c\<rparr>"

definition DEFAULT_RATE_CAPACITY :: int where
  "DEFAULT_RATE_CAPACITY = 60"

definition DEFAULT_RATE_REFILL_PER_SECOND :: rat where
  "DEFAULT_RATE_REFILL_PER_SECOND = 1"

text \<open>
  The constructor. The store is the one passed in, or the SQLite store opened on the file found at
  \<open>$DARKPOOL_NONCE_DB\<close>.
\<close>

record pool_options =
  po_price_per_query_usdc :: rat
  po_price_per_add_usdc :: "rat option"
  po_payment_recipient :: string
  po_arc_chain_id :: int
  po_usdc_address :: string
  po_network :: string
  po_usdc_name :: string
  po_usdc_version :: string
  po_max_timeout_seconds :: int
  po_nonce_store :: "nonce_store option"
  po_rate_limiter :: "limiter option"
  po_gateway_wallet_address :: "string option"
  po_gateway_domain_name :: string
  po_gateway_domain_version :: string

definition default_options :: "string \<Rightarrow> pool_options" where
  "default_options recipient =
     \<lparr>po_price_per_query_usdc = 1 / 1000, po_price_per_add_usdc = None,
      po_payment_recipient = recipient, po_arc_chain_id = 5042002,
      po_usdc_address = ''0x3600000000000000000000000000000000000000'',
      po_network = DEFAULT_NETWORK, po_usdc_name = ''USDC'', po_usdc_version = ''2'',
      po_max_timeout_seconds = 60, po_nonce_store = None, po_rate_limiter = None,
      po_gateway_wallet_address = Some TESTNET_GATEWAY_WALLET,
      po_gateway_domain_name = GATEWAY_BATCHED_DOMAIN_NAME,
      po_gateway_domain_version = GATEWAY_BATCHED_DOMAIN_VERSION\<rparr>"

definition mk_dark_pool :: "memory \<Rightarrow> pool_options \<Rightarrow> disk \<Rightarrow> dark_pool res" where
  "mk_dark_pool mem po nonce_db =
     (let price_units = usdc_to_base_units (po_price_per_query_usdc po);
          add_price_units = (case po_price_per_add_usdc po of Some p \<Rightarrow> usdc_to_base_units p | None \<Rightarrow> price_units)
      in if add_price_units \<noteq> price_units
         then Inl (NotImplementedError ''split /query and /add prices not yet supported'')
         else
           res_bind (case po_nonce_store po of Some st \<Rightarrow> Inr st
                     | None \<Rightarrow> map_sum id SqliteNonceStore (sqlite_open nonce_db)) (\<lambda>store.
           res_bind (case po_rate_limiter po of Some l \<Rightarrow> Inr l
                     | None \<Rightarrow> mk_limiter DEFAULT_RATE_CAPACITY DEFAULT_RATE_REFILL_PER_SECOND) (\<lambda>lim.
             Inr \<lparr>dp_config =
                   \<lparr>pc_price_units = price_units, pc_payment_recipient = po_payment_recipient po,
                    pc_chain_id = po_arc_chain_id po, pc_usdc_address = po_usdc_address po,
                    pc_network = po_network po, pc_usdc_name = po_usdc_name po,
                    pc_usdc_version = po_usdc_version po,
                    pc_max_timeout_seconds = po_max_timeout_seconds po,
                    pc_gateway_wallet_address = po_gateway_wallet_address po,
                    pc_gateway_domain_name = po_gateway_domain_name po,
                    pc_gateway_domain_version = po_gateway_domain_version po\<rparr>,
                  dp_memory = mem, dp_nonce_store = store, dp_rate_limiter = lim\<rparr>)))"

subsection \<open>Lifespan\<close>

definition lifespan_startup :: "dark_pool \<Rightarrow> int \<Rightarrow> dark_pool" where
  "lifespan_startup dp now = dp\<lparr>dp_nonce_store := fst (ns_purge_expired (dp_nonce_store dp) now)\<rparr>"

text \<open>One turn of \<open>_purge_loop\<close>, after its sleep.\<close>

definition purge_tick :: "dark_pool \<Rightarrow> int \<Rightarrow> dark_pool" where
  "purge_tick dp now = dp\<lparr>dp_nonce_store := fst (ns_purge_expired (dp_nonce_store dp) now)\<rparr>"

definition lifespan_shutdown :: "dark_pool \<Rightarrow> dark_pool" where
  "lifespan_shutdown dp = dp\<lparr>dp_nonce_store := ns_close (dp_nonce_store dp)\<rparr>"

subsection \<open>Steps the two handlers share\<close>

definition make_402 :: "dark_pool \<Rightarrow> string \<Rightarrow> string option \<Rightarrow> response" where
  "make_402 dp resource err =
     respond 402 (PaymentRequired X402_VERSION (all_accepts (dp_config dp) resource) err)"

definition parse_payment_header :: "string \<Rightarrow> dict res" where
  "parse_payment_header raw =
     (case decode_header raw of
        None \<Rightarrow> Inl (ValueError ''malformed X-PAYMENT header'')
      | Some (JObj obj) \<Rightarrow> Inr obj
      | Some _ \<Rightarrow> Inl (ValueError ''X-PAYMENT must decode to a JSON object''))"

record paid =
  pd_signer :: string
  pd_nonce :: string
  pd_valid_before :: int
  pd_verifying_contract :: string

text \<open>
  Header, decoding, validation: a response to return at once, or the accepted payment. Nothing
  changes in the server's state.
\<close>

definition check_payment ::
  "environment \<Rightarrow> dark_pool \<Rightarrow> int \<Rightarrow> http_request \<Rightarrow> (response + paid) res" where
  "check_payment ev dp now rq =
     (case rq_payment rq of
        None \<Rightarrow> Inr (Inl (make_402 dp (rq_path rq) None))
      | Some hdr \<Rightarrow>
          if hdr = [] then Inr (Inl (make_402 dp (rq_path rq) None))
          else (case parse_payment_header hdr of
              Inl e \<Rightarrow> Inr (Inl (make_402 dp (rq_path rq) (Some ''malformed X-PAYMENT header'')))
            | Inr payment \<Rightarrow>
                res_bind (validate_payment (ev_recover ev) (dp_config dp) (dp_nonce_store dp) now payment) (\<lambda>vd.
                  if \<not> vd_ok vd then Inr (Inl (make_402 dp (rq_path rq) (vd_error vd)))
                  else Inr (Inr \<lparr>pd_signer = the (vd_signer vd), pd_nonce = the (vd_nonce vd),
                                 pd_valid_before = the (vd_valid_before vd),
                                 pd_verifying_contract = the (vd_verifying_contract vd)\<rparr>))))"

definition retry_header :: "rat \<Rightarrow> int" where
  "retry_header d = max 1 (trunc d + (if d \<noteq> of_int \<lfloor>d\<rfloor> then 1 else 0))"

text \<open>The per-signer limit: the 429 response when the bucket is empty.\<close>

definition limit_signer :: "dark_pool \<Rightarrow> clock \<Rightarrow> string \<Rightarrow> dark_pool \<times> response option res" where
  "limit_signer dp ck signer =
     (case try_consume (dp_rate_limiter dp) signer 1 (ck_mono ck) of
        Inl e \<Rightarrow> (dp, Inl e)
      | Inr (l, ok) \<Rightarrow>
          (let dp' = dp\<lparr>dp_rate_limiter := l\<rparr>
           in if ok then (dp', Inr None)
              else (case retry_after l signer 1 (ck_mono_retry ck) of
                  Inl e \<Rightarrow> (dp', Inl e)
                | Inr Infinite \<Rightarrow> (dp', Inl (OverflowError ''cannot convert float infinity to integer''))
                | Inr (Seconds d) \<Rightarrow>
                    (dp', Inr (Some \<lparr>rs_status = 429, rs_retry_after = Some (retry_header d),
                                    rs_content = RateLimited signer (Seconds d)\<rparr>)))))"

text \<open>Commit, or the 402 of a lost race.\<close>

definition commit_payment :: "dark_pool \<Rightarrow> string \<Rightarrow> paid \<Rightarrow> dark_pool \<times> response option res" where
  "commit_payment dp path p =
     (case commit_nonce (dp_config dp) (dp_nonce_store dp) (pd_signer p) (pd_nonce p)
             (pd_valid_before p) (pd_verifying_contract p) of
        Inl e \<Rightarrow> (dp, Inl e)
      | Inr (store, err) \<Rightarrow>
          (dp\<lparr>dp_nonce_store := store\<rparr>,
           Inr (case err of None \<Rightarrow> None | Some e \<Rightarrow> Some (make_402 dp path (Some e)))))"

text \<open>A step that may answer at once or raise, and what runs otherwise.\<close>

definition or_else :: "dark_pool \<times> response option res \<Rightarrow> (dark_pool \<Rightarrow> dark_pool \<times> response res) \<Rightarrow> dark_pool \<times> response res" where
  "or_else x k =
     (case snd x of Inl e \<Rightarrow> (fst x, Inl e) | Inr (Some resp) \<Rightarrow> (fst x, Inr resp) | Inr None \<Rightarrow> k (fst x))"

text \<open>
  The tail both handlers run once the body is well-formed: payment check, rate limit, an
  endpoint-specific refusal (the duplicate id of \<open>/add\<close>), commit of the nonce, service.
\<close>

definition paid_endpoint ::
  "environment \<Rightarrow> clock \<Rightarrow> dark_pool \<Rightarrow> http_request \<Rightarrow> (dark_pool \<Rightarrow> response option) \<Rightarrow>
   (dark_pool \<Rightarrow> paid \<Rightarrow> dark_pool \<times> response res) \<Rightarrow> dark_pool \<times> response res" where
  "paid_endpoint ev ck dp rq refuse serve =
     (case check_payment ev dp (ck_now ck) rq of
        Inl e \<Rightarrow> (dp, Inl e)
      | Inr (Inl resp) \<Rightarrow> (dp, Inr resp)
      | Inr (Inr p) \<Rightarrow>
          or_else (limit_signer dp ck (pd_signer p)) (\<lambda>dp1.
          or_else (dp1, Inr (refuse dp1)) (\<lambda>dp2.
          or_else (commit_payment dp2 (rq_path rq) p) (\<lambda>dp3.
            serve dp3 p))))"

subsection \<open>POST /query\<close>

definition query_results :: "memory \<Rightarrow> (string \<times> real) list \<Rightarrow> (string \<times> real \<times> dict) list" where
  "query_results m results =
     map (\<lambda>(tid, s). (tid, s, case map_of (ms_entries m) tid of Some e \<Rightarrow> e_payload e | None \<Rightarrow> [])) results"

definition serve_query :: "environment \<Rightarrow> vec \<Rightarrow> int \<Rightarrow> dark_pool \<Rightarrow> dark_pool \<times> response res" where
  "serve_query ev v k dp =
     (case query (ev_argpartition ev) (ev_argsort ev) (dp_memory dp) v k of
        Inl e \<Rightarrow> (dp, Inl e)
      | Inr (m, results) \<Rightarrow>
          (dp\<lparr>dp_memory := m\<rparr>, Inr (respond 200 (Results (query_results m results)))))"

definition handle_query ::
  "environment \<Rightarrow> clock \<Rightarrow> dark_pool \<Rightarrow> http_request \<Rightarrow> dark_pool \<times> response res" where
  "handle_query ev ck dp rq =
     (case rq_body rq of
        None \<Rightarrow> (dp, Inr (respond 400 (ErrorContent ''request body must be JSON'')))
      | Some body_json \<Rightarrow>
          (case (case body_json of JObj d \<Rightarrow> ev_query_body ev d | _ \<Rightarrow> None) of
             None \<Rightarrow> (dp, Inr (respond 400 (ErrorContent ''invalid body'')))
           | Some (v, k) \<Rightarrow>
               if length v \<noteq> ms_dim (dp_memory dp)
               then (dp, Inr (respond 400 (ErrorContent ''query_vec must be length dim'')))
               else paid_endpoint ev ck dp rq (\<lambda>_. None) (\<lambda>dp3 p. serve_query ev v k dp3)))"

subsection \<open>POST /add\<close>

definition refuse_duplicate :: "string \<Rightarrow> dark_pool \<Rightarrow> response option" where
  "refuse_duplicate trace_id dp =
     (if trace_id \<in> fst ` set (ms_entries (dp_memory dp))
      then Some (respond 409 (ErrorContent ''trace_id already exists'')) else None)"

definition serve_add :: "clock \<Rightarrow> add_body \<Rightarrow> dark_pool \<Rightarrow> paid \<Rightarrow> dark_pool \<times> response res" where
  "serve_add ck body dp p =
     (case add (dp_memory dp) (ab_trace_id body) (ab_vec body) (ab_kind body) False
             (Some (ab_payload body)) (ck_add ck) of
        Inl (ValueError msg) \<Rightarrow> (dp, Inr (respond 400 (ErrorContent ''memory.add rejected entry'')))
      | Inl e \<Rightarrow> (dp, Inl e)
      | Inr m \<Rightarrow>
          (dp\<lparr>dp_memory := m\<rparr>,
           Inr (respond 200 (Added (ab_trace_id body) (memory_len m) (pd_signer p)))))"

definition handle_add ::
  "environment \<Rightarrow> clock \<Rightarrow> dark_pool \<Rightarrow> http_request \<Rightarrow> dark_pool \<times> response res" where
  "handle_add ev ck dp rq =
     (case rq_body rq of
        None \<Rightarrow> (dp, Inr (respond 400 (ErrorContent ''request body must be JSON'')))
      | Some body_json \<Rightarrow>
          (case (case body_json of JObj d \<Rightarrow> ev_add_body ev d | _ \<Rightarrow> None) of
             None \<Rightarrow> (dp, Inr (respond 400 (ErrorContent ''invalid body'')))
           | Some body \<Rightarrow>
               if length (ab_vec body) \<noteq> ms_dim (dp_memory dp)
               then (dp, Inr (respond 400 (ErrorContent ''vec must be length dim'')))
               else if ab_kind body \<notin> {''working'', ''episodic'', ''semantic''}
               then (dp, Inr (respond 400 (ErrorContent ''kind must be one of working/episodic/semantic'')))
               else paid_endpoint ev ck dp rq (refuse_duplicate (ab_trace_id body)) (serve_add ck body)))"

subsection \<open>GET /health\<close>

record health =
  he_ok :: bool
  he_memory_entries :: int
  he_price_units :: int
  he_add_price_units :: int
  he_recipient :: string
  he_asset :: string
  he_chain_id :: int

definition handle_health :: "dark_pool \<Rightarrow> health" where
  "handle_health dp =
     \<lparr>he_ok = True, he_memory_entries = memory_len (dp_memory dp),
      he_price_units = pc_price_units (dp_config dp), he_add_price_units = pc_price_units (dp_config dp),
      he_recipient = pc_payment_recipient (dp_config dp), he_asset = pc_usdc_address (dp_config dp),
      he_chain_id = pc_chain_id (dp_config dp)\<rparr>"

subsection \<open>The uvicorn entry point\<close>

text \<open>
  \<open>environ\<close> is \<open>os.environ\<close>; \<open>decimal\<close> reads the price text (\<open>Decimal\<close>), \<open>None\<close> standing for the
  exception; \<open>file\<close> is what lies at \<open>$DARKPOOL_MEMORY_PATH\<close>, \<open>nonce_db\<close> at \<open>$DARKPOOL_NONCE_DB\<close>.
\<close>

definition environ_get :: "(string \<times> string) list \<Rightarrow> string \<Rightarrow> string \<Rightarrow> string" where
  "environ_get environ k d = (case map_of environ k of Some v \<Rightarrow> v | None \<Rightarrow> d)"

definition valid_address :: "string \<Rightarrow> bool" where
  "valid_address a \<longleftrightarrow> startswith a ''0x'' \<and> length a = 42 \<and> list_all is_hex (drop 2 a)"

definition build_default_app ::
  "(nat \<Rightarrow> int \<Rightarrow> vec list) \<Rightarrow> (string \<Rightarrow> rat option) \<Rightarrow> (string \<times> string) list \<Rightarrow> mem_file \<Rightarrow> disk \<Rightarrow> dark_pool res" where
  "build_default_app build_rotation decimal environ file nonce_db =
     (let recipient = strip (environ_get environ ''DARKPOOL_RECIPIENT'' [])
      in if recipient = [] \<or> lower recipient = ZERO_ADDRESS
         then Inl (RuntimeError ''DARKPOOL_RECIPIENT is unset or equals the zero address'')
         else if \<not> valid_address recipient
         then Inl (RuntimeError ''DARKPOOL_RECIPIENT is not a valid 0x-prefixed 20-byte hex address'')
         else
           res_bind (load build_rotation file) (\<lambda>mem.
           res_bind (of_opt (ValueError ''invalid literal for int() with base 10'')
                       (parse_int (environ_get environ ''DARKPOOL_CHAIN_ID'' ''5042002''))) (\<lambda>cid.
           res_bind (of_opt (LibraryError ''decimal.InvalidOperation'')
                       (decimal (environ_get environ ''DARKPOOL_PRICE_USDC'' ''0.001''))) (\<lambda>price.
             mk_dark_pool mem
               ((default_options recipient)\<lparr>po_price_per_query_usdc := price, po_arc_chain_id := cid,
                  po_usdc_address := environ_get environ ''DARKPOOL_USDC_ADDRESS''
                    ''0x3600000000000000000000000000000000000000''\<rparr>) nonce_db))))"

end
