(* ===== verification/Pool_Safety.thy ===== *)
theory Pool_Safety
  imports Dark_Pool
begin

text \<open>
  What the paid endpoints of \<open>agents/dark_pool.py\<close> guarantee: what an accepted payment has been
  checked for, that a response other than 200 leaves nonce store and memory alone, and, over runs
  of requests, purges and restarts, that no authorisation is served twice.
\<close>

subsection \<open>An accepted payment\<close>

text \<open>
  The contract of validation: the payment's fields, the bounds they meet, and the domain whose
  typed data the signature recovers the sender from.
\<close>

definition authorises ::
  "recover \<Rightarrow> pool_config \<Rightarrow> int \<Rightarrow> dict \<Rightarrow> paid \<Rightarrow> string \<Rightarrow> string \<Rightarrow> auth_fields \<Rightarrow> string \<Rightarrow> string \<Rightarrow>
   string \<times> string \<times> string \<Rightarrow> bool" where
  "authorises recover_message c now payment p from_addr to_addr a nonce_hex sig d \<longleftrightarrow>
     dict_get payment ''scheme'' = JStr DEFAULT_SCHEME \<and> dict_get payment ''network'' = JStr (pc_network c) \<and>
     (\<exists>payload auth. dict_get payment ''payload'' = JObj payload \<and>
        dict_get payload ''authorization'' = JObj auth \<and> dict_get payload ''signature'' = JStr sig \<and>
        read_authorization auth = Inr a) \<and>
     au_from a = JStr from_addr \<and> au_to a = JStr to_addr \<and> au_nonce a = JStr nonce_hex \<and>
     lower from_addr \<noteq> ZERO_ADDRESS \<and> now < au_valid_before a \<and> au_valid_after a \<le> now + 5 \<and>
     lower to_addr = lower (pc_payment_recipient c) \<and>
     pc_price_units c \<le> au_value a \<and> au_value a \<le> 2 * pc_price_units c \<and>
     d \<in> set (candidate_domains c) \<and>
     (\<exists>candidate. recover_signer recover_message (typed_for c from_addr to_addr a nonce_hex d) sig = Inr candidate \<and>
        lower candidate = lower from_addr) \<and>
     p = \<lparr>pd_signer = lower from_addr, pd_nonce = lower nonce_hex, pd_valid_before = au_valid_before a,
          pd_verifying_contract = fst d\<rparr>"

lemma try_domains_Some:
  "try_domains f from_addr ds e = (Some (candidate, vc), e') \<Longrightarrow>
   \<exists>name version. (vc, name, version) \<in> set ds \<and> f (vc, name, version) = Inr candidate \<and>
     lower candidate = lower from_addr"
  by (induction f from_addr ds e rule: try_domains.induct) (fastforce split: sum.splits if_splits)+

lemma as_str_Inr: "as_str v = Inr s \<longleftrightarrow> v = JStr s"
  by (cases v) auto

definition paid_of :: "validation \<Rightarrow> paid" where
  "paid_of vd = \<lparr>pd_signer = the (vd_signer vd), pd_nonce = the (vd_nonce vd),
     pd_valid_before = the (vd_valid_before vd), pd_verifying_contract = the (vd_verifying_contract vd)\<rparr>"

lemma rejected_ok [simp]: "vd_ok (rejected msg) = False"
  by (simp add: rejected_def)

lemma validate_authorization_ok:
  assumes "validate_authorization rec c store now a sig = Inr vd" and "vd_ok vd"
  obtains from_addr to_addr nonce_hex d candidate where
    "au_from a = JStr from_addr" "au_to a = JStr to_addr" "au_nonce a = JStr nonce_hex"
    "lower from_addr \<noteq> ZERO_ADDRESS" "now < au_valid_before a" "au_valid_after a \<le> now + 5"
    "lower to_addr = lower (pc_payment_recipient c)" "pc_price_units c \<le> au_value a"
    "au_value a \<le> 2 * pc_price_units c" "d \<in> set (candidate_domains c)"
    "recover_signer rec (typed_for c from_addr to_addr a nonce_hex d) sig = Inr candidate"
    "lower candidate = lower from_addr"
    "paid_of vd = \<lparr>pd_signer = lower from_addr, pd_nonce = lower nonce_hex,
       pd_valid_before = au_valid_before a, pd_verifying_contract = fst d\<rparr>"
    "ns_has store (lower from_addr) (lower nonce_hex) (Some (pc_chain_id c)) (Some (fst d)) = Inr False"
proof -
  obtain from_addr where f: "au_from a = JStr from_addr"
    using assms by (cases "au_from a") (auto simp: validate_authorization_def)
  have g: "lower from_addr \<noteq> ZERO_ADDRESS" "now < au_valid_before a" "au_valid_after a \<le> now + 5"
    using assms by (auto simp: validate_authorization_def f split: if_splits)
  obtain to_addr where t: "au_to a = JStr to_addr"
    using assms g by (auto simp: validate_authorization_def f res_bind_eq_Inr as_str_Inr)
  have h: "lower to_addr = lower (pc_payment_recipient c)" "pc_price_units c \<le> au_value a"
    "au_value a \<le> 2 * pc_price_units c"
    using assms g by (auto simp: validate_authorization_def f t VALUE_UPPER_FACTOR_def split: if_splits)
  obtain nonce_hex where n: "au_nonce a = JStr nonce_hex"
    using assms g h by (auto simp: validate_authorization_def f t VALUE_UPPER_FACTOR_def res_bind_eq_Inr as_str_Inr)
  let ?t = "try_domains (\<lambda>d. recover_signer rec (typed_for c from_addr to_addr a nonce_hex d) sig)
    from_addr (candidate_domains c) None"
  have core: "(case ?t of
                (None, last_err) \<Rightarrow>
                  Inr (rejected (case last_err of Some e \<Rightarrow> e | None \<Rightarrow> ''signature does not match from-address''))
              | (Some (recovered, vc), _) \<Rightarrow>
                  res_bind (ns_has store (lower recovered) (lower nonce_hex) (Some (pc_chain_id c)) (Some vc)) (\<lambda>seen.
                    Inr \<lparr>vd_ok = \<not> seen, vd_error = (if seen then Some ''nonce replayed'' else None),
                         vd_signer = Some (lower recovered), vd_nonce = Some (lower nonce_hex),
                         vd_valid_before = Some (au_valid_before a), vd_verifying_contract = Some vc\<rparr>)) = Inr vd"
    using assms(1) g h by (simp add: validate_authorization_def f t n VALUE_UPPER_FACTOR_def)
  obtain recovered vc e where tr: "?t = (Some (recovered, vc), e)"
  proof (cases ?t)
    case (Pair o' e)
    then show ?thesis using core assms(2) that by (cases o') auto
  qed
  from try_domains_Some [OF tr] obtain name version where
    d: "(vc, name, version) \<in> set (candidate_domains c)"
    "recover_signer rec (typed_for c from_addr to_addr a nonce_hex (vc, name, version)) sig = Inr recovered"
    "lower recovered = lower from_addr" by blast
  have nh: "ns_has store (lower from_addr) (lower nonce_hex) (Some (pc_chain_id c)) (Some vc) = Inr False"
    and p: "paid_of vd = \<lparr>pd_signer = lower from_addr, pd_nonce = lower nonce_hex,
       pd_valid_before = au_valid_before a, pd_verifying_contract = vc\<rparr>"
    using core assms(2) d(3) by (auto simp: tr Let_def res_bind_eq_Inr paid_of_def)
  show thesis
    by (rule that [of from_addr to_addr nonce_hex "(vc, name, version)" recovered])
       (use f t n g h d nh p in simp_all)
qed

lemma validate_payment_ok:
  assumes "validate_payment rec c store now payment = Inr vd" and "vd_ok vd"
  shows "\<exists>from_addr to_addr a nonce_hex sig d.
     authorises rec c now payment (paid_of vd) from_addr to_addr a nonce_hex sig d \<and>
     ns_has store (pd_signer (paid_of vd)) (pd_nonce (paid_of vd)) (Some (pc_chain_id c))
       (Some (pd_verifying_contract (paid_of vd))) = Inr False"
proof -
  have s: "dict_get payment ''scheme'' = JStr DEFAULT_SCHEME" "dict_get payment ''network'' = JStr (pc_network c)"
    using assms by (auto simp: validate_payment_def split: if_splits)
  obtain payload where pl: "dict_get payment ''payload'' = JObj payload"
    using assms s by (cases "dict_get payment ''payload''") (auto simp: validate_payment_def)
  obtain auth where au: "dict_get payload ''authorization'' = JObj auth"
    using assms s pl by (cases "dict_get payload ''authorization''") (auto simp: validate_payment_def)
  obtain sig where sg: "dict_get payload ''signature'' = JStr sig"
    using assms s pl au by (cases "dict_get payload ''signature''") (auto simp: validate_payment_def)
  obtain a where a: "read_authorization auth = Inr a"
    using assms s pl au sg
    by (cases "read_authorization auth") (auto simp: validate_payment_def split: exn.splits)
  have va: "validate_authorization rec c store now a sig = Inr vd"
    using assms(1) s pl au sg a by (simp add: validate_payment_def)
  show ?thesis
  proof (rule validate_authorization_ok [OF va assms(2)])
    fix from_addr to_addr nonce_hex candidate and d :: "string \<times> string \<times> string"
    assume h: "au_from a = JStr from_addr" "au_to a = JStr to_addr" "au_nonce a = JStr nonce_hex"
      "lower from_addr \<noteq> ZERO_ADDRESS" "now < au_valid_before a" "au_valid_after a \<le> now + 5"
      "lower to_addr = lower (pc_payment_recipient c)" "pc_price_units c \<le> au_value a"
      "au_value a \<le> 2 * pc_price_units c" "d \<in> set (candidate_domains c)"
      "recover_signer rec (typed_for c from_addr to_addr a nonce_hex d) sig = Inr candidate"
      "lower candidate = lower from_addr"
      "paid_of vd = \<lparr>pd_signer = lower from_addr, pd_nonce = lower nonce_hex,
         pd_valid_before = au_valid_before a, pd_verifying_contract = fst d\<rparr>"
      "ns_has store (lower from_addr) (lower nonce_hex) (Some (pc_chain_id c)) (Some (fst d)) = Inr False"
    then have "authorises rec c now payment (paid_of vd) from_addr to_addr a nonce_hex sig d"
      unfolding authorises_def using s pl au sg a by blast
    with h(13,14) show ?thesis by (intro exI conjI) simp_all
  qed
qed

lemma check_payment_ok:
  assumes "check_payment ev dp now rq = Inr (Inr p)"
  shows "\<exists>hdr payment from_addr to_addr a nonce_hex sig d.
     rq_payment rq = Some hdr \<and> decode_header hdr = Some (JObj payment) \<and>
     authorises (ev_recover ev) (dp_config dp) now payment p from_addr to_addr a nonce_hex sig d \<and>
     ns_has (dp_nonce_store dp) (pd_signer p) (pd_nonce p) (Some (pc_chain_id (dp_config dp)))
       (Some (pd_verifying_contract p)) = Inr False"
proof -
  obtain hdr where hdr: "rq_payment rq = Some hdr" "hdr \<noteq> []"
    using assms by (auto simp: check_payment_def split: option.splits if_splits)
  obtain payment where pay: "parse_payment_header hdr = Inr payment"
    using assms hdr by (auto simp: check_payment_def split: sum.splits)
  then have dec: "decode_header hdr = Some (JObj payment)"
    by (auto simp: parse_payment_header_def split: option.splits json.splits)
  obtain vd where vd: "validate_payment (ev_recover ev) (dp_config dp) (dp_nonce_store dp) now payment = Inr vd"
    "vd_ok vd" "p = paid_of vd"
    using assms hdr pay
    by (auto simp: check_payment_def res_bind_eq_Inr paid_of_def split: if_splits)
  from validate_payment_ok [OF vd(1,2)] vd(3) hdr(1) dec show ?thesis by blast
qed

subsection \<open>What a handler does to the state\<close>

definition paid_key :: "pool_config \<Rightarrow> paid \<Rightarrow> nonce_key" where
  "paid_key c p = (pc_chain_id c, lower (pd_verifying_contract p), lower (pd_signer p), lower (pd_nonce p))"

definition record_payment :: "dark_pool \<Rightarrow> paid \<Rightarrow> nonce_store res" where
  "record_payment dp p =
     ns_add (dp_nonce_store dp) (pd_signer p) (pd_nonce p) (pd_valid_before p)
       (Some (pc_chain_id (dp_config dp))) (Some (pd_verifying_contract p))"

text \<open>pydantic keeps the bounds of the two body schemas.\<close>

definition environment_ok :: "environment \<Rightarrow> bool" where
  "environment_ok ev \<longleftrightarrow>
     (\<forall>d v k. ev_query_body ev d = Some (v, k) \<longrightarrow> 1 \<le> k \<and> k \<le> 100) \<and>
     (\<forall>d b. ev_add_body ev d = Some b \<longrightarrow> 1 \<le> length (ab_trace_id b) \<and> length (ab_trace_id b) \<le> 256)"

lemma limit_signer_cases:
  "\<exists>l. fst (limit_signer dp ck s) = dp\<lparr>dp_rate_limiter := l\<rparr> \<and>
    (l = dp_rate_limiter dp \<or> l = fst (consume_locked (dp_rate_limiter dp) s 1 (ck_mono ck))) \<and>
    (case snd (limit_signer dp ck s) of
       Inl e \<Rightarrow> True
     | Inr (Some resp) \<Rightarrow> rs_status resp = 429
     | Inr None \<Rightarrow> try_consume (dp_rate_limiter dp) s 1 (ck_mono ck) = Inr (l, True))"
proof (cases "try_consume (dp_rate_limiter dp) s 1 (ck_mono ck)")
  case (Inl e)
  then show ?thesis by (intro exI [of _ "dp_rate_limiter dp"]) (simp add: limit_signer_def)
next
  case (Inr r)
  then show ?thesis
    by (intro exI [of _ "fst r"], cases r; cases "snd r"; cases "retry_after (fst r) s 1 (ck_mono_retry ck)")
       (auto simp: limit_signer_def try_consume_def Let_def split: delay.split)
qed

lemma commit_payment_eq:
  assumes "ns_has (dp_nonce_store dp) (pd_signer p) (pd_nonce p) (Some (pc_chain_id (dp_config dp)))
    (Some (pd_verifying_contract p)) = Inr False"
  shows "commit_payment dp path p =
    (case record_payment dp p of Inl e \<Rightarrow> (dp, Inl e) | Inr st \<Rightarrow> (dp\<lparr>dp_nonce_store := st\<rparr>, Inr None))"
  using assms
  by (cases "record_payment dp p") (simp_all add: commit_payment_def commit_nonce_def record_payment_def)

lemma query_total:
  assumes "memory_wf m" and "length v = ms_dim m" and "1 \<le> k"
  shows "\<exists>res. query ap as m v k = Inr (m, res)"
proof (cases "ms_entries m = []")
  case True
  then show ?thesis by (simp add: query_def)
next
  case False
  from query_eq [OF assms(1) False assms(2,3)] show ?thesis by blast
qed

text \<open>
  The two outcomes of a handler. Turned away: at most the limiter has moved. Served: the payment
  was checked, its nonce recorded, and the answer is a 200.
\<close>

definition turned_away :: "clock \<Rightarrow> dark_pool \<Rightarrow> dark_pool \<Rightarrow> response res \<Rightarrow> bool" where
  "turned_away ck dp dp' r \<longleftrightarrow>
     (\<exists>l. dp' = dp\<lparr>dp_rate_limiter := l\<rparr> \<and>
        (l = dp_rate_limiter dp \<or> (\<exists>s. l = fst (consume_locked (dp_rate_limiter dp) s 1 (ck_mono ck))))) \<and> (\<forall>resp. r = Inr resp \<longrightarrow> rs_status resp \<noteq> 200)"

definition served_with :: "environment \<Rightarrow> clock \<Rightarrow> dark_pool \<Rightarrow> http_request \<Rightarrow> dark_pool \<Rightarrow> response res \<Rightarrow> paid \<Rightarrow> bool" where
  "served_with ev ck dp rq dp' r p \<longleftrightarrow>
     (\<exists>resp st. r = Inr resp \<and> rs_status resp = 200 \<and> check_payment ev dp (ck_now ck) rq = Inr (Inr p) \<and>
        record_payment dp p = Inr st \<and> dp_nonce_store dp' = st \<and> dp_config dp' = dp_config dp \<and>
        try_consume (dp_rate_limiter dp) (pd_signer p) 1 (ck_mono ck) = Inr (dp_rate_limiter dp', True))"

lemma turned_awayI:
  "(\<And>resp. r = Inr resp \<Longrightarrow> rs_status resp \<noteq> 200) \<Longrightarrow> turned_away ck dp dp r"
  "(\<And>resp. r = Inr resp \<Longrightarrow> rs_status resp \<noteq> 200) \<Longrightarrow>
   l = dp_rate_limiter dp \<or> l = fst (consume_locked (dp_rate_limiter dp) s 1 (ck_mono ck)) \<Longrightarrow>
   turned_away ck dp (dp\<lparr>dp_rate_limiter := l\<rparr>) r"
proof -
  have "dp = dp\<lparr>dp_rate_limiter := dp_rate_limiter dp\<rparr>" by simp
  then show "(\<And>resp. r = Inr resp \<Longrightarrow> rs_status resp \<noteq> 200) \<Longrightarrow> turned_away ck dp dp r"
    unfolding turned_away_def by blast
qed (auto simp: turned_away_def)

lemma check_payment_402:
  "check_payment ev dp now rq = Inr (Inl resp) \<Longrightarrow> rs_status resp = 402"
  by (auto simp: check_payment_def make_402_def respond_def res_bind_eq_Inr
      split: option.splits if_splits sum.splits)

definition serves_ok :: "(dark_pool \<Rightarrow> paid \<Rightarrow> dark_pool \<times> response res) \<Rightarrow> dark_pool \<Rightarrow> memory \<Rightarrow> bool" where
  "serves_ok serve dp m \<longleftrightarrow>
     (\<forall>dp3 p. dp_memory dp3 = dp_memory dp \<longrightarrow>
        (\<exists>resp. serve dp3 p = (dp3\<lparr>dp_memory := m\<rparr>, Inr resp) \<and> rs_status resp = 200))"

lemma paid_endpoint_outcome:
  assumes h: "paid_endpoint ev ck dp rq refuse serve = (dp', r)"
    and refuse: "\<And>dp1 resp. refuse dp1 = Some resp \<Longrightarrow> rs_status resp \<noteq> 200"
    and serve: "\<And>dp1. dp_memory dp1 = dp_memory dp \<Longrightarrow> refuse dp1 = None \<Longrightarrow> serves_ok serve dp m"
  shows "turned_away ck dp dp' r \<or>
    (\<exists>p l. served_with ev ck dp rq dp' r p \<and> dp_memory dp' = m \<and> refuse (dp\<lparr>dp_rate_limiter := l\<rparr>) = None)"
proof (cases "check_payment ev dp (ck_now ck) rq")
  case (Inl e)
  then show ?thesis using h by (auto simp: paid_endpoint_def intro!: turned_awayI)
next
  case (Inr o')
  show ?thesis
  proof (cases o')
    case (Inl resp)
    then show ?thesis using h Inr check_payment_402 [of ev dp "ck_now ck" rq resp]
      by (auto simp: paid_endpoint_def intro!: turned_awayI)
  next
    case p: (Inr p)
    have cp: "check_payment ev dp (ck_now ck) rq = Inr (Inr p)" using Inr p by simp
    from check_payment_ok [OF this] have has: "ns_has (dp_nonce_store dp) (pd_signer p) (pd_nonce p)
      (Some (pc_chain_id (dp_config dp))) (Some (pd_verifying_contract p)) = Inr False" by blast
    obtain l where l: "fst (limit_signer dp ck (pd_signer p)) = dp\<lparr>dp_rate_limiter := l\<rparr>"
      and lc: "l = dp_rate_limiter dp \<or> l = fst (consume_locked (dp_rate_limiter dp) (pd_signer p) 1 (ck_mono ck))"
      and lr: "case snd (limit_signer dp ck (pd_signer p)) of Inl e \<Rightarrow> True
        | Inr (Some resp) \<Rightarrow> rs_status resp = 429
        | Inr None \<Rightarrow> try_consume (dp_rate_limiter dp) (pd_signer p) 1 (ck_mono ck) = Inr (l, True)"
      using limit_signer_cases by blast
    let ?dp1 = "dp\<lparr>dp_rate_limiter := l\<rparr>"
    have com: "commit_payment ?dp1 (rq_path rq) p =
      (case record_payment dp p of Inl e \<Rightarrow> (?dp1, Inl e) | Inr st \<Rightarrow> (?dp1\<lparr>dp_nonce_store := st\<rparr>, Inr None))"
      using commit_payment_eq [of ?dp1 p "rq_path rq"] has by (simp add: record_payment_def)
    consider (raise) e where "snd (limit_signer dp ck (pd_signer p)) = Inl e"
      | (limited) resp where "snd (limit_signer dp ck (pd_signer p)) = Inr (Some resp)"
      | (refused) resp where "snd (limit_signer dp ck (pd_signer p)) = Inr None" "refuse ?dp1 = Some resp"
      | (nostore) e where "snd (limit_signer dp ck (pd_signer p)) = Inr None" "refuse ?dp1 = None" "record_payment dp p = Inl e"
      | (served) st where "snd (limit_signer dp ck (pd_signer p)) = Inr None" "refuse ?dp1 = None" "record_payment dp p = Inr st"
      by (cases "snd (limit_signer dp ck (pd_signer p))"; cases "refuse ?dp1"; cases "record_payment dp p") fastforce+
    then show ?thesis
    proof cases
      case (served st)
      have "serves_ok serve dp m" using serve [OF _ served(2)] by simp
      then obtain resp where "serve (?dp1\<lparr>dp_nonce_store := st\<rparr>) p =
          (?dp1\<lparr>dp_nonce_store := st, dp_memory := m\<rparr>, Inr resp)" "rs_status resp = 200"
        unfolding serves_ok_def by (elim allE [of _ "?dp1\<lparr>dp_nonce_store := st\<rparr>"] allE [of _ p]) auto
      then have "dp' = ?dp1\<lparr>dp_nonce_store := st, dp_memory := m\<rparr>" "r = Inr resp" "rs_status resp = 200"
        using h cp l com served by (auto simp: paid_endpoint_def or_else_def)
      then have "served_with ev ck dp rq dp' r p \<and> dp_memory dp' = m"
        using cp served(1,3) lr by (simp add: served_with_def)
      then show ?thesis using served(2) by blast
    next
      case (raise e)
      then have "dp' = ?dp1" "r = Inl e" using h cp l by (simp_all add: paid_endpoint_def or_else_def)
      then show ?thesis using turned_awayI(2) [of r l dp, OF _ lc] by simp
    next
      case (limited resp)
      then have "dp' = ?dp1" "r = Inr resp" "rs_status resp = 429"
        using h cp l lr by (simp_all add: paid_endpoint_def or_else_def)
      then show ?thesis using turned_awayI(2) [of r l dp, OF _ lc] by simp
    next
      case (refused resp)
      then have "dp' = ?dp1" "r = Inr resp" using h cp l by (simp_all add: paid_endpoint_def or_else_def)
      then show ?thesis using turned_awayI(2) [of r l dp, OF _ lc] refuse [OF refused(2)] by simp
    next
      case (nostore e)
      then have "dp' = ?dp1" "r = Inl e" using h cp l com by (simp_all add: paid_endpoint_def or_else_def)
      then show ?thesis using turned_awayI(2) [of r l dp, OF _ lc] by simp
    qed
  qed
qed

lemma handle_query_outcome:
  assumes wf: "memory_wf (dp_memory dp)" and ev: "environment_ok ev"
    and h: "handle_query ev ck dp rq = (dp', r)"
  shows "turned_away ck dp dp' r \<or> (\<exists>p. served_with ev ck dp rq dp' r p \<and> dp_memory dp' = dp_memory dp)"
proof -
  have bad: ?thesis if "handle_query ev ck dp rq = (dp, Inr (respond 400 c))" for c
    using that h by (auto simp: respond_def intro!: turned_awayI)
  show ?thesis
  proof (cases "\<exists>d v k. rq_body rq = Some (JObj d) \<and> ev_query_body ev d = Some (v, k) \<and> length v = ms_dim (dp_memory dp)")
    case False
    then have "\<exists>c. handle_query ev ck dp rq = (dp, Inr (respond 400 c))"
      by (auto simp: handle_query_def respond_def split: option.split json.split)
    then show ?thesis using bad by blast
  next
    case True
    then obtain d v k where b: "rq_body rq = Some (JObj d)" "ev_query_body ev d = Some (v, k)"
      "length v = ms_dim (dp_memory dp)" by blast
    have k: "1 \<le> k" using ev b(2) by (auto simp: environment_ok_def)
    have "paid_endpoint ev ck dp rq (\<lambda>_. None) (\<lambda>dp3 p. serve_query ev v k dp3) = (dp', r)"
      using h b by (simp add: handle_query_def)
    moreover have "serves_ok (\<lambda>dp3 p. serve_query ev v k dp3) dp (dp_memory dp)"
      using query_total [OF wf b(3) k, of "ev_argpartition ev" "ev_argsort ev"]
      by (auto simp: serves_ok_def serve_query_def respond_def)
    ultimately show ?thesis
      using paid_endpoint_outcome [of ev ck dp rq "\<lambda>_. None" "\<lambda>dp3 p. serve_query ev v k dp3" dp' r "dp_memory dp"]
      by fastforce
  qed
qed

lemma handle_add_outcome:
  assumes h: "handle_add ev ck dp rq = (dp', r)"
  shows "turned_away ck dp dp' r \<or>
    (\<exists>p (body :: add_body) m. served_with ev ck dp rq dp' r p \<and> dp_memory dp' = m \<and>
       ab_trace_id body \<notin> fst ` set (ms_entries (dp_memory dp)) \<and>
       ab_kind body \<in> {''working'', ''episodic'', ''semantic''} \<and>
       add (dp_memory dp) (ab_trace_id body) (ab_vec body) (ab_kind body) False (Some (ab_payload body)) (ck_add ck) = Inr m)"
proof -
  have bad: ?thesis if "handle_add ev ck dp rq = (dp, Inr (respond 400 c))" for c
    using that h by (auto simp: respond_def intro!: turned_awayI)
  show ?thesis
  proof (cases "\<exists>d body. rq_body rq = Some (JObj d) \<and> ev_add_body ev d = Some body \<and>
      length (ab_vec body) = ms_dim (dp_memory dp) \<and> ab_kind body \<in> {''working'', ''episodic'', ''semantic''}")
    case False
    then have "\<exists>c. handle_add ev ck dp rq = (dp, Inr (respond 400 c))"
      by (auto simp: handle_add_def respond_def split: option.split json.split)
    then show ?thesis using bad by blast
  next
    case True
    then obtain d body where b: "rq_body rq = Some (JObj d)" "ev_add_body ev d = Some body"
      "length (ab_vec body) = ms_dim (dp_memory dp)" "ab_kind body \<in> {''working'', ''episodic'', ''semantic''}" by blast
    define m where "m = (ensure_centroid (dp_memory dp))\<lparr>ms_entries :=
        AList.update (ab_trace_id body) (new_entry (dp_memory dp) (ab_trace_id body) (ab_vec body) (ab_kind body)
          False (Some (ab_payload body)) (ck_add ck)) (ms_entries (dp_memory dp))\<rparr>"
    have kk: "ab_kind body \<in> set VALID_KINDS" using b(4) by (auto simp: VALID_KINDS_def)
    have am: "add (dp_memory dp) (ab_trace_id body) (ab_vec body) (ab_kind body) False (Some (ab_payload body)) (ck_add ck) = Inr m"
      using b(3) kk by (simp add: add_eq m_def)
    have "paid_endpoint ev ck dp rq (refuse_duplicate (ab_trace_id body)) (serve_add ck body) = (dp', r)"
      using h b by (auto simp: handle_add_def split: if_splits)
    note pe = this
    have so: "serves_ok (serve_add ck body) dp m"
      using am by (simp add: serves_ok_def serve_add_def respond_def)
    have "turned_away ck dp dp' r \<or> (\<exists>p l. served_with ev ck dp rq dp' r p \<and> dp_memory dp' = m \<and>
        refuse_duplicate (ab_trace_id body) (dp\<lparr>dp_rate_limiter := l\<rparr>) = None)"
      by (rule paid_endpoint_outcome [OF pe]) (use so in \<open>auto simp: refuse_duplicate_def respond_def split: if_splits\<close>)
    moreover have "ab_trace_id body \<notin> fst ` set (ms_entries (dp_memory dp))"
      if "refuse_duplicate (ab_trace_id body) (dp\<lparr>dp_rate_limiter := l\<rparr>) = None" for l
      using that by (simp add: refuse_duplicate_def split: if_splits)
    ultimately show ?thesis using am b(4) by blast
  qed
qed

subsection \<open>Runs of the server\<close>

text \<open>
  What can happen to a running pool: requests, turns of the purge loop, and restarts. A restart
  closes the process and starts a new one on the same files: the SQLite store is opened again (an
  in-memory store starts empty), the limiter starts afresh, the startup purge runs.
\<close>

datatype pool_event =
    EvQuery clock http_request
  | EvAdd clock http_request
  | EvPurge int
  | EvRestart int

definition restart :: "dark_pool \<Rightarrow> int \<Rightarrow> dark_pool" where
  "restart dp now =
     lifespan_startup
       (dp\<lparr>dp_nonce_store := (case dp_nonce_store dp of
              InMemoryNonceStore st \<Rightarrow> InMemoryNonceStore mem_empty
            | SqliteNonceStore db \<Rightarrow>
                (case sqlite_open (sqlite_close db) of Inr db' \<Rightarrow> SqliteNonceStore db' | Inl e \<Rightarrow> dp_nonce_store dp)),
          dp_rate_limiter := (dp_rate_limiter dp)\<lparr>rl_buckets := []\<rparr>\<rparr>) now"

fun pool_step :: "environment \<Rightarrow> pool_event \<Rightarrow> dark_pool \<Rightarrow> dark_pool \<times> response res option" where
  "pool_step ev (EvQuery ck rq) dp = map_prod id Some (handle_query ev ck dp rq)"
| "pool_step ev (EvAdd ck rq) dp = map_prod id Some (handle_add ev ck dp rq)"
| "pool_step ev (EvPurge now) dp = (purge_tick dp now, None)"
| "pool_step ev (EvRestart now) dp = (restart dp now, None)"

fun pool_run :: "environment \<Rightarrow> pool_event list \<Rightarrow> dark_pool \<Rightarrow> dark_pool" where
  "pool_run ev [] dp = dp"
| "pool_run ev (e # es) dp = pool_run ev es (fst (pool_step ev e dp))"

fun event_time :: "pool_event \<Rightarrow> int" where
  "event_time (EvQuery ck rq) = ck_now ck"
| "event_time (EvAdd ck rq) = ck_now ck"
| "event_time (EvPurge now) = now"
| "event_time (EvRestart now) = now"

text \<open>The wall clock does not run back.\<close>

fun clock_ok :: "int \<Rightarrow> pool_event list \<Rightarrow> bool" where
  "clock_ok t [] = True"
| "clock_ok t (e # es) = (t \<le> event_time e \<and> clock_ok (event_time e) es)"

fun event_request :: "pool_event \<Rightarrow> (clock \<times> http_request) option" where
  "event_request (EvQuery ck rq) = Some (ck, rq)"
| "event_request (EvAdd ck rq) = Some (ck, rq)"
| "event_request _ = None"

text \<open>
  The services rendered: for every 200, the key of the payment it was rendered for, the expiry of
  that payment and the time.
\<close>

definition served_entry :: "environment \<Rightarrow> pool_event \<Rightarrow> dark_pool \<Rightarrow> (nonce_key \<times> int \<times> int) list" where
  "served_entry ev e dp =
     (case event_request e of
        None \<Rightarrow> []
      | Some (ck, rq) \<Rightarrow>
          (if \<exists>resp. snd (pool_step ev e dp) = Some (Inr resp) \<and> rs_status resp = 200
           then (case check_payment ev dp (ck_now ck) rq of
                   Inr (Inr p) \<Rightarrow> [(paid_key (dp_config dp) p, pd_valid_before p, ck_now ck)]
                 | _ \<Rightarrow> [])
           else []))"

fun services :: "environment \<Rightarrow> pool_event list \<Rightarrow> dark_pool \<Rightarrow> (nonce_key \<times> int \<times> int) list" where
  "services ev [] dp = []"
| "services ev (e # es) dp = served_entry ev e dp @ services ev es (fst (pool_step ev e dp))"

definition durable :: "dark_pool \<Rightarrow> bool" where
  "durable dp \<longleftrightarrow> (\<exists>db. dp_nonce_store dp = SqliteNonceStore db \<and> schema_version db = ''2'')"

definition pool_wf :: "dark_pool \<Rightarrow> bool" where
  "pool_wf dp \<longleftrightarrow> memory_wf (dp_memory dp) \<and> ns_invar (dp_nonce_store dp)"

lemma step_outcome:
  assumes "pool_wf dp" and "environment_ok ev" and "event_request e = Some (ck, rq)"
    and "pool_step ev e dp = (dp', Some r)"
  shows "turned_away ck dp dp' r \<or> (\<exists>p. served_with ev ck dp rq dp' r p)"
  using assms handle_query_outcome [of dp ev ck rq dp' r] handle_add_outcome [of ev ck dp rq dp' r]
  by (cases e) (auto simp: pool_wf_def map_prod_def split: prod.splits)

text \<open>One service: the key was free, the payment in date, and the key now holds its expiry.\<close>

lemma served_lookup:
  assumes "pool_wf dp" and s: "served_with ev ck dp rq dp' r p"
  shows "ns_lookup (dp_nonce_store dp) (paid_key (dp_config dp) p) = None"
    and "ck_now ck < pd_valid_before p"
    and "ns_invar (dp_nonce_store dp')"
    and "ns_lookup (dp_nonce_store dp') k =
      (if k = paid_key (dp_config dp) p then Some (pd_valid_before p) else ns_lookup (dp_nonce_store dp) k)"
proof -
  obtain st where cp: "check_payment ev dp (ck_now ck) rq = Inr (Inr p)"
    and rp: "record_payment dp p = Inr st" and st: "dp_nonce_store dp' = st"
    using s by (auto simp: served_with_def)
  obtain payment from_addr to_addr a nonce_hex sig d where
    a: "authorises (ev_recover ev) (dp_config dp) (ck_now ck) payment p from_addr to_addr a nonce_hex sig d"
    and has: "ns_has (dp_nonce_store dp) (pd_signer p) (pd_nonce p) (Some (pc_chain_id (dp_config dp)))
      (Some (pd_verifying_contract p)) = Inr False"
    using check_payment_ok [OF cp] by blast
  have inv: "ns_invar (dp_nonce_store dp)" using assms(1) by (simp add: pool_wf_def)
  show none: "ns_lookup (dp_nonce_store dp) (paid_key (dp_config dp) p) = None"
    using ns.has_Inr [OF inv has] by (simp add: paid_key_def)
  show "ck_now ck < pd_valid_before p" using a by (auto simp: authorises_def)
  have rp': "ns_add (dp_nonce_store dp) (pd_signer p) (pd_nonce p) (pd_valid_before p)
      (Some (pc_chain_id (dp_config dp))) (Some (pd_verifying_contract p)) = Inr st"
    using rp by (simp add: record_payment_def)
  show "ns_invar (dp_nonce_store dp')" using ns.add_invar [OF inv rp'] st by simp
  show "ns_lookup (dp_nonce_store dp') k =
      (if k = paid_key (dp_config dp) p then Some (pd_valid_before p) else ns_lookup (dp_nonce_store dp) k)"
    using ns.add_lookup [OF inv rp', of k] none st by (auto simp: paid_key_def)
qed

end
