(* ===== verification/Pool_Runs.thy ===== *)
theory Pool_Runs
  imports Pool_Safety Memory_Root
begin

text \<open>
  Runs of the dark pool (\<open>agents/dark_pool.py\<close>): the invariant that links the log of services to
  the nonce store across requests, purges and restarts, and the properties of the paid endpoints.
\<close>

subsection \<open>The run invariant\<close>

text \<open>Every payment served and not yet expired at \<open>t\<close> is in the store under its own expiry.\<close>

definition log_recorded :: "(nonce_key \<times> int \<times> int) list \<Rightarrow> int \<Rightarrow> dark_pool \<Rightarrow> bool" where
  "log_recorded hist t dp \<longleftrightarrow>
     (\<forall>(k, vb, ts) \<in> set hist. t < vb \<longrightarrow> ns_lookup (dp_nonce_store dp) k = Some vb)"

lemma log_recorded_later: "log_recorded hist t dp \<Longrightarrow> t \<le> t' \<Longrightarrow> log_recorded hist t' dp"
  by (fastforce simp: log_recorded_def)

lemma log_recorded_purge:
  assumes "log_recorded hist t dp" and "ns_invar (dp_nonce_store dp)" and "t \<le> now"
    and "dp_nonce_store dp' = fst (ns_purge_expired (dp_nonce_store dp) now)"
  shows "log_recorded hist now dp'"
  using assms ns.purge_spec [OF assms(2), of now]
  by (fastforce simp: log_recorded_def)

lemma purge_tick_wf: "pool_wf dp \<Longrightarrow> pool_wf (purge_tick dp now)"
  using ns.purge_spec by (auto simp: pool_wf_def purge_tick_def)

lemma restart_durable:
  assumes "durable dp"
  shows "restart dp now =
    dp\<lparr>dp_nonce_store := fst (ns_purge_expired (dp_nonce_store dp) now),
       dp_rate_limiter := (dp_rate_limiter dp)\<lparr>rl_buckets := []\<rparr>\<rparr>"
  using assms sqlite_reopen by (auto simp: durable_def restart_def lifespan_startup_def)

lemma restart_wf: "pool_wf dp \<Longrightarrow> pool_wf (restart dp now)"
proof -
  assume w: "pool_wf dp"
  have "ns_invar (case dp_nonce_store dp of
              InMemoryNonceStore st \<Rightarrow> InMemoryNonceStore mem_empty
            | SqliteNonceStore db \<Rightarrow>
                (case sqlite_open (sqlite_close db) of Inr db' \<Rightarrow> SqliteNonceStore db' | Inl e \<Rightarrow> dp_nonce_store dp))"
    using w
    by (auto simp: pool_wf_def mem_empty_def sqlite_open_def sqlite_close_def maybe_migrate_legacy_file_def
        drop_legacy_file_def sqlite_wf_def Let_def split: nonce_store.split option.splits)
  from ns.purge_spec [OF this] w show ?thesis
    by (simp add: pool_wf_def restart_def lifespan_startup_def)
qed

lemma purge_durable:
  "durable dp \<Longrightarrow> dp_nonce_store dp' = fst (ns_purge_expired (dp_nonce_store dp) now) \<Longrightarrow> durable dp'"
  by (auto simp: durable_def sqlite_purge_expired_def)

lemma served_durable:
  "durable dp \<Longrightarrow> served_with ev ck dp rq dp' r p \<Longrightarrow> durable dp'"
  by (auto simp: durable_def served_with_def record_payment_def map_sum_eq_Inr sqlite_add_def
      resolve_domain_def split: if_splits)

definition no_restart :: "pool_event list \<Rightarrow> bool" where
  "no_restart es \<longleftrightarrow> (\<forall>e \<in> set es. \<forall>now. e \<noteq> EvRestart now)"

lemma step_wf:
  assumes "pool_wf dp" and "environment_ok ev"
  shows "pool_wf (fst (pool_step ev e dp))"
proof (cases e)
  case (EvQuery ck rq)
  obtain dp' r where h: "handle_query ev ck dp rq = (dp', r)" by fastforce
  from handle_query_outcome [OF _ assms(2) h] assms(1) served_lookup(3) [OF assms(1)]
  show ?thesis by (auto simp: EvQuery h pool_wf_def turned_away_def)
next
  case (EvAdd ck rq)
  obtain dp' r where h: "handle_add ev ck dp rq = (dp', r)" by fastforce
  have "memory_wf (dp_memory dp)" using assms(1) by (simp add: pool_wf_def)
  from handle_add_outcome [OF h] assms(1) served_lookup(3) [OF assms(1)] add_wf [OF this]
  show ?thesis by (auto simp: EvAdd h pool_wf_def turned_away_def)
qed (simp_all add: assms purge_tick_wf restart_wf)

lemma served_entry_eq:
  "served_entry ev e dp = [x] \<longleftrightarrow>
     (\<exists>ck rq p resp. event_request e = Some (ck, rq) \<and> snd (pool_step ev e dp) = Some (Inr resp) \<and>
        rs_status resp = 200 \<and> check_payment ev dp (ck_now ck) rq = Inr (Inr p) \<and>
        x = (paid_key (dp_config dp) p, pd_valid_before p, ck_now ck))"
  "length (served_entry ev e dp) \<le> 1"
proof -
  let ?P = "\<exists>resp. snd (pool_step ev e dp) = Some (Inr resp) \<and> rs_status resp = 200"
  have "(served_entry ev e dp = [x] \<longleftrightarrow>
     (\<exists>ck rq p. event_request e = Some (ck, rq) \<and> ?P \<and> check_payment ev dp (ck_now ck) rq = Inr (Inr p) \<and>
        x = (paid_key (dp_config dp) p, pd_valid_before p, ck_now ck))) \<and> length (served_entry ev e dp) \<le> 1"
  proof (cases "event_request e")
    case (Some ckrq)
    obtain ck rq where "ckrq = (ck, rq)" by fastforce
    note er = Some [unfolded this]
    show ?thesis
    proof (cases ?P)
      case True
      then have "served_entry ev e dp = (case check_payment ev dp (ck_now ck) rq of
          Inr (Inr p) \<Rightarrow> [(paid_key (dp_config dp) p, pd_valid_before p, ck_now ck)] | _ \<Rightarrow> [])"
        unfolding served_entry_def er option.case split_conv by (rule if_P)
      with True er show ?thesis
        by (cases "check_payment ev dp (ck_now ck) rq"; cases "projr (check_payment ev dp (ck_now ck) rq)") auto
    next
      case False
      then have "served_entry ev e dp = []"
        unfolding served_entry_def er option.case split_conv by (rule if_not_P)
      with False show ?thesis by simp
    qed
  qed (simp add: served_entry_def)
  then show "served_entry ev e dp = [x] \<longleftrightarrow>
     (\<exists>ck rq p resp. event_request e = Some (ck, rq) \<and> snd (pool_step ev e dp) = Some (Inr resp) \<and>
        rs_status resp = 200 \<and> check_payment ev dp (ck_now ck) rq = Inr (Inr p) \<and>
        x = (paid_key (dp_config dp) p, pd_valid_before p, ck_now ck))"
    "length (served_entry ev e dp) \<le> 1" by blast+
qed

lemma served_entryE:
  assumes "x \<in> set (served_entry ev e dp)" and "pool_wf dp" and "environment_ok ev"
  obtains ck rq p r where "event_request e = Some (ck, rq)" "ck_now ck = event_time e"
    "served_with ev ck dp rq (fst (pool_step ev e dp)) r p"
    "x = (paid_key (dp_config dp) p, pd_valid_before p, ck_now ck)"
proof -
  have "served_entry ev e dp = [x]"
    using assms(1) served_entry_eq(2) [of ev e dp] by (cases "served_entry ev e dp") auto
  then obtain ck rq resp p where er: "event_request e = Some (ck, rq)"
    and st: "snd (pool_step ev e dp) = Some (Inr resp)" "rs_status resp = 200"
    and cp: "check_payment ev dp (ck_now ck) rq = Inr (Inr p)"
    and x: "x = (paid_key (dp_config dp) p, pd_valid_before p, ck_now ck)"
    unfolding served_entry_eq(1) by blast
  have "pool_step ev e dp = (fst (pool_step ev e dp), Some (Inr resp))"
    using st(1) by (metis prod.collapse)
  from step_outcome [OF assms(2,3) er this] st(2) cp
  have "served_with ev ck dp rq (fst (pool_step ev e dp)) (Inr resp) p"
    by (auto simp: turned_away_def served_with_def)
  moreover have "ck_now ck = event_time e" using er by (cases e) auto
  ultimately show thesis using that er x by blast
qed

text \<open>One event: the log extended by what it served is recorded, and what it served was free before.\<close>

lemma step_log:
  assumes wf: "pool_wf dp" and ev: "environment_ok ev" and hist: "log_recorded hist t dp"
    and t: "t \<le> event_time e" and d: "durable dp \<or> (\<forall>now. e \<noteq> EvRestart now)"
  shows "log_recorded (hist @ served_entry ev e dp) (event_time e) (fst (pool_step ev e dp))"
proof (cases "served_entry ev e dp")
  case Nil
  show ?thesis
  proof (cases "event_request e")
    case None
    then show ?thesis
      using log_recorded_purge [OF hist _ t] wf d restart_durable
      by (cases e) (auto simp: served_entry_def pool_wf_def purge_tick_def)
  next
    case (Some ckrq)
    obtain ck rq where er: "event_request e = Some (ck, rq)" using Some by (cases ckrq) auto
    obtain r where r: "pool_step ev e dp = (fst (pool_step ev e dp), Some r)"
      using er by (cases e) (auto simp: map_prod_def split_beta)
    have te: "event_time e = ck_now ck" using er by (cases e) auto
    have "turned_away ck dp (fst (pool_step ev e dp)) r"
    proof (rule ccontr)
      assume "\<not> turned_away ck dp (fst (pool_step ev e dp)) r"
      then obtain p where "served_with ev ck dp rq (fst (pool_step ev e dp)) r p"
        using step_outcome [OF wf ev er r] by blast
      then have "served_entry ev e dp = [(paid_key (dp_config dp) p, pd_valid_before p, ck_now ck)]"
        using er arg_cong [OF r, of snd] unfolding served_entry_eq(1) served_with_def by auto
      then show False using Nil by simp
    qed
    then show ?thesis
      using log_recorded_later [OF hist t] by (auto simp: Nil log_recorded_def turned_away_def)
  qed
next
  case (Cons x xs)
  have xs: "xs = []" using served_entry_eq(2) [of ev e dp] Cons by simp
  obtain ck rq p r where er: "event_request e = Some (ck, rq)" "ck_now ck = event_time e"
    and s: "served_with ev ck dp rq (fst (pool_step ev e dp)) r p"
    and x: "x = (paid_key (dp_config dp) p, pd_valid_before p, ck_now ck)"
    using served_entryE [of x ev e dp] Cons wf ev by (metis list.set_intros(1))
  show ?thesis
    unfolding log_recorded_def
  proof clarify
    fix k1 k2 k3 k4 vb ts
    assume m: "((k1, k2, k3, k4), vb, ts) \<in> set (hist @ served_entry ev e dp)" "event_time e < vb"
    let ?k = "(k1, k2, k3, k4)"
    from m(1) consider "(?k, vb, ts) \<in> set hist" | "(?k, vb, ts) = x" by (auto simp: Cons xs)
    then show "ns_lookup (dp_nonce_store (fst (pool_step ev e dp))) ?k = Some vb"
    proof cases
      case 1
      then have "ns_lookup (dp_nonce_store dp) ?k = Some vb"
        using hist m(2) t by (fastforce simp: log_recorded_def)
      then show ?thesis using served_lookup(1,4) [OF wf s] by auto
    next
      case 2
      then show ?thesis using served_lookup(4) [OF wf s] x by simp
    qed
  qed
qed

text \<open>
  What the hist says about a payment served after another under the same key: the earlier one had
  expired.
\<close>

definition no_double :: "(nonce_key \<times> int \<times> int) list \<Rightarrow> bool" where
  "no_double hist \<longleftrightarrow>
     sorted_wrt (\<lambda>(k, vb, ts) (k', vb', ts'). k = k' \<longrightarrow> vb \<le> ts') hist \<and>
     (\<forall>(k, vb, ts) \<in> set hist. ts < vb)"

lemma step_keys:
  "dp_config (fst (pool_step ev e dp)) = dp_config dp \<or> \<not> (pool_wf dp \<and> environment_ok ev)"
proof (cases "pool_wf dp \<and> environment_ok ev")
  case True
  show ?thesis
  proof (cases "event_request e")
    case None
    then show ?thesis by (cases e) (simp_all add: purge_tick_def restart_def lifespan_startup_def)
  next
    case (Some ckrq)
    obtain ck rq where er: "event_request e = Some (ck, rq)" using Some by (cases ckrq) auto
    obtain r where r: "pool_step ev e dp = (fst (pool_step ev e dp), Some r)"
      using er by (cases e) (auto simp: map_prod_def split_beta)
    from step_outcome [OF _ _ er r] True show ?thesis
      by (auto simp: turned_away_def served_with_def)
  qed
qed simp

lemma run_no_double:
  assumes "pool_wf dp" and "environment_ok ev" and "clock_ok t es"
    and "durable dp \<or> no_restart es" and "log_recorded hist t dp" and "no_double hist"
  shows "no_double (hist @ services ev es dp)"
  using assms
proof (induction es arbitrary: dp t hist)
  case (Cons e es)
  let ?dp = "fst (pool_step ev e dp)"
  have t: "t \<le> event_time e" "clock_ok (event_time e) es" using Cons.prems(3) by auto
  have d: "durable dp \<or> (\<forall>now. e \<noteq> EvRestart now)" using Cons.prems(4) by (auto simp: no_restart_def)
  have rec: "log_recorded (hist @ served_entry ev e dp) (event_time e) ?dp"
    using step_log [OF Cons.prems(1,2,5) t(1) d] .
  have d': "durable ?dp \<or> no_restart es"
  proof (cases "durable dp")
    case True
    show ?thesis
    proof (cases "event_request e")
      case None
      then show ?thesis using True purge_durable [OF True] restart_durable [OF True]
        by (cases e) (auto simp: purge_tick_def)
    next
      case (Some ckrq)
      obtain ck rq where er: "event_request e = Some (ck, rq)" using Some by (cases ckrq) auto
      obtain r where r: "pool_step ev e dp = (?dp, Some r)"
        using er by (cases e) (auto simp: map_prod_def split_beta)
      from step_outcome [OF Cons.prems(1,2) er r] have "durable ?dp"
      proof
        assume "turned_away ck dp ?dp r"
        then obtain l where "?dp = dp\<lparr>dp_rate_limiter := l\<rparr>" by (auto simp: turned_away_def)
        then have "dp_nonce_store ?dp = dp_nonce_store dp" by simp
        with True show ?thesis by (simp add: durable_def)
      qed (use served_durable [OF True] in blast)
      then show ?thesis by simp
    qed
  next
    case False
    then show ?thesis using Cons.prems(4) by (auto simp: no_restart_def)
  qed
  have nd: "no_double (hist @ served_entry ev e dp)"
  proof (cases "served_entry ev e dp")
    case Nil
    then show ?thesis using Cons.prems(6) by simp
  next
    case (Cons x xs)
    have xs: "xs = []" using served_entry_eq(2) [of ev e dp] Cons by simp
    obtain ck rq p r where er: "ck_now ck = event_time e"
      and s: "served_with ev ck dp rq ?dp r p"
      and x: "x = (paid_key (dp_config dp) p, pd_valid_before p, ck_now ck)"
      using served_entryE [of x ev e dp] Cons \<open>pool_wf dp\<close> \<open>environment_ok ev\<close> by (metis list.set_intros(1))
    have "vb \<le> ck_now ck" if "(paid_key (dp_config dp) p, vb, ts) \<in> set hist" for vb ts
    proof (rule ccontr)
      assume "\<not> vb \<le> ck_now ck"
      then have "t < vb" using er t(1) by simp
      with that Cons.prems(5) have "ns_lookup (dp_nonce_store dp) (paid_key (dp_config dp) p) = Some vb"
        by (fastforce simp: log_recorded_def)
      then show False using served_lookup(1) [OF \<open>pool_wf dp\<close> s] by simp
    qed
    then show ?thesis
      using \<open>no_double hist\<close> served_lookup(2) [OF \<open>pool_wf dp\<close> s]
      by (auto simp: no_double_def sorted_wrt_append Cons xs x)
  qed
  from Cons.IH [OF step_wf [OF Cons.prems(1,2)] Cons.prems(2) t(2) d' rec nd] show ?case by simp
qed simp

subsection \<open>The limiter along a run\<close>

text \<open>How many services a signer was rendered.\<close>

definition served_to :: "string \<Rightarrow> (nonce_key \<times> int \<times> int) list \<Rightarrow> int" where
  "served_to s hist = int (length (filter (\<lambda>((cid, vc, sg, n), vb, ts). sg = s) hist))"

fun mono_time :: "pool_event \<Rightarrow> rat option" where
  "mono_time (EvQuery ck rq) = Some (ck_mono ck)"
| "mono_time (EvAdd ck rq) = Some (ck_mono ck)"
| "mono_time _ = None"

fun mono_ok :: "rat \<Rightarrow> pool_event list \<Rightarrow> rat \<Rightarrow> bool" where
  "mono_ok t0 [] t1 = (t0 \<le> t1)"
| "mono_ok t0 (e # es) t1 =
     (case mono_time e of None \<Rightarrow> mono_ok t0 es t1 | Some t \<Rightarrow> t0 \<le> t \<and> mono_ok t es t1)"

lemma mono_ok_le: "mono_ok t0 es t1 \<Longrightarrow> t0 \<le> t1"
  by (induction t0 es t1 rule: mono_ok.induct) (auto split: option.splits)

lemma signer_lower: "check_payment ev dp now rq = Inr (Inr p) \<Longrightarrow> lower (pd_signer p) = pd_signer p"
  by (drule check_payment_ok) (auto simp: authorises_def)

text \<open>One event against the limiter: what it serves a signer is paid for in tokens.\<close>

lemma step_tokens:
  assumes wf: "pool_wf dp" and ev: "environment_ok ev" and e: "\<forall>now. e \<noteq> EvRestart now"
    and inv: "limiter_inv (dp_rate_limiter dp) t0"
    and t: "case mono_time e of None \<Rightarrow> t0 = t1 | Some t \<Rightarrow> t0 \<le> t \<and> t = t1"
  shows "limiter_inv (dp_rate_limiter (fst (pool_step ev e dp))) t1 \<and>
    rl_refill_per_second (dp_rate_limiter (fst (pool_step ev e dp))) = rl_refill_per_second (dp_rate_limiter dp) \<and>
    of_int (served_to s (served_entry ev e dp)) + tokens_of (dp_rate_limiter (fst (pool_step ev e dp))) s t1
      \<le> tokens_of (dp_rate_limiter dp) s t0 + (t1 - t0) * rl_refill_per_second (dp_rate_limiter dp)"
proof (cases "event_request e")
  case None
  then have "dp_rate_limiter (fst (pool_step ev e dp)) = dp_rate_limiter dp" "served_entry ev e dp = []" "t0 = t1"
    using e t by (cases e; simp add: purge_tick_def served_entry_def)+
  with inv show ?thesis by (simp add: served_to_def)
next
  case (Some ckrq)
  obtain ck rq where er: "event_request e = Some (ck, rq)" using Some by (cases ckrq) auto
  have t': "t0 \<le> ck_mono ck" "ck_mono ck = t1" using er t by (cases e; simp)+
  obtain r where r: "pool_step ev e dp = (fst (pool_step ev e dp), Some r)"
    using er by (cases e) (auto simp: map_prod_def split_beta)
  let ?l = "dp_rate_limiter dp" and ?l' = "dp_rate_limiter (fst (pool_step ev e dp))"
  have one: "limiter_inv (fst (consume_locked ?l k 1 t1)) t1 \<and>
      of_int (granted ?l s [(k, 1, t1)]) + tokens_of (fst (consume_locked ?l k 1 t1)) s t1
        \<le> tokens_of ?l s t0 + (t1 - t0) * rl_refill_per_second ?l" for k
    using granted_balance [OF inv, of "[(k, 1, t1)]" t1 s] consume_locked_inv [OF inv, of t1 1 k] t' by simp
  from step_outcome [OF wf ev er r] show ?thesis
  proof
    assume ta: "turned_away ck dp (fst (pool_step ev e dp)) r"
    have "served_entry ev e dp = []"
    proof (rule ccontr)
      assume "served_entry ev e dp \<noteq> []"
      then obtain x where "served_entry ev e dp = [x]"
        using served_entry_eq(2) [of ev e dp] by (cases "served_entry ev e dp") auto
      then obtain resp where "snd (pool_step ev e dp) = Some (Inr resp)" "rs_status resp = 200"
        unfolding served_entry_eq(1) by blast
      with ta arg_cong [OF r, of snd] show False by (simp add: turned_away_def)
    qed
    moreover from ta consider "?l' = ?l" | k where "?l' = fst (consume_locked ?l k 1 t1)"
      unfolding turned_away_def t'(2) by auto
    then have "limiter_inv ?l' t1 \<and> rl_refill_per_second ?l' = rl_refill_per_second ?l \<and>
        tokens_of ?l' s t1 \<le> tokens_of ?l s t0 + (t1 - t0) * rl_refill_per_second ?l"
    proof cases
      case 1
      then show ?thesis
        using tokens_of_grow [OF inv order_refl, of t1 s] limiter_inv_later [OF inv, of t1] t' by simp
    next
      case 2
      have "0 \<le> granted ?l s [(k, 1, t1)]" by simp
      then show ?thesis using one [of k] by (simp add: 2 consume_locked_frame)
    qed
    ultimately show ?thesis by (simp add: served_to_def)
  next
    assume "\<exists>p. served_with ev ck dp rq (fst (pool_step ev e dp)) r p"
    then obtain p where s: "served_with ev ck dp rq (fst (pool_step ev e dp)) r p" by blast
    then have tc: "try_consume ?l (pd_signer p) 1 t1 = Inr (?l', True)"
      and cp: "check_payment ev dp (ck_now ck) rq = Inr (Inr p)"
      by (auto simp: served_with_def t'(2))
    then have l': "consume_locked ?l (pd_signer p) 1 t1 = (?l', True)"
      by (auto simp: try_consume_def)
    have "served_entry ev e dp = [(paid_key (dp_config dp) p, pd_valid_before p, ck_now ck)]"
      using er s arg_cong [OF r, of snd] unfolding served_entry_eq(1) served_with_def by auto
    then have "served_to s (served_entry ev e dp) = granted ?l s [(pd_signer p, 1, t1)]"
      using signer_lower [OF cp] by (simp add: served_to_def paid_key_def l')
    then show ?thesis
      using one [of "pd_signer p"] consume_locked_frame(2) [of ?l "pd_signer p" 1 t1] by (simp add: l')
  qed
qed

lemma served_to_append: "served_to s (a @ b) = served_to s a + served_to s b"
  by (simp add: served_to_def)

lemma run_tokens:
  assumes "pool_wf dp" and "environment_ok ev" and "no_restart es"
    and "limiter_inv (dp_rate_limiter dp) t0" and "mono_ok t0 es t1"
  shows "of_int (served_to s (services ev es dp)) + tokens_of (dp_rate_limiter (pool_run ev es dp)) s t1
     \<le> tokens_of (dp_rate_limiter dp) s t0 + (t1 - t0) * rl_refill_per_second (dp_rate_limiter dp)
    \<and> limiter_inv (dp_rate_limiter (pool_run ev es dp)) t1"
  using assms
proof (induction es arbitrary: dp t0)
  case Nil
  then show ?case
    using tokens_of_grow [OF Nil.prems(4) order_refl, of t1 s] limiter_inv_later [OF Nil.prems(4), of t1]
    by (simp add: served_to_def)
next
  case (Cons e es)
  let ?dp = "fst (pool_step ev e dp)"
  define t where "t = (case mono_time e of None \<Rightarrow> t0 | Some t \<Rightarrow> t)"
  have nr: "\<forall>now. e \<noteq> EvRestart now" "no_restart es" using Cons.prems(3) by (auto simp: no_restart_def)
  have mt: "case mono_time e of None \<Rightarrow> t0 = t | Some t' \<Rightarrow> t0 \<le> t' \<and> t' = t" "mono_ok t es t1"
    using Cons.prems(5) by (auto simp: t_def split: option.splits)
  note st = step_tokens [OF Cons.prems(1,2) nr(1) Cons.prems(4) mt(1), of s]
  have IH: "of_int (served_to s (services ev es ?dp)) + tokens_of (dp_rate_limiter (pool_run ev es ?dp)) s t1
      \<le> tokens_of (dp_rate_limiter ?dp) s t + (t1 - t) * rl_refill_per_second (dp_rate_limiter ?dp)
    \<and> limiter_inv (dp_rate_limiter (pool_run ev es ?dp)) t1"
    using Cons.IH [OF step_wf [OF Cons.prems(1,2)] Cons.prems(2) nr(2) _ mt(2)] st by blast
  from IH st show ?case by (simp add: served_to_append algebra_simps)
qed

end
