(* ===== verification/Pool_Example.thy ===== *)
theory Pool_Example
  imports Pool_Safety
begin

text \<open>
  A small concrete pool, one signed payment and the service it buys, evaluated by the simplifier:
  the instance on which the properties of the dark pool are exercised. Recovery is instantiated by
  the function that answers the sender named in the typed data.
\<close>

definition sample_sig_bytes :: "byte list" where
  "sample_sig_bytes = 0 # replicate 30 0 @ [1] @ replicate 31 0 @ [1] @ [27]"

definition sample_sig :: string where
  "sample_sig = to_hex sample_sig_bytes"

lemma from_bytes_big_zeros: "from_bytes_big (replicate n 0 @ bs) = from_bytes_big bs"
  by (induction n) (simp_all add: from_bytes_big_def)

lemma sample_sig_facts:
  "length sample_sig = 130" "fromhex sample_sig = Some sample_sig_bytes"
  "from_bytes_big (take 32 sample_sig_bytes) = 1" "from_bytes_big (take 32 (drop 32 sample_sig_bytes)) = 1"
  "\<not> startswith sample_sig ''0x''" "\<not> startswith sample_sig ''0X''"
proof -
  show "length sample_sig = 130" by (simp add: sample_sig_def sample_sig_bytes_def)
  show "fromhex sample_sig = Some sample_sig_bytes" by (simp add: sample_sig_def fromhex_to_hex)
  have s: "sample_sig_bytes = (replicate 31 0 @ [1]) @ (replicate 31 0 @ [1]) @ [27]"
    by (simp add: sample_sig_bytes_def numeral_eq_Suc)
  have "take 32 sample_sig_bytes = replicate 31 0 @ [1]" "take 32 (drop 32 sample_sig_bytes) = replicate 31 0 @ [1]"
    by (simp_all only: s take_append drop_append) simp_all
  then show "from_bytes_big (take 32 sample_sig_bytes) = 1" "from_bytes_big (take 32 (drop 32 sample_sig_bytes)) = 1"
    by (simp_all add: from_bytes_big_zeros) (simp_all add: from_bytes_big_def)
  show "\<not> startswith sample_sig ''0x''" "\<not> startswith sample_sig ''0X''"
    by (simp_all add: startswith_def sample_sig_def sample_sig_bytes_def to_hex_def hex_digit_def char_of_def bit_0)
qed

definition echo_recover :: recover where
  "echo_recover td sig = Inr (td_from td)"

lemma recover_sample:
  assumes "lower (td_from td) \<noteq> ZERO_ADDRESS"
  shows "recover_signer echo_recover td sample_sig = Inr (td_from td)"
proof -
  have "\<not> SECP256K1_HALF_N < 1" by (simp add: SECP256K1_HALF_N_def SECP256K1_N_def)
  with assms show ?thesis by (simp add: recover_signer_def sample_sig_facts echo_recover_def)
qed

definition sample_auth :: "string \<Rightarrow> dict" where
  "sample_auth nonce = [(''from'', JStr ''0xA1''), (''to'', JStr ''0xB2''), (''value'', JInt 1000),
     (''validAfter'', JInt 0), (''validBefore'', JInt 100), (''nonce'', JStr nonce)]"

definition sample_fields :: "string \<Rightarrow> auth_fields" where
  "sample_fields nonce = \<lparr>au_from = JStr ''0xA1'', au_to = JStr ''0xB2'', au_value = 1000,
     au_valid_after = 0, au_valid_before = 100, au_nonce = JStr nonce\<rparr>"

definition sample_payment :: "string \<Rightarrow> dict" where
  "sample_payment nonce = [(''x402Version'', JInt 1), (''scheme'', JStr ''exact''), (''network'', JStr ''arc-testnet''),
     (''payload'', JObj [(''signature'', JStr sample_sig), (''authorization'', JObj (sample_auth nonce))])]"

definition sample_header :: "string \<Rightarrow> string" where
  "sample_header nonce = encode_header ratio_repr (JObj (sample_payment nonce))"

lemma sample_header_facts:
  assumes "ascii nonce"
  shows "decode_header (sample_header nonce) = Some (JObj (sample_payment nonce))" "sample_header nonce \<noteq> []"
proof -
  have "length (nat_str 1) \<le> 4300" "length (nat_str 1000) \<le> 4300" "length (nat_str 0) \<le> 4300"
    "length (nat_str 100) \<le> 4300"
    by (simp_all add: nat_str.simps)
  then have "wire_ok (JObj (sample_payment nonce))"
    using assms by (simp add: sample_payment_def sample_auth_def sample_sig_def)
  then show d: "decode_header (sample_header nonce) = Some (JObj (sample_payment nonce))"
    by (simp add: sample_header_def header_roundtrip)
  have "decode_header [] = None"
    by (simp add: decode_header_def b64decode_def decode_utf8_def json_loads_def)
  with d show "sample_header nonce \<noteq> []" by force
qed

definition sample_env :: environment where
  "sample_env = \<lparr>ev_recover = echo_recover, 
     ev_query_body = (\<lambda>d. Some ([0], 3)),
     ev_add_body = (\<lambda>d. Some \<lparr>ab_trace_id = ''t'', ab_vec = [1], ab_payload = [], ab_kind = ''working''\<rparr>),
     ev_argpartition = (\<lambda>xs _. sort_index xs), ev_argsort = sort_index\<rparr>"

definition sample_config :: pool_config where
  "sample_config = \<lparr>pc_price_units = 1000, pc_payment_recipient = ''0xb2'', pc_chain_id = 5042002,
     pc_usdc_address = ''0xc3'', pc_network = ''arc-testnet'', pc_usdc_name = ''USDC'', pc_usdc_version = ''2'',
     pc_max_timeout_seconds = 60, pc_gateway_wallet_address = None, pc_gateway_domain_name = '''',
     pc_gateway_domain_version = ''''\<rparr>"

definition sample_memory :: memory where
  "sample_memory = \<lparr>ms_dim = 1, ms_decay_lambdas = default_lambdas, ms_seed = 0, ms_P = [[1]],
     ms_centroid = None, ms_entries = []\<rparr>"

definition sample_limiter :: limiter where
  "sample_limiter = \<lparr>rl_capacity = 60, rl_refill_per_second = 1, rl_buckets = []\<rparr>"

definition sample_pool :: "nonce_row list \<Rightarrow> dark_pool" where
  "sample_pool rows = \<lparr>dp_config = sample_config, dp_memory = sample_memory,
     dp_nonce_store = SqliteNonceStore \<lparr>nonces = rows, schema_version = ''2''\<rparr>,
     dp_rate_limiter = sample_limiter\<rparr>"

definition sample_request :: "string \<Rightarrow> http_request" where
  "sample_request nonce = \<lparr>rq_path = ''/query'', rq_body = Some (JObj []), rq_payment = Some (sample_header nonce)\<rparr>"

definition sample_clock :: "int \<Rightarrow> clock" where
  "sample_clock t = \<lparr>ck_now = t, ck_mono = of_int t, ck_mono_retry = of_int t, ck_add = 0\<rparr>"

definition sample_paid :: "string \<Rightarrow> paid" where
  "sample_paid nonce = \<lparr>pd_signer = ''0xa1'', pd_nonce = lower nonce, pd_valid_before = 100,
     pd_verifying_contract = ''0xc3''\<rparr>"

lemma sample_lower: "lower ''0xA1'' = ''0xa1''" "lower ''0xa1'' = ''0xa1''" "lower ''0xB2'' = ''0xb2''"
  "lower ''0xb2'' = ''0xb2''" "lower ''0xc3'' = ''0xc3''"
  by (simp_all add: lower_eval)

lemma sample_read: "read_authorization (sample_auth nonce) = Inr (sample_fields nonce)"
  by (simp add: read_authorization_def sample_auth_def sample_fields_def dict_item_def)

lemma sample_validate:
  assumes "now < 100" and "0 \<le> now + 5"
  shows "validate_payment echo_recover sample_config store now (sample_payment nonce) =
    res_bind (ns_has store ''0xa1'' (lower nonce) (Some 5042002) (Some ''0xc3'')) (\<lambda>seen.
      Inr \<lparr>vd_ok = \<not> seen, vd_error = (if seen then Some ''nonce replayed'' else None),
           vd_signer = Some ''0xa1'', vd_nonce = Some (lower nonce), vd_valid_before = Some 100,
           vd_verifying_contract = Some ''0xc3''\<rparr>)"
proof -
  have "length ''0xa1'' \<noteq> length ZERO_ADDRESS" by (simp add: ZERO_ADDRESS_def)
  then have z: "''0xa1'' \<noteq> ZERO_ADDRESS" by metis
  have "recover_signer echo_recover (typed_for sample_config ''0xA1'' ''0xB2'' (sample_fields nonce) nonce d) sample_sig =
      Inr ''0xA1''" for d
    using recover_sample z by (cases d) (simp add: typed_for_def build_typed_data_def sample_lower)
  then have "validate_authorization echo_recover sample_config store now (sample_fields nonce) sample_sig =
    res_bind (ns_has store ''0xa1'' (lower nonce) (Some 5042002) (Some ''0xc3'')) (\<lambda>seen.
      Inr \<lparr>vd_ok = \<not> seen, vd_error = (if seen then Some ''nonce replayed'' else None),
           vd_signer = Some ''0xa1'', vd_nonce = Some (lower nonce), vd_valid_before = Some 100,
           vd_verifying_contract = Some ''0xc3''\<rparr>)"
    using assms z
    by (simp add: validate_authorization_def sample_fields_def sample_config_def sample_lower
        VALUE_UPPER_FACTOR_def candidate_domains_def Let_def)
  then show ?thesis
    by (simp add: validate_payment_def sample_payment_def dict_get_def DEFAULT_SCHEME_def sample_config_def
        sample_read)
qed

lemma sample_check:
  assumes "dp_config dp = sample_config" and "now < 100" and "0 \<le> now + 5" and "ascii nonce"
    and "ns_has (dp_nonce_store dp) ''0xa1'' (lower nonce) (Some 5042002) (Some ''0xc3'') = Inr False"
  shows "check_payment sample_env dp now (sample_request nonce) = Inr (Inr (sample_paid nonce))"
  using assms
  by (simp add: check_payment_def sample_request_def sample_env_def parse_payment_header_def
      sample_header_facts sample_validate sample_paid_def)

lemma sample_consume:
  "try_consume sample_limiter s 1 t =
     Inr (sample_limiter\<lparr>rl_buckets := [(s, \<lparr>bk_tokens = 59, bk_last_refill = t\<rparr>)]\<rparr>, True)"
  by (simp add: try_consume_def consume_locked_def sample_limiter_def)

definition sample_row :: "string \<Rightarrow> nonce_row" where
  "sample_row nonce = \<lparr>row_chain_id = 5042002, row_verifying_contract = ''0xc3'', row_signer = ''0xa1'',
     row_nonce = lower nonce, row_expires_at = 100\<rparr>"

lemma sample_served:
  assumes "ascii nonce" and "now < 100" and "0 \<le> now + 5" and "sample_row nonce \<notin> set rows"
    and "\<forall>r \<in> set rows. \<exists>n. r = sample_row n"
  shows "handle_query sample_env (sample_clock now) (sample_pool rows) (sample_request nonce) =
    ((sample_pool (rows @ [sample_row nonce]))\<lparr>dp_rate_limiter :=
        sample_limiter\<lparr>rl_buckets := [(''0xa1'', \<lparr>bk_tokens = 59, bk_last_refill = of_int now\<rparr>)]\<rparr>\<rparr>,
     Inr (respond 200 (Results [])))"
proof -
  let ?store = "SqliteNonceStore \<lparr>nonces = rows, schema_version = ''2''\<rparr>"
  have fresh: "row_key (sample_row nonce) \<notin> row_key ` set rows"
  proof
    assume "row_key (sample_row nonce) \<in> row_key ` set rows"
    then obtain r where r: "r \<in> set rows" "row_key r = row_key (sample_row nonce)" by auto
    with assms(5) obtain n where n: "r = sample_row n" by blast
    with r(2) have "lower n = lower nonce" by (simp add: row_key_def sample_row_def)
    with n r(1) assms(4) show False by (simp add: sample_row_def)
  qed
  then have fr: "(5042002, ''0xc3'', ''0xa1'', lower nonce) \<notin> row_key ` set rows"
    by (simp add: row_key_def sample_row_def)
  have has: "ns_has ?store ''0xa1'' (lower nonce) (Some 5042002) (Some ''0xc3'') = Inr False"
    using fr by (simp add: sqlite_has_Inr sqlite_lookup_None sample_lower int64_def)
  have ad: "ns_add ?store ''0xa1'' (lower nonce) 100 (Some 5042002) (Some ''0xc3'') =
      Inr (SqliteNonceStore \<lparr>nonces = rows @ [sample_row nonce], schema_version = ''2''\<rparr>)"
    using fr by (simp add: sqlite_add_def sample_lower int64_def sample_row_def)
  have cp: "check_payment sample_env (sample_pool rows) now (sample_request nonce) = Inr (Inr (sample_paid nonce))"
    using sample_check [of "sample_pool rows" now nonce] assms(1-3) has by (simp add: sample_pool_def)
  have "handle_query sample_env (sample_clock now) (sample_pool rows) (sample_request nonce) =
      paid_endpoint sample_env (sample_clock now) (sample_pool rows) (sample_request nonce) (\<lambda>_. None)
        (\<lambda>dp3 p. serve_query sample_env [0] 3 dp3)"
    by (simp add: handle_query_def sample_request_def sample_env_def sample_pool_def sample_memory_def)
  also have "\<dots> = ((sample_pool (rows @ [sample_row nonce]))\<lparr>dp_rate_limiter :=
        sample_limiter\<lparr>rl_buckets := [(''0xa1'', \<lparr>bk_tokens = 59, bk_last_refill = of_int now\<rparr>)]\<rparr>\<rparr>,
     Inr (respond 200 (Results [])))"
    using cp has ad
    by (simp add: paid_endpoint_def sample_clock_def limit_signer_def or_else_def commit_payment_def
        commit_nonce_def serve_query_def query_def query_results_def sample_pool_def sample_config_def
        sample_memory_def sample_paid_def sample_consume)
  finally show ?thesis .
qed

lemma sample_facts:
  "pool_wf (sample_pool [])" "environment_ok sample_env" "durable (sample_pool [])"
  "limiter_inv (dp_rate_limiter (sample_pool rows)) t"
  by (simp_all add: pool_wf_def sample_pool_def memory_wf_def sample_memory_def sqlite_wf_def
      environment_ok_def sample_env_def durable_def limiter_inv_def sample_limiter_def)

end
