(* ===== verification/Pool_Properties.thy ===== *)
theory Pool_Properties
  imports Pool_Runs Pool_Example
begin

text \<open>
  The properties of the dark pool server (\<open>agents/dark_pool.py\<close>), over single requests and over
  runs of requests, purges and restarts.
\<close>

text \<open>C10: (safety) No authorisation is served twice. Over any run of requests to both endpoints, purges and
  restarts with a wall clock that does not run back, starting from any store without open services,
  the log of services never holds two entries for the same (domain, signer, nonce) unless the first
  one's \<open>validBefore\<close> had passed when the second was served, and every service was rendered before
  the \<open>validBefore\<close> of its payment; restarts are allowed when the store is the SQLite one.\<close>

theorem no_authorisation_served_twice:
  assumes "pool_wf dp" and "environment_ok ev" and "clock_ok t es" and "durable dp \<or> no_restart es"
  shows "sorted_wrt (\<lambda>(k, vb, ts) (k', vb', ts'). k = k' \<longrightarrow> vb \<le> ts') (services ev es dp) \<and>
    (\<forall>(k, vb, ts) \<in> set (services ev es dp). ts < vb) \<and>
    distinct (map (\<lambda>(k, vb, ts). (k, vb)) (services ev es dp))"
proof -
  have nd: "no_double (services ev es dp)"
    using run_no_double [OF assms, of "[]"] by (simp add: log_recorded_def no_double_def)
  have "distinct (map (\<lambda>(k, vb, ts). (k, vb)) h)" if "no_double h" for h
    using that
  proof (induction h)
    case (Cons x h)
    obtain k vb ts where x: "x = (k, vb, ts)" by (cases x)
    have "(k, vb) \<notin> set (map (\<lambda>(k, vb, ts). (k, vb)) h)"
    proof
      assume "(k, vb) \<in> set (map (\<lambda>(k, vb, ts). (k, vb)) h)"
      then obtain ts' where "(k, vb, ts') \<in> set h" by auto
      with Cons.prems have "vb \<le> ts'" "ts' < vb" by (fastforce simp: no_double_def x)+
      then show False by simp
    qed
    with Cons show ?case by (simp add: no_double_def x)
  qed simp
  with nd show ?thesis by (simp add: no_double_def)
qed

lemma no_authorisation_served_twice_witness:
  "services sample_env [EvQuery (sample_clock 10) (sample_request ''0xab''), EvRestart 20,
       EvQuery (sample_clock 30) (sample_request ''0xab'')] (sample_pool []) \<noteq> [] \<and>
   distinct (map (\<lambda>(k, vb, ts). (k, vb))
     (services sample_env [EvQuery (sample_clock 10) (sample_request ''0xab''), EvRestart 20,
       EvQuery (sample_clock 30) (sample_request ''0xab'')] (sample_pool [])))"
proof -
  have "ns_has (dp_nonce_store (sample_pool [])) ''0xa1'' (lower ''0xab'') (Some 5042002) (Some ''0xc3'') = Inr False"
    by (simp add: sample_pool_def sqlite_has_Inr int64_def sqlite_lookup_None)
  then have cp: "check_payment sample_env (sample_pool []) 10 (sample_request ''0xab'') = Inr (Inr (sample_paid ''0xab''))"
    using sample_check [of "sample_pool []" 10 "''0xab''"] by (simp add: sample_pool_def)
  have "served_entry sample_env (EvQuery (sample_clock 10) (sample_request ''0xab'')) (sample_pool []) =
      [(paid_key (dp_config (sample_pool [])) (sample_paid ''0xab''), pd_valid_before (sample_paid ''0xab''), 10)]"
    unfolding served_entry_eq(1)
    using cp sample_served [of "''0xab''" 10 "[]"] by (simp add: sample_clock_def respond_def)
  then show ?thesis
    using no_authorisation_served_twice [OF sample_facts(1,2), of 0 "[EvQuery (sample_clock 10) (sample_request ''0xab''),
        EvRestart 20, EvQuery (sample_clock 30) (sample_request ''0xab'')]"] sample_facts(3)
    by (simp add: sample_clock_def)
qed

text \<open>C11: (safety) A 200 from either endpoint was paid for: the request carried a header that decodes to an
  \<open>exact\<close> payment on the server's network whose signature recovers, in the direct-USDC or the
  configured Gateway domain, the non-zero \<open>from\<close> address of an authorisation to the server's
  recipient, for between one and two times the price, in date at the server's clock; its nonce was
  not in the store before and is recorded under exactly that domain with its \<open>validBefore\<close> after.\<close>

theorem service_is_paid_for:
  assumes "pool_wf dp" and "environment_ok ev" and "e = EvQuery ck rq \<or> e = EvAdd ck rq"
    and "pool_step ev e dp = (dp', Some (Inr resp))" and "rs_status resp = 200"
  shows "\<exists>hdr payment from_addr to_addr a nonce_hex sig vc name version key.
     rq_payment rq = Some hdr \<and> decode_header hdr = Some (JObj payment) \<and>
     authorises (ev_recover ev) (dp_config dp) (ck_now ck) payment
       \<lparr>pd_signer = lower from_addr, pd_nonce = lower nonce_hex, pd_valid_before = au_valid_before a,
        pd_verifying_contract = vc\<rparr> from_addr to_addr a nonce_hex sig (vc, name, version) \<and>
     key = (pc_chain_id (dp_config dp), lower vc, lower from_addr, lower nonce_hex) \<and>
     ns_lookup (dp_nonce_store dp) key = None \<and>
     ns_lookup (dp_nonce_store dp') = (ns_lookup (dp_nonce_store dp))(key \<mapsto> au_valid_before a)"
proof -
  have er: "event_request e = Some (ck, rq)" using assms(3) by auto
  from step_outcome [OF assms(1,2) er assms(4)] assms(5) obtain p where
    s: "served_with ev ck dp rq dp' (Inr resp) p" by (auto simp: turned_away_def)
  then have "check_payment ev dp (ck_now ck) rq = Inr (Inr p)" by (auto simp: served_with_def)
  from check_payment_ok [OF this] obtain hdr payment from_addr to_addr a nonce_hex sig d where
    h: "rq_payment rq = Some hdr" "decode_header hdr = Some (JObj payment)"
    and a: "authorises (ev_recover ev) (dp_config dp) (ck_now ck) payment p from_addr to_addr a nonce_hex sig d"
    by blast
  obtain vc name version where d: "d = (vc, name, version)" by (cases d)
  have p: "p = \<lparr>pd_signer = lower from_addr, pd_nonce = lower nonce_hex, pd_valid_before = au_valid_before a,
      pd_verifying_contract = vc\<rparr>" using a by (simp add: authorises_def d)
  have k: "paid_key (dp_config dp) p = (pc_chain_id (dp_config dp), lower vc, lower from_addr, lower nonce_hex)"
    by (simp add: paid_key_def p)
  have "ns_lookup (dp_nonce_store dp') = (ns_lookup (dp_nonce_store dp))
      ((pc_chain_id (dp_config dp), lower vc, lower from_addr, lower nonce_hex) \<mapsto> au_valid_before a)"
    using served_lookup(4) [OF assms(1) s] by (simp only: k) (simp add: p fun_eq_iff)
  moreover have "ns_lookup (dp_nonce_store dp) (pc_chain_id (dp_config dp), lower vc, lower from_addr, lower nonce_hex) = None"
    using served_lookup(1) [OF assms(1) s] by (simp only: k)
  ultimately show ?thesis using h a [unfolded d p] by blast
qed

lemma service_is_paid_for_witness:
  "\<exists>hdr payment. rq_payment (sample_request ''0xab'') = Some hdr \<and> decode_header hdr = Some (JObj payment)"
proof -
  have "pool_step sample_env (EvQuery (sample_clock 10) (sample_request ''0xab'')) (sample_pool []) =
      (fst (pool_step sample_env (EvQuery (sample_clock 10) (sample_request ''0xab'')) (sample_pool [])),
       Some (Inr (respond 200 (Results []))))"
    using sample_served [of "''0xab''" 10 "[]"] by simp
  from service_is_paid_for [OF sample_facts(1,2) disjI1 [OF refl] this] show ?thesis
    by (simp add: respond_def) blast
qed



text \<open>Paid writes only ever append: entries keep their place in the map, pinned ones stay pinned.\<close>

definition memory_extends :: "memory \<Rightarrow> memory \<Rightarrow> bool" where
  "memory_extends m m' \<longleftrightarrow>
     (\<forall>t e. map_of (ms_entries m) t = Some e \<longrightarrow> map_of (ms_entries m') t = Some e) \<and>
     pinned_view m' = pinned_view m"

lemma memory_extends_refl: "memory_extends m m"
  by (simp add: memory_extends_def)

lemma memory_extends_trans: "memory_extends m m1 \<Longrightarrow> memory_extends m1 m2 \<Longrightarrow> memory_extends m m2"
  by (simp add: memory_extends_def)

lemma step_extends:
  assumes "pool_wf dp" and "environment_ok ev"
  shows "memory_extends (dp_memory dp) (dp_memory (fst (pool_step ev e dp)))"
proof (cases e)
  case (EvQuery ck rq)
  obtain dp' r where h: "handle_query ev ck dp rq = (dp', r)" by fastforce
  from handle_query_outcome [OF _ assms(2) h] assms(1) show ?thesis
    by (auto simp: EvQuery h pool_wf_def turned_away_def memory_extends_refl)
next
  case (EvAdd ck rq)
  obtain dp' r where h: "handle_add ev ck dp rq = (dp', r)" by fastforce
  from handle_add_outcome [OF h] show ?thesis
  proof
    assume "turned_away ck dp dp' r"
    then show ?thesis by (auto simp: EvAdd h turned_away_def memory_extends_refl)
  next
    assume "\<exists>p (body :: add_body) m. served_with ev ck dp rq dp' r p \<and> dp_memory dp' = m \<and>
       ab_trace_id body \<notin> fst ` set (ms_entries (dp_memory dp)) \<and>
       ab_kind body \<in> {''working'', ''episodic'', ''semantic''} \<and>
       add (dp_memory dp) (ab_trace_id body) (ab_vec body) (ab_kind body) False (Some (ab_payload body)) (ck_add ck) = Inr m"
    then obtain body :: add_body where
      fresh: "ab_trace_id body \<notin> fst ` set (ms_entries (dp_memory dp))"
      and kind: "ab_kind body \<in> {''working'', ''episodic'', ''semantic''}"
      and m: "add (dp_memory dp) (ab_trace_id body) (ab_vec body) (ab_kind body) False (Some (ab_payload body)) (ck_add ck)
        = Inr (dp_memory dp')" by blast
    have none: "map_of (ms_entries (dp_memory dp)) (ab_trace_id body) = None"
      using fresh by (simp add: map_of_eq_None_iff)
    have np: "ab_kind body \<noteq> ''pinned''" using kind by auto
    have "pinned_view (dp_memory dp') = pinned_view (dp_memory dp)"
      unfolding add_view [OF m] using none np by (auto simp: pinned_view_def fun_eq_iff)
    moreover have "map_of (ms_entries (dp_memory dp')) t = Some e'"
      if "map_of (ms_entries (dp_memory dp)) t = Some e'" for t e'
      using none that by (auto simp: add_entries [OF m] update_conv')
    ultimately show ?thesis by (simp add: EvAdd h memory_extends_def)
  qed
qed (simp_all add: purge_tick_def restart_def lifespan_startup_def memory_extends_refl)

lemma run_extends:
  "pool_wf dp \<Longrightarrow> environment_ok ev \<Longrightarrow>
   memory_extends (dp_memory dp) (dp_memory (pool_run ev es dp)) \<and> pool_wf (pool_run ev es dp)"
proof (induction es arbitrary: dp)
  case (Cons e es)
  from Cons.IH [OF step_wf [OF Cons.prems, of e] Cons.prems(2)] step_extends [OF Cons.prems, of e]
  show ?case by (auto intro: memory_extends_trans)
qed (simp add: memory_extends_refl)

text \<open>C13: (invariant) Customers cannot rewrite the pool: over any run of requests, purges and restarts every entry
  the memory held is still there, unchanged (a paid \<open>/add\<close> never overwrites), no pinned entry is
  added or lost, and the pinned Merkle root that the operator anchored is the same.\<close>

theorem customers_cannot_rewrite_memory:
  assumes "pool_wf dp" and "environment_ok ev"
  shows "pinned_merkle_root H fr (dp_memory (pool_run ev es dp)) = pinned_merkle_root H fr (dp_memory dp) \<and>
    (\<forall>t e. map_of (ms_entries (dp_memory dp)) t = Some e \<longrightarrow>
       map_of (ms_entries (dp_memory (pool_run ev es dp))) t = Some e)"
  using run_extends [OF assms, of es] assms(1)
    root_view [of "dp_memory (pool_run ev es dp)" "dp_memory dp" H fr]
  by (auto simp: memory_extends_def pool_wf_def)

lemma customers_cannot_rewrite_memory_witness:
  "\<forall>H fr. pinned_merkle_root H fr (dp_memory (pool_run sample_env
      [EvAdd (sample_clock 10) (sample_request ''0xab''), EvPurge 50] (sample_pool []))) =
   pinned_merkle_root H fr (dp_memory (sample_pool []))"
  using customers_cannot_rewrite_memory [OF sample_facts(1,2)] by blast

text \<open>C14: (bounds) The server bounds what any signer gets: between two readings of the monotonic clock, over any
  run without a restart, the number of services rendered to one signer is at most the limiter's
  capacity plus the elapsed time times its rate, whatever the other signers do.\<close>

theorem services_are_rate_limited:
  assumes "pool_wf dp" and "environment_ok ev" and "no_restart es"
    and "limiter_inv (dp_rate_limiter dp) t0" and "mono_ok t0 es t1"
  shows "of_int (served_to s (services ev es dp))
     \<le> of_int (rl_capacity (dp_rate_limiter dp)) + (t1 - t0) * rl_refill_per_second (dp_rate_limiter dp)"
proof -
  have "0 \<le> tokens_of (dp_rate_limiter (pool_run ev es dp)) s t1"
    using run_tokens [OF assms] by (intro tokens_of_bounds(1) [of _ t1]) auto
  moreover have "tokens_of (dp_rate_limiter dp) s t0 \<le> of_int (rl_capacity (dp_rate_limiter dp))"
    using tokens_of_bounds(2) [OF assms(4) order_refl] .
  ultimately show ?thesis using run_tokens [OF assms, of s] by linarith
qed

lemma services_are_rate_limited_witness:
  "of_int (served_to ''0xa1'' (services sample_env [EvQuery (sample_clock 10) (sample_request ''0xab''),
      EvQuery (sample_clock 30) (sample_request ''0xcd'')] (sample_pool []))) \<le> (60 + 20 :: rat)"
  using services_are_rate_limited [OF sample_facts(1,2) _ sample_facts(4),
      of "[EvQuery (sample_clock 10) (sample_request ''0xab''), EvQuery (sample_clock 30) (sample_request ''0xcd'')]" 10 30 "''0xa1''"]
  by (simp add: no_restart_def sample_clock_def) (simp add: sample_pool_def sample_limiter_def)

text \<open>The \<open>Retry-After\<close> of a 429 is honest: it is a positive whole number of seconds, less than one
  second more than the exact delay unless it is the minimum of one, and a request of the same
  signer that many seconds later finds a token.\<close>

theorem retry_after_header_is_honest:
  assumes "limiter_inv (dp_rate_limiter dp) t0" and "t0 \<le> ck_mono ck" and "ck_mono ck \<le> ck_mono_retry ck"
    and "limit_signer dp ck s = (dp', Inr (Some resp))"
    and "ck_mono_retry ck + of_int (the (rs_retry_after resp)) \<le> t"
  shows "\<exists>h d. rs_status resp = 429 \<and> rs_retry_after resp = Some h \<and> rs_content resp = RateLimited s (Seconds d) \<and>
    1 \<le> h \<and> d \<le> of_int h \<and> (h = 1 \<or> of_int h < d + 1) \<and>
    snd (consume_locked (dp_rate_limiter dp') s 1 t)"
proof -
  let ?l = "fst (consume_locked (dp_rate_limiter dp) s 1 (ck_mono ck))"
  obtain d where d: "retry_after ?l s 1 (ck_mono_retry ck) = Inr (Seconds d)"
    and dp': "dp' = dp\<lparr>dp_rate_limiter := ?l\<rparr>"
    and resp: "resp = \<lparr>rs_status = 429, rs_retry_after = Some (retry_header d), rs_content = RateLimited s (Seconds d)\<rparr>"
    using assms(4)
    by (cases "consume_locked (dp_rate_limiter dp) s 1 (ck_mono ck)")
       (auto simp: limit_signer_def try_consume_def Let_def split: if_splits sum.splits delay.splits)
  have inv: "limiter_inv ?l (ck_mono ck)" using consume_locked_inv [OF assms(1,2)] by simp
  have inv': "limiter_inv ?l (ck_mono_retry ck)" using limiter_inv_later [OF inv assms(3)] .
  have cap: "1 \<le> rl_capacity ?l" using limiter_invD(1) [OF inv] by simp
  have d': "retry_after_locked ?l s 1 (ck_mono_retry ck) = Seconds d" using d by (simp add: retry_after_def)
  then have d0: "0 \<le> d" using retry_after_locked_eq [OF inv' cap] by simp
  have fl: "of_int \<lfloor>d\<rfloor> \<le> d" "d < of_int \<lfloor>d\<rfloor> + 1" by linarith+
  have tr: "trunc d = \<lfloor>d\<rfloor>" using d0 by (simp add: trunc_def)
  have h: "d \<le> of_int (retry_header d)" "1 \<le> retry_header d" "retry_header d = 1 \<or> of_int (retry_header d) < d + 1"
    using fl d0 less_le [of "of_int \<lfloor>d\<rfloor>" d] by (auto simp: retry_header_def tr max_def)
  have "ck_mono_retry ck \<le> t" "d \<le> t - ck_mono_retry ck" using assms(5) h(1) d0 by (auto simp: resp)
  then have "snd (consume_locked ?l s 1 t)" using retry_after_exact [OF inv' cap _ d'] by simp
  then show ?thesis using h by (simp add: resp dp')
qed

lemma retry_after_header_is_honest_witness:
  "snd (consume_locked \<lparr>rl_capacity = 1, rl_refill_per_second = 1/2,
       rl_buckets = [(''a'', \<lparr>bk_tokens = 0, bk_last_refill = 0\<rparr>)]\<rparr> ''a'' 1 2)"
proof -
  let ?dp = "(sample_pool [])\<lparr>dp_rate_limiter := \<lparr>rl_capacity = 1, rl_refill_per_second = 1/2,
       rl_buckets = [(''a'', \<lparr>bk_tokens = 0, bk_last_refill = 0\<rparr>)]\<rparr>\<rparr>"
  have inv: "limiter_inv (dp_rate_limiter ?dp) 0" by (simp add: limiter_inv_def bucket_ok_def)
  have "limit_signer ?dp (sample_clock 0) ''a'' = (?dp, Inr (Some \<lparr>rs_status = 429, rs_retry_after = Some 2,
      rs_content = RateLimited ''a'' (Seconds 2)\<rparr>))"
    by (simp add: limit_signer_def try_consume_def consume_locked_def refilled_def sample_clock_def
        retry_after_def retry_after_locked_def retry_header_def trunc_def Let_def)
  from retry_after_header_is_honest [OF inv _ _ this, of 2] show ?thesis
    by (auto simp: sample_clock_def)
qed

text \<open>The challenge. A well-formed body without a payment header changes nothing and is answered with
  a 402 whose \<open>accepts\<close> lists the direct-USDC entry first and then the Gateway entry when a wallet is
  configured, each quoting the price as a decimal string, the server's recipient, asset and network.\<close>

theorem unpaid_request_is_challenged:
  assumes "rq_body rq = Some (JObj d)" and "rq_payment rq = None \<or> rq_payment rq = Some []"
    and "ev_query_body ev d = Some (v, k)" and "length v = ms_dim (dp_memory dp)"
  shows "\<exists>acc. handle_query ev ck dp rq = (dp, Inr (respond 402 (PaymentRequired 1 acc None))) \<and>
    length acc = (if pc_gateway_wallet_address (dp_config dp) = None then 1 else 2) \<and>
    (\<forall>a \<in> set acc. dict_get a ''scheme'' = JStr ''exact'' \<and>
       dict_get a ''network'' = JStr (pc_network (dp_config dp)) \<and>
       dict_get a ''maxAmountRequired'' = JStr (int_str (pc_price_units (dp_config dp))) \<and>
       dict_get a ''payTo'' = JStr (pc_payment_recipient (dp_config dp)) \<and>
       dict_get a ''asset'' = JStr (pc_usdc_address (dp_config dp)) \<and>
       dict_get a ''resource'' = JStr (rq_path rq))"
proof -
  have "handle_query ev ck dp rq =
      (dp, Inr (respond 402 (PaymentRequired 1 (all_accepts (dp_config dp) (rq_path rq)) None)))"
    using assms by (auto simp: handle_query_def paid_endpoint_def check_payment_def make_402_def X402_VERSION_def)
  then show ?thesis
    by (intro exI [of _ "all_accepts (dp_config dp) (rq_path rq)"] conjI, assumption)
       (simp_all add: all_accepts_def gateway_requirements_def direct_requirements_def requirements_to_dict_def
          dict_get_def DEFAULT_SCHEME_def split: option.split)
qed

lemma unpaid_request_is_challenged_witness:
  "\<exists>acc. handle_query sample_env (sample_clock 10) (sample_pool [])
       \<lparr>rq_path = ''/query'', rq_body = Some (JObj []), rq_payment = None\<rparr> =
     (sample_pool [], Inr (respond 402 (PaymentRequired 1 acc None))) \<and> length acc = 1"
  using unpaid_request_is_challenged [of "\<lparr>rq_path = ''/query'', rq_body = Some (JObj []), rq_payment = None\<rparr>" "[]"
      sample_env "[0]" 3 "sample_pool []" "sample_clock 10"]
  by (auto simp: sample_env_def sample_pool_def sample_memory_def sample_config_def)

lemma validate_authorization_core:
  assumes "au_from a = JStr from_addr" and "au_to a = JStr to_addr" and "au_nonce a = JStr nonce_hex"
    and "lower from_addr \<noteq> ZERO_ADDRESS" and "now < au_valid_before a" and "au_valid_after a \<le> now + 5"
    and "lower to_addr = lower (pc_payment_recipient c)" and "pc_price_units c \<le> au_value a"
    and "au_value a \<le> 2 * pc_price_units c"
  shows "validate_authorization rec c store now a sig =
    (case try_domains (\<lambda>d. recover_signer rec (typed_for c from_addr to_addr a nonce_hex d) sig)
            from_addr (candidate_domains c) None of
       (None, last_err) \<Rightarrow>
         Inr (rejected (case last_err of Some e \<Rightarrow> e | None \<Rightarrow> ''signature does not match from-address''))
     | (Some (recovered, vc), _) \<Rightarrow>
         res_bind (ns_has store (lower recovered) (lower nonce_hex) (Some (pc_chain_id c)) (Some vc)) (\<lambda>seen.
           Inr \<lparr>vd_ok = \<not> seen, vd_error = (if seen then Some ''nonce replayed'' else None),
                vd_signer = Some (lower recovered), vd_nonce = Some (lower nonce_hex),
                vd_valid_before = Some (au_valid_before a), vd_verifying_contract = Some vc\<rparr>))"
  using assms by (simp add: validate_authorization_def VALUE_UPPER_FACTOR_def)

lemma typed_for_unprefixed:
  "\<not> startswith n ''0x'' \<Longrightarrow>
   typed_for c f t (a\<lparr>au_nonce := v\<rparr>) n d = typed_for c f t a (''0x'' @ n) d"
  by (cases d) (simp add: typed_for_def build_typed_data_def startswith_def)

text \<open>C15: (error) One signature buys twice when its nonce is spelt without the prefix. The typed data adds a missing
  \<open>0x\<close> before recovery, the replay key does not: after a payment with nonce \<open>0x..\<close> has been validated
  and committed, the same authorisation and signature with the prefix dropped from the nonce still
  validates.\<close>

theorem unprefixed_nonce_is_not_a_replay:
  assumes "ns_invar store" and "int64 (pc_chain_id c)"
    and "validate_authorization rec c store now a sig = Inr vd" and "vd_ok vd"
    and "au_nonce a = JStr (''0x'' @ n)" and "\<not> startswith n ''0x''"
    and "commit_nonce c store (the (vd_signer vd)) (the (vd_nonce vd)) (the (vd_valid_before vd))
           (the (vd_verifying_contract vd)) = Inr (store', None)"
    and "ns_lookup store (pc_chain_id c, lower (the (vd_verifying_contract vd)), the (vd_signer vd), lower n) = None"
  shows "\<exists>vd'. validate_authorization rec c store' now (a\<lparr>au_nonce := JStr n\<rparr>) sig = Inr vd' \<and> vd_ok vd' \<and>
    vd_signer vd' = vd_signer vd \<and> vd_nonce vd' = Some (lower n)"
proof (rule validate_authorization_ok [OF assms(3,4)])
  fix from_addr to_addr nonce_hex d candidate
  assume h: "au_from a = JStr from_addr" "au_to a = JStr to_addr" "au_nonce a = JStr nonce_hex"
    "lower from_addr \<noteq> ZERO_ADDRESS" "now < au_valid_before a" "au_valid_after a \<le> now + 5"
    "lower to_addr = lower (pc_payment_recipient c)" "pc_price_units c \<le> au_value a"
    "au_value a \<le> 2 * pc_price_units c"
  define nx where "nx = ''0x'' @ n"
  have nonce: "au_nonce a = JStr nx" using assms(5) by (simp add: nx_def)
  let ?a = "a\<lparr>au_nonce := JStr n\<rparr>"
  let ?tr = "try_domains (\<lambda>d. recover_signer rec (typed_for c from_addr to_addr a (nx) d) sig)
    from_addr (candidate_domains c) None"
  note core = validate_authorization_core [of a from_addr to_addr "nx" now c rec store sig]
  have core': "validate_authorization rec c store' now ?a sig =
    (case ?tr of (None, last_err) \<Rightarrow>
         Inr (rejected (case last_err of Some e \<Rightarrow> e | None \<Rightarrow> ''signature does not match from-address''))
     | (Some (recovered, vc), _) \<Rightarrow>
         res_bind (ns_has store' (lower recovered) (lower n) (Some (pc_chain_id c)) (Some vc)) (\<lambda>seen.
           Inr \<lparr>vd_ok = \<not> seen, vd_error = (if seen then Some ''nonce replayed'' else None),
                vd_signer = Some (lower recovered), vd_nonce = Some (lower n),
                vd_valid_before = Some (au_valid_before a), vd_verifying_contract = Some vc\<rparr>))"
  proof -
    have vb: "au_valid_before ?a = au_valid_before a" by simp
    show ?thesis
      unfolding typed_for_unprefixed [OF assms(6), where v = "JStr n", folded nx_def, symmetric] vb [symmetric]
      by (rule validate_authorization_core) (use h in simp_all)
  qed
  obtain recovered vc le where tr: "?tr = (Some (recovered, vc), le)"
    using core h nonce assms(3,4) by (cases ?tr; cases "fst ?tr") auto
  have "(case Some (recovered, vc) of None \<Rightarrow> Inr (rejected []) | Some (recovered, vc) \<Rightarrow>
      res_bind (ns_has store (lower recovered) (lower nx) (Some (pc_chain_id c)) (Some vc)) (\<lambda>seen.
         Inr \<lparr>vd_ok = \<not> seen, vd_error = (if seen then Some ''nonce replayed'' else None),
              vd_signer = Some (lower recovered), vd_nonce = Some (lower nx),
              vd_valid_before = Some (au_valid_before a), vd_verifying_contract = Some vc\<rparr>)) = Inr vd"
    using core [OF h(1,2) nonce h(4-9)] assms(3) by (simp add: tr)
  then have vd: "vd_signer vd = Some (lower recovered)" "vd_verifying_contract vd = Some vc"
    "vd_nonce vd = Some (lower nx)" "vd_valid_before vd = Some (au_valid_before a)"
    by (auto simp: res_bind_eq_Inr)
  have ad: "ns_add store (lower recovered) (lower nx) (au_valid_before a)
      (Some (pc_chain_id c)) (Some vc) = Inr store'"
    using assms(7) by (auto simp: vd commit_nonce_def res_bind_eq_Inr split: if_splits)
  obtain b where b: "ns_has store' (lower recovered) (lower n) (Some (pc_chain_id c)) (Some vc) = Inr b"
    using ns.has_total [OF assms(2)] by blast
  have "length (lower n) \<noteq> length (lower nx)" by (simp add: nx_def)
  then have "lower n \<noteq> lower nx" by metis
  then have "ns_lookup store' (pc_chain_id c, lower vc, lower recovered, lower n) = None"
    using ns.add_lookup [OF assms(1) ad] assms(8) by (simp add: vd)
  then have "\<not> b" using ns.has_Inr [OF ns.add_invar [OF assms(1) ad] b] by simp
  with core' tr b vd show ?thesis by simp
qed

lemma unprefixed_nonce_is_not_a_replay_witness:
  "\<exists>vd'. validate_authorization echo_recover sample_config
     (SqliteNonceStore \<lparr>nonces = [sample_row ''0xab''], schema_version = ''2''\<rparr>) 10
     ((sample_fields ''0xab'')\<lparr>au_nonce := JStr ''ab''\<rparr>) sample_sig = Inr vd' \<and> vd_ok vd' \<and>
     vd_signer vd' = Some ''0xa1'' \<and> vd_nonce vd' = Some (lower ''ab'')"
proof -
  let ?s = "SqliteNonceStore \<lparr>nonces = [], schema_version = ''2''\<rparr>"
  let ?vd = "\<lparr>vd_ok = True, vd_error = None, vd_signer = Some ''0xa1'', vd_nonce = Some (lower ''0xab''),
     vd_valid_before = Some 100, vd_verifying_contract = Some ''0xc3''\<rparr>"
  have "validate_payment echo_recover sample_config ?s 10 (sample_payment ''0xab'') = Inr ?vd"
    using sample_validate [of 10 ?s "''0xab''"]
    by (simp add: sqlite_has_Inr int64_def sqlite_lookup_None sample_lower)
  then have v: "validate_authorization echo_recover sample_config ?s 10 (sample_fields ''0xab'') sample_sig = Inr ?vd"
    by (simp add: validate_payment_def sample_payment_def dict_get_def DEFAULT_SCHEME_def sample_config_def sample_read)
  have c: "commit_nonce sample_config ?s ''0xa1'' (lower ''0xab'') 100 ''0xc3'' =
      Inr (SqliteNonceStore \<lparr>nonces = [sample_row ''0xab''], schema_version = ''2''\<rparr>, None)"
    by (simp add: commit_nonce_def sample_config_def sqlite_has_Inr int64_def sqlite_lookup_None sqlite_add_def
        sample_lower sample_row_def)
  show ?thesis
    using unprefixed_nonce_is_not_a_replay [OF _ _ v, of "''ab''"] c
    by (simp add: sqlite_wf_def sample_config_def int64_def sample_fields_def startswith_def sqlite_lookup_None)
qed

text \<open>The startup guard. When the uvicorn entry point builds a server, its recipient is a well-formed
  0x-prefixed 20-byte address other than the zero address, taken from \<open>DARKPOOL_RECIPIENT\<close>, and its
  memory is the one loaded from the memory file; without a recipient it refuses to start before it
  touches either file.\<close>

theorem startup_needs_a_recipient:
  "(\<forall>dp. build_default_app rot dec environ file nonce_db = Inr dp \<longrightarrow>
      valid_address (pc_payment_recipient (dp_config dp)) \<and>
      lower (pc_payment_recipient (dp_config dp)) \<noteq> ZERO_ADDRESS \<and>
      pc_payment_recipient (dp_config dp) = strip (environ_get environ ''DARKPOOL_RECIPIENT'' []) \<and>
      load rot file = Inr (dp_memory dp)) \<and>
   (strip (environ_get environ ''DARKPOOL_RECIPIENT'' []) = [] \<longrightarrow>
      build_default_app rot dec environ file nonce_db =
        Inl (RuntimeError ''DARKPOOL_RECIPIENT is unset or equals the zero address''))"
  by (auto simp: build_default_app_def mk_dark_pool_def Let_def res_bind_eq_Inr default_options_def
      split: if_splits)

lemma startup_needs_a_recipient_witness:
  "\<forall>rot dec file nonce_db. build_default_app rot dec [] file nonce_db =
     Inl (RuntimeError ''DARKPOOL_RECIPIENT is unset or equals the zero address'')"
  using startup_needs_a_recipient [where environ = "[]", THEN conjunct2]
  by (simp add: environ_get_def strip_def)

end
