(* ===== verification/X402_Client.thy ===== *)
theory X402_Client
  imports Dark_Pool
begin

text \<open>
  The paying client of \<open>agents/x402_client.py\<close>: the choice among the server's payment
  requirements, the signed header, and the two-request exchange.

  A server is anything that answers a POST: the transport is a function on a state of its own, so
  a real network and an in-process server are the same to the client. The signer is the account's
  address with its \<open>sign_message\<close>; the clock reading and the random bytes of the nonce are arguments.
\<close>

subsection \<open>Choosing a payment requirement\<close>

record accept =
  ac_scheme :: json
  ac_network :: json
  ac_max_amount_required :: int
  ac_pay_to :: json
  ac_asset :: json
  ac_max_timeout_seconds :: int
  ac_extra :: json
  ac_resource :: json

text \<open>\<open>d.get(k, default)\<close> and \<open>x or default\<close>.\<close>

definition dict_get_or :: "dict \<Rightarrow> string \<Rightarrow> json \<Rightarrow> json" where
  "dict_get_or d k v = (case map_of d k of None \<Rightarrow> v | Some w \<Rightarrow> w)"

definition py_or :: "json \<Rightarrow> json \<Rightarrow> json" where
  "py_or v w = (if truthy v then v else w)"

text \<open>A method of \<open>dict\<close> called on a value of another type raises.\<close>

fun as_dict :: "json \<Rightarrow> dict res" where
  "as_dict (JObj d) = Inr d"
| "as_dict _ = Inl (AttributeError ''object has no attribute'')"

definition normalise_accept :: "json \<Rightarrow> accept res" where
  "normalise_accept raw =
     res_bind (as_dict raw) (\<lambda>entry.
     res_bind (py_int (dict_get_or entry ''maxAmountRequired'' (JInt 0))) (\<lambda>amount.
     res_bind (py_int (dict_get_or entry ''maxTimeoutSeconds'' (JInt 60))) (\<lambda>tmo.
       Inr \<lparr>ac_scheme = dict_get entry ''scheme'', ac_network = dict_get entry ''network'',
            ac_max_amount_required = amount, ac_pay_to = dict_get entry ''payTo'',
            ac_asset = dict_get entry ''asset'', ac_max_timeout_seconds = tmo,
            ac_extra = py_or (dict_get entry ''extra'') (JObj []),
            ac_resource = dict_get entry ''resource''\<rparr>)))"

text \<open>\<open>(x or "").lower()\<close>.\<close>

definition lower_or_empty :: "json \<Rightarrow> string res" where
  "lower_or_empty v = map_sum id lower (as_str (py_or v (JStr [])))"

text \<open>
  The loop of \<open>_pick_accept\<close>: the flag records that some entry passed every test but the one on
  the recipient.
\<close>

fun pick_loop :: "string \<Rightarrow> string \<Rightarrow> int \<Rightarrow> string option \<Rightarrow> json list \<Rightarrow> bool \<Rightarrow> accept res" where
  "pick_loop network asset_address expected recipient_lc [] matched =
     Inl (X402Error (if recipient_lc \<noteq> None \<and> matched
                     then ''server pay_to did not match expected recipient''
                     else ''no acceptable payment requirement''))"
| "pick_loop network asset_address expected recipient_lc (raw # rest) matched =
     res_bind (normalise_accept raw) (\<lambda>a.
       if ac_scheme a \<noteq> JStr DEFAULT_SCHEME \<or> ac_network a \<noteq> JStr network
       then pick_loop network asset_address expected recipient_lc rest matched
       else res_bind (lower_or_empty (ac_asset a)) (\<lambda>asset.
         if asset \<noteq> lower asset_address \<or> expected < ac_max_amount_required a
         then pick_loop network asset_address expected recipient_lc rest matched
         else (case recipient_lc of
             None \<Rightarrow> Inr a
           | Some r \<Rightarrow>
               res_bind (lower_or_empty (ac_pay_to a)) (\<lambda>pay_to.
                 if pay_to \<noteq> r then pick_loop network asset_address expected recipient_lc rest True
                 else Inr a))))"

definition pick_accept :: "json list \<Rightarrow> string \<Rightarrow> string \<Rightarrow> int \<Rightarrow> string option \<Rightarrow> accept res" where
  "pick_accept accepts network asset_address expected expected_recipient =
     (let recipient_lc = (case expected_recipient of
            None \<Rightarrow> None | Some r \<Rightarrow> if r = [] then None else Some (lower r))
      in pick_loop network asset_address expected recipient_lc accepts False)"

subsection \<open>The signed header\<close>

datatype signature = SigBytes "byte list" | SigText string

record signer =
  sg_address :: string
  sg_sign :: "typed_data \<Rightarrow> signature res"

fun sig_hex :: "signature \<Rightarrow> string" where
  "sig_hex (SigBytes bs) = to_hex bs"
| "sig_hex (SigText s) = s"

definition payment_object :: "string \<Rightarrow> string \<Rightarrow> json \<Rightarrow> int \<Rightarrow> int \<Rightarrow> int \<Rightarrow> string \<Rightarrow> string \<Rightarrow> dict" where
  "payment_object network from_addr pay_to value valid_after valid_before nonce_hex sig =
     [(''x402Version'', JInt X402_VERSION), (''scheme'', JStr DEFAULT_SCHEME), (''network'', JStr network),
      (''payload'', JObj
        [(''signature'', JStr sig),
         (''authorization'', JObj
           [(''from'', JStr from_addr), (''to'', pay_to), (''value'', JStr (int_str value)),
            (''validAfter'', JStr (int_str valid_after)), (''validBefore'', JStr (int_str valid_before)),
            (''nonce'', JStr nonce_hex)])])]"

definition client_typed_data ::
  "signer \<Rightarrow> accept \<Rightarrow> dict \<Rightarrow> int \<Rightarrow> string \<Rightarrow> int \<Rightarrow> string \<Rightarrow> typed_data" where
  "client_typed_data sg a extra chain_id asset_address now nonce_hex =
     build_typed_data (sg_address sg) (ac_pay_to a) (ac_max_amount_required a) (now - 1)
       (now + ac_max_timeout_seconds a) nonce_hex chain_id asset_address
       (dict_get_or extra ''name'' (JStr ''USDC'')) (dict_get_or extra ''version'' (JStr ''2''))"

definition build_payment_header ::
  "(rat \<Rightarrow> string) \<Rightarrow> signer \<Rightarrow> accept \<Rightarrow> int \<Rightarrow> string \<Rightarrow> string \<Rightarrow> int \<Rightarrow> byte list \<Rightarrow> string res" where
  "build_payment_header fr sg a chain_id asset_address network now token =
     res_bind (as_dict (ac_extra a)) (\<lambda>extra.
       let nonce_hex = ''0x'' @ to_hex token
       in res_bind (sg_sign sg (client_typed_data sg a extra chain_id asset_address now nonce_hex)) (\<lambda>sig.
            Inr (encode_header fr (JObj (payment_object network (sg_address sg) (ac_pay_to a)
              (ac_max_amount_required a) (now - 1) (now + ac_max_timeout_seconds a) nonce_hex (sig_hex sig))))))"

subsection \<open>The exchange\<close>

record reply =
  rp_status :: int
  rp_json :: "json option"  \<comment> \<open>\<open>None\<close> when the body is not JSON\<close>

type_synonym 'w transport = "'w \<Rightarrow> string \<Rightarrow> dict \<Rightarrow> (string \<times> string) list \<Rightarrow> 'w \<times> reply res"

definition reply_json :: "reply \<Rightarrow> json res" where
  "reply_json r = of_opt (ValueError ''Expecting value'') (rp_json r)"

fun json_iter :: "json \<Rightarrow> json list res" where
  "json_iter (JList vs) = Inr vs"
| "json_iter (JStr s) = Inr (map (\<lambda>c. JStr [c]) s)"
| "json_iter (JObj d) = Inr (map (\<lambda>kv. JStr (fst kv)) d)"
| "json_iter _ = Inl (TypeError ''object is not iterable'')"

record policy =
  pl_chain_id :: int
  pl_asset_address :: string
  pl_expected_price_usdc :: rat
  pl_network :: string
  pl_expected_recipient :: "string option"

text \<open>From the body of a 402 to the header of the second request.\<close>

definition challenge_header ::
  "(rat \<Rightarrow> string) \<Rightarrow> signer \<Rightarrow> policy \<Rightarrow> int \<Rightarrow> byte list \<Rightarrow> reply \<Rightarrow> string res" where
  "challenge_header fr sg pl now token first =
     (case rp_json first of
        None \<Rightarrow> Inl (X402Error ''402 body not JSON'')
      | Some body \<Rightarrow>
          res_bind (as_dict body) (\<lambda>challenge.
            if \<not> truthy (dict_get challenge ''accepts'') then Inl (X402Error ''402 had no accepts array'')
            else
              res_bind (json_iter (dict_get challenge ''accepts'')) (\<lambda>accepts.
              res_bind (pick_accept accepts (pl_network pl) (pl_asset_address pl)
                         (usdc_to_base_units (pl_expected_price_usdc pl)) (pl_expected_recipient pl)) (\<lambda>a.
                build_payment_header fr sg a (pl_chain_id pl) (pl_asset_address pl) (pl_network pl) now token))))"

definition x402_pay_and_post ::
  "(rat \<Rightarrow> string) \<Rightarrow> 'w transport \<Rightarrow> signer \<Rightarrow> policy \<Rightarrow> int \<Rightarrow> byte list \<Rightarrow> string \<Rightarrow> dict \<Rightarrow> 'w \<Rightarrow> 'w \<times> json res" where
  "x402_pay_and_post fr post sg pl now token url body w =
     (case post w url body [] of
        (w1, Inl e) \<Rightarrow> (w1, Inl e)
      | (w1, Inr first) \<Rightarrow>
          if rp_status first = 200 then (w1, reply_json first)
          else if rp_status first \<noteq> 402 then (w1, Inl (X402Error ''unexpected status''))
          else (case challenge_header fr sg pl now token first of
              Inl e \<Rightarrow> (w1, Inl e)
            | Inr header \<Rightarrow>
                (case post w1 url body [(''X-PAYMENT'', header)] of
                   (w2, Inl e) \<Rightarrow> (w2, Inl e)
                 | (w2, Inr second) \<Rightarrow>
                     if rp_status second \<noteq> 200
                     then (w2, Inl (X402Error ''server still refused after payment''))
                     else (w2, reply_json second))))"

text \<open>The convenience wrapper; \<open>vec\<close> is the query vector as JSON numbers.\<close>

definition x402_query ::
  "(rat \<Rightarrow> string) \<Rightarrow> 'w transport \<Rightarrow> signer \<Rightarrow> policy \<Rightarrow> int \<Rightarrow> byte list \<Rightarrow> string \<Rightarrow> json list \<Rightarrow> int \<Rightarrow> 'w \<Rightarrow>
   'w \<times> json res" where
  "x402_query fr post sg pl now token url vec k w =
     (let (w', r) = x402_pay_and_post fr post sg pl now token url [(''query_vec'', JList vec), (''k'', JInt k)] w
      in (w', res_bind r (\<lambda>resp. map_sum id (\<lambda>d. dict_get_or d ''results'' (JList [])) (as_dict resp))))"

end
