(* ===== verification/Client_Safety.thy ===== *)
theory Client_Safety
  imports X402_Client Pool_Example
begin

text \<open>
  What the paying client (\<open>agents/x402_client.py\<close>) may be talked into by a server, and what happens
  when it talks to the server of \<open>agents/dark_pool.py\<close>.
\<close>

subsection \<open>What the client accepts\<close>

definition within_policy :: "policy \<Rightarrow> accept \<Rightarrow> bool" where
  "within_policy pl a \<longleftrightarrow>
     ac_scheme a = JStr DEFAULT_SCHEME \<and> ac_network a = JStr (pl_network pl) \<and>
     lower_or_empty (ac_asset a) = Inr (lower (pl_asset_address pl)) \<and>
     ac_max_amount_required a \<le> usdc_to_base_units (pl_expected_price_usdc pl) \<and>
     (\<forall>r. pl_expected_recipient pl = Some r \<and> r \<noteq> [] \<longrightarrow> lower_or_empty (ac_pay_to a) = Inr (lower r))"

lemma pick_loop_Inr:
  "pick_loop network asset expected rlc accepts matched = Inr a \<Longrightarrow>
   \<exists>raw \<in> set accepts. normalise_accept raw = Inr a \<and> ac_scheme a = JStr DEFAULT_SCHEME \<and>
     ac_network a = JStr network \<and> lower_or_empty (ac_asset a) = Inr (lower asset) \<and>
     ac_max_amount_required a \<le> expected \<and> (\<forall>r. rlc = Some r \<longrightarrow> lower_or_empty (ac_pay_to a) = Inr r)"
proof (induction accepts arbitrary: matched)
  case (Cons raw rest)
  obtain b where b: "normalise_accept raw = Inr b" using Cons.prems by (cases "normalise_accept raw") auto
  show ?case
  proof (cases "\<exists>m. pick_loop network asset expected rlc rest m = Inr a")
    case True
    then show ?thesis using Cons.IH by (metis list.set_intros(2))
  next
    case False
    have "ac_scheme b = JStr DEFAULT_SCHEME \<and> ac_network b = JStr network \<and>
        lower_or_empty (ac_asset b) = Inr (lower asset) \<and> ac_max_amount_required b \<le> expected \<and>
        (\<forall>r. rlc = Some r \<longrightarrow> lower_or_empty (ac_pay_to b) = Inr r) \<and> a = b"
      using Cons.prems False b
      by (cases "lower_or_empty (ac_asset b)"; cases rlc; cases "lower_or_empty (ac_pay_to b)")
        (simp_all split: if_splits)
    then show ?thesis using b by auto
  qed
qed simp

lemma pick_accept_Inr:
  assumes "pick_accept accepts (pl_network pl) (pl_asset_address pl)
    (usdc_to_base_units (pl_expected_price_usdc pl)) (pl_expected_recipient pl) = Inr a"
  shows "within_policy pl a \<and> (\<exists>raw \<in> set accepts. normalise_accept raw = Inr a)"
  using pick_loop_Inr [OF assms [unfolded pick_accept_def Let_def]]
  by (auto simp: within_policy_def)

lemma challenge_header_Inr:
  assumes "challenge_header fr sg pl now token first = Inr h"
  shows "\<exists>a extra sig. within_policy pl a \<and> ac_extra a = JObj extra \<and>
    sg_sign sg (client_typed_data sg a extra (pl_chain_id pl) (pl_asset_address pl) now (''0x'' @ to_hex token)) = Inr sig \<and>
    h = encode_header fr (JObj (payment_object (pl_network pl) (sg_address sg) (ac_pay_to a)
          (ac_max_amount_required a) (now - 1) (now + ac_max_timeout_seconds a) (''0x'' @ to_hex token) (sig_hex sig)))"
proof -
  obtain accepts a where a: "pick_accept accepts (pl_network pl) (pl_asset_address pl)
      (usdc_to_base_units (pl_expected_price_usdc pl)) (pl_expected_recipient pl) = Inr a"
    and h: "build_payment_header fr sg a (pl_chain_id pl) (pl_asset_address pl) (pl_network pl) now token = Inr h"
    using assms by (auto simp: challenge_header_def res_bind_eq_Inr split: option.splits if_splits)
  obtain extra where e: "ac_extra a = JObj extra"
    using h by (cases "ac_extra a") (auto simp: build_payment_header_def)
  show ?thesis
    using pick_accept_Inr [OF a] h e by (auto simp: build_payment_header_def Let_def res_bind_eq_Inr)
qed

subsection \<open>A transport that keeps a log\<close>

type_synonym exchange = "string \<times> dict \<times> (string \<times> string) list \<times> reply res"

definition recording :: "'w transport \<Rightarrow> ('w \<times> exchange list) transport" where
  "recording post = (\<lambda>(w, lg) url body hs.
     let (w', r) = post w url body hs in ((w', lg @ [(url, body, hs, r)]), r))"

text \<open>The three shapes a run of the client can have.\<close>

lemma pay_and_post_cases:
  assumes "x402_pay_and_post fr (recording post) sg pl now token url body (w, []) = ((w', lg), r)"
  shows "(\<exists>rep. lg = [(url, body, [], rep)] \<and>
      (\<forall>v. r = Inr v \<longrightarrow> (\<exists>first. rep = Inr first \<and> rp_status first = 200 \<and> reply_json first = Inr v)) \<and>
      (\<forall>first e. rep = Inr first \<and> rp_status first = 402 \<and> challenge_header fr sg pl now token first = Inl e \<longrightarrow> r = Inl e)) \<or>
    (\<exists>first h rep. lg = [(url, body, [], Inr first), (url, body, [(''X-PAYMENT'', h)], rep)] \<and>
      rp_status first = 402 \<and> challenge_header fr sg pl now token first = Inr h \<and>
      (\<forall>v. r = Inr v \<longrightarrow> (\<exists>second. rep = Inr second \<and> rp_status second = 200 \<and> reply_json second = Inr v)))"
proof -
  obtain w1 rep where p: "post w url body [] = (w1, rep)" by fastforce
  show ?thesis
  proof (cases rep)
    case (Inl e)
    then show ?thesis using assms p by (auto simp: x402_pay_and_post_def recording_def)
  next
    case (Inr first)
    show ?thesis
    proof (cases "rp_status first = 402")
      case False
      then show ?thesis using assms p Inr
        by (auto simp: x402_pay_and_post_def recording_def split: if_splits)
    next
      case True
      show ?thesis
      proof (cases "challenge_header fr sg pl now token first")
        case (Inl e)
        then show ?thesis using assms p Inr True
          by (auto simp: x402_pay_and_post_def recording_def)
      next
        case h: (Inr h)
        obtain w2 rep2 where p2: "post w1 url body [(''X-PAYMENT'', h)] = (w2, rep2)" by fastforce
        show ?thesis using assms p Inr True h p2
          by (cases rep2) (auto simp: x402_pay_and_post_def recording_def split: if_splits)
      qed
    qed
  qed
qed

lemma pick_loop_refuses:
  assumes "\<forall>raw \<in> set accepts. \<exists>a asset pay_to. normalise_accept raw = Inr a \<and>
      lower_or_empty (ac_asset a) = Inr asset \<and> lower_or_empty (ac_pay_to a) = Inr pay_to \<and>
      \<not> (ac_scheme a = JStr DEFAULT_SCHEME \<and> ac_network a = JStr network \<and> asset = lower asset_address \<and>
         ac_max_amount_required a \<le> expected \<and> (\<forall>r. rlc = Some r \<longrightarrow> pay_to = r))"
  shows "\<exists>msg. pick_loop network asset_address expected rlc accepts matched = Inl (X402Error msg)"
  using assms
proof (induction accepts arbitrary: matched)
  case (Cons raw rest)
  then obtain a asset pay_to where a: "normalise_accept raw = Inr a"
    "lower_or_empty (ac_asset a) = Inr asset" "lower_or_empty (ac_pay_to a) = Inr pay_to"
    "\<not> (ac_scheme a = JStr DEFAULT_SCHEME \<and> ac_network a = JStr network \<and> asset = lower asset_address \<and>
         ac_max_amount_required a \<le> expected \<and> (\<forall>r. rlc = Some r \<longrightarrow> pay_to = r))" by fastforce
  have ih: "\<exists>msg. pick_loop network asset_address expected rlc rest m = Inl (X402Error msg)" for m
    using Cons by auto
  show ?case using a ih [of True] ih [of matched] by (cases rlc) auto
qed simp

text \<open>An entry the client can read and has to refuse.\<close>

definition refused_entry :: "policy \<Rightarrow> json \<Rightarrow> bool" where
  "refused_entry pl raw \<longleftrightarrow>
     (\<exists>a asset pay_to. normalise_accept raw = Inr a \<and> lower_or_empty (ac_asset a) = Inr asset \<and>
        lower_or_empty (ac_pay_to a) = Inr pay_to \<and> \<not> within_policy pl a)"

lemma pick_accept_refuses:
  assumes "\<forall>raw \<in> set accepts. refused_entry pl raw"
  shows "\<exists>msg. pick_accept accepts (pl_network pl) (pl_asset_address pl)
    (usdc_to_base_units (pl_expected_price_usdc pl)) (pl_expected_recipient pl) = Inl (X402Error msg)"
  unfolding pick_accept_def Let_def
  by (rule pick_loop_refuses)
    (use assms in \<open>fastforce simp: refused_entry_def within_policy_def split: option.splits if_splits\<close>)

end
