(* ===== verification/Exchange.thy ===== *)
theory Exchange
  imports Client_Safety
begin

text \<open>
  The client of \<open>agents/x402_client.py\<close> in front of the server of \<open>agents/dark_pool.py\<close>: the
  server as a transport, with its responses as JSON bodies. An honest client with a fresh nonce is
  served, in two requests.
\<close>

subsection \<open>The server as a transport\<close>

definition requests_json :: "int \<Rightarrow> dict list \<Rightarrow> string option \<Rightarrow> json" where
  "requests_json version accepts err =
     JObj ([(''x402Version'', JInt version), (''accepts'', JList (map JObj accepts))] @
           (case err of None \<Rightarrow> [] | Some e \<Rightarrow> [(''error'', JStr e)]))"

fun delay_json :: "delay \<Rightarrow> json" where
  "delay_json Infinite = JPosInf"
| "delay_json (Seconds d) = JFloat d"

text \<open>The JSON bodies of the responses; \<open>sj\<close> turns a score into a JSON number.\<close>

fun content_json :: "(real \<Rightarrow> json) \<Rightarrow> content \<Rightarrow> json" where
  "content_json sj (ErrorContent msg) = JObj [(''error'', JStr msg)]"
| "content_json sj (PaymentRequired version accepts err) = requests_json version accepts err"
| "content_json sj (RateLimited s d) =
     JObj [(''error'', JStr ''rate limit exceeded''), (''signer'', JStr s), (''retry_after_seconds'', delay_json d)]"
| "content_json sj (Results rs) =
     JObj [(''results'', JList (map (\<lambda>(tid, score, payload).
       JObj [(''trace_id'', JStr tid), (''score'', sj score), (''payload'', JObj payload)]) rs))]"
| "content_json sj (Added tid n s) =
     JObj [(''ok'', JBool True), (''trace_id'', JStr tid), (''memory_entries'', JInt n), (''signer'', JStr s)]"

definition post_query :: "(real \<Rightarrow> json) \<Rightarrow> environment \<Rightarrow> (dark_pool \<times> clock list) transport" where
  "post_query sj ev = (\<lambda>(dp, cks) url body headers.
     case cks of
       [] \<Rightarrow> ((dp, []), Inl (TimeoutError ''no answer''))
     | ck # cks' \<Rightarrow>
         (case handle_query ev ck dp
                 \<lparr>rq_path = url, rq_body = Some (JObj body), rq_payment = map_of headers ''X-PAYMENT''\<rparr> of
            (dp', Inl e) \<Rightarrow> ((dp', cks'), Inr \<lparr>rp_status = 500, rp_json = None\<rparr>)
          | (dp', Inr resp) \<Rightarrow>
              ((dp', cks'), Inr \<lparr>rp_status = rs_status resp, rp_json = Some (content_json sj (rs_content resp))\<rparr>)))"

subsection \<open>The challenge\<close>

definition short :: "int \<Rightarrow> bool" where
  "short n \<longleftrightarrow> length (nat_str (nat \<bar>n\<bar>)) \<le> 4300"

lemma parse_short: "short n \<Longrightarrow> parse_int (int_str n) = Some n"
  by (simp add: short_def parse_int_str)

definition direct_accept :: "pool_config \<Rightarrow> string \<Rightarrow> accept" where
  "direct_accept c url =
     \<lparr>ac_scheme = JStr DEFAULT_SCHEME, ac_network = JStr (pc_network c),
      ac_max_amount_required = pc_price_units c, ac_pay_to = JStr (pc_payment_recipient c),
      ac_asset = JStr (pc_usdc_address c), ac_max_timeout_seconds = pc_max_timeout_seconds c,
      ac_extra = JObj [(''name'', JStr (pc_usdc_name c)), (''version'', JStr (pc_usdc_version c))],
      ac_resource = JStr url\<rparr>"

lemma normalise_direct:
  assumes "short (pc_price_units c)"
  shows "normalise_accept (JObj (requirements_to_dict (direct_requirements c url))) = Inr (direct_accept c url)"
  using assms
  by (simp add: normalise_accept_def requirements_to_dict_def direct_requirements_def direct_accept_def
      dict_get_def dict_get_or_def py_or_def parse_short)

text \<open>The policy of a client that means to use this server.\<close>

definition policy_for :: "pool_config \<Rightarrow> policy \<Rightarrow> bool" where
  "policy_for c pl \<longleftrightarrow>
     pl_network pl = pc_network c \<and> pl_asset_address pl = pc_usdc_address c \<and> pl_chain_id pl = pc_chain_id c \<and>
     pc_price_units c \<le> usdc_to_base_units (pl_expected_price_usdc pl) \<and> pc_payment_recipient c \<noteq> [] \<and>
     (\<forall>r. pl_expected_recipient pl = Some r \<and> r \<noteq> [] \<longrightarrow> lower r = lower (pc_payment_recipient c))"

lemma lower_or_empty_str: "lower_or_empty (JStr s) = Inr (lower s)"
  by (simp add: lower_or_empty_def py_or_def)

lemma pick_direct:
  assumes "policy_for c pl" and "short (pc_price_units c)"
  shows "pick_accept (map JObj (all_accepts c url)) (pl_network pl) (pl_asset_address pl)
     (usdc_to_base_units (pl_expected_price_usdc pl)) (pl_expected_recipient pl) = Inr (direct_accept c url)"
  using assms normalise_direct [OF assms(2), of url]
  by (auto simp: pick_accept_def all_accepts_def policy_for_def direct_accept_def lower_or_empty_str
      split: option.splits)

lemma challenge_header_direct:
  assumes "policy_for c pl" and "short (pc_price_units c)"
    and "rp_json first = Some (requests_json version (all_accepts c url) err)"
  shows "challenge_header fr sg pl now token first =
    build_payment_header fr sg (direct_accept c url) (pc_chain_id c) (pc_usdc_address c) (pc_network c) now token"
proof -
  have "map JObj (all_accepts c url) \<noteq> []" by (simp add: all_accepts_def)
  then show ?thesis
    using assms(1) pick_direct [OF assms(1,2), of url]
    by (simp add: challenge_header_def assms(3) requests_json_def dict_get_def policy_for_def)
qed

subsection \<open>The payment\<close>

text \<open>
  What signing and recovery promise each other: a signature made for typed data that names the
  signer's address as sender recovers that address.
\<close>

definition signer_recovers :: "recover \<Rightarrow> signer \<Rightarrow> bool" where
  "signer_recovers rec sg \<longleftrightarrow>
     (\<forall>td. td_from td = sg_address sg \<longrightarrow>
        (\<exists>sig. sg_sign sg td = Inr sig \<and> ascii (sig_hex sig) \<and>
           (\<exists>addr. recover_signer rec td (sig_hex sig) = Inr addr \<and> lower addr = lower (sg_address sg))))"

definition direct_payment :: "pool_config \<Rightarrow> signer \<Rightarrow> int \<Rightarrow> byte list \<Rightarrow> signature \<Rightarrow> dict" where
  "direct_payment c sg now token sig =
     payment_object (pc_network c) (sg_address sg) (JStr (pc_payment_recipient c)) (pc_price_units c)
       (now - 1) (now + pc_max_timeout_seconds c) (''0x'' @ to_hex token) (sig_hex sig)"

definition direct_typed_data :: "pool_config \<Rightarrow> signer \<Rightarrow> int \<Rightarrow> byte list \<Rightarrow> typed_data" where
  "direct_typed_data c sg now token =
     client_typed_data sg (direct_accept c []) [(''name'', JStr (pc_usdc_name c)), (''version'', JStr (pc_usdc_version c))]
       (pc_chain_id c) (pc_usdc_address c) now (''0x'' @ to_hex token)"

lemma direct_typed_data_from: "td_from (direct_typed_data c sg now token) = sg_address sg"
  by (simp add: direct_typed_data_def client_typed_data_def build_typed_data_def)

lemma build_direct_header:
  assumes "sg_sign sg (direct_typed_data c sg now token) = Inr sig"
  shows "build_payment_header fr sg (direct_accept c url) (pc_chain_id c) (pc_usdc_address c) (pc_network c) now token =
    Inr (encode_header fr (JObj (direct_payment c sg now token sig)))"
  using assms
  by (simp add: build_payment_header_def direct_accept_def direct_payment_def direct_typed_data_def client_typed_data_def)

lemma int_str_ascii: "ascii (int_str n)"
proof -
  have "ascii (nat_str k)" for k
    using nat_str_digits [of k] by (auto simp: ascii_def list_all_iff is_digit_def)
  then show ?thesis by (simp add: int_str_def)
qed

lemma direct_payment_wire:
  assumes "ascii (pc_network c)" and "ascii (sg_address sg)" and "ascii (pc_payment_recipient c)" and "ascii (sig_hex sig)"
  shows "decode_header (encode_header fr (JObj (direct_payment c sg now token sig))) = Some (JObj (direct_payment c sg now token sig))"
    and "encode_header fr (JObj (direct_payment c sg now token sig)) \<noteq> []"
proof -
  have "length (nat_str 1) \<le> 4300" by (simp add: nat_str.simps)
  with assms have "wire_ok (JObj (direct_payment c sg now token sig))"
    by (simp add: direct_payment_def payment_object_def X402_VERSION_def DEFAULT_SCHEME_def int_str_ascii)
  then show d: "decode_header (encode_header fr (JObj (direct_payment c sg now token sig))) = Some (JObj (direct_payment c sg now token sig))"
    by (rule header_roundtrip)
  have "decode_header [] = None"
    by (simp add: decode_header_def b64decode_def decode_utf8_def json_loads_def)
  with d show "encode_header fr (JObj (direct_payment c sg now token sig)) \<noteq> []" by force
qed

definition direct_fields :: "pool_config \<Rightarrow> signer \<Rightarrow> int \<Rightarrow> byte list \<Rightarrow> auth_fields" where
  "direct_fields c sg now token =
     \<lparr>au_from = JStr (sg_address sg), au_to = JStr (pc_payment_recipient c), au_value = pc_price_units c,
      au_valid_after = now - 1, au_valid_before = now + pc_max_timeout_seconds c,
      au_nonce = JStr (''0x'' @ to_hex token)\<rparr>"

lemma typed_for_direct:
  "typed_for c (sg_address sg) (pc_payment_recipient c) (direct_fields c sg now token) (''0x'' @ to_hex token)
     (pc_usdc_address c, pc_usdc_name c, pc_usdc_version c) = direct_typed_data c sg now token"
  by (simp add: typed_for_def direct_fields_def direct_typed_data_def client_typed_data_def direct_accept_def dict_get_or_def)

definition honest_times :: "pool_config \<Rightarrow> int \<Rightarrow> int \<Rightarrow> bool" where
  "honest_times c now now' \<longleftrightarrow>
     now' < now + pc_max_timeout_seconds c \<and> now - 1 \<le> now' + 5 \<and> short (now - 1) \<and>
     short (now + pc_max_timeout_seconds c) \<and> short (pc_price_units c) \<and> 0 \<le> pc_price_units c"

definition direct_paid :: "pool_config \<Rightarrow> signer \<Rightarrow> int \<Rightarrow> byte list \<Rightarrow> paid" where
  "direct_paid c sg now token =
     \<lparr>pd_signer = lower (sg_address sg), pd_nonce = lower (''0x'' @ to_hex token),
      pd_valid_before = now + pc_max_timeout_seconds c, pd_verifying_contract = pc_usdc_address c\<rparr>"

lemma read_direct:
  assumes "honest_times c now now'"
  shows "read_authorization
     [(''from'', JStr (sg_address sg)), (''to'', JStr (pc_payment_recipient c)), (''value'', JStr (int_str (pc_price_units c))),
      (''validAfter'', JStr (int_str (now - 1))), (''validBefore'', JStr (int_str (now + pc_max_timeout_seconds c))),
      (''nonce'', JStr (''0x'' @ to_hex token))] = Inr (direct_fields c sg now token)"
  using assms by (simp add: read_authorization_def dict_item_def honest_times_def parse_short direct_fields_def)

lemma validate_direct:
  assumes "honest_times c now now'" and "lower (sg_address sg) \<noteq> ZERO_ADDRESS"
    and "recover_signer rec (direct_typed_data c sg now token) (sig_hex sig) = Inr addr"
    and "lower addr = lower (sg_address sg)"
    and "ns_has store (lower (sg_address sg)) (lower (''0x'' @ to_hex token)) (Some (pc_chain_id c)) (Some (pc_usdc_address c)) = Inr False"
  shows "\<exists>vd. validate_payment rec c store now' (direct_payment c sg now token sig) = Inr vd \<and> vd_ok vd \<and>
    paid_of vd = direct_paid c sg now token"
proof -
  define nx where "nx = ''0x'' @ to_hex token"
  have tr: "try_domains (\<lambda>d. recover_signer rec (typed_for c (sg_address sg) (pc_payment_recipient c)
      (direct_fields c sg now token) nx d) (sig_hex sig)) (sg_address sg) (candidate_domains c) None =
      (Some (addr, pc_usdc_address c), None)"
    using assms(3,4) typed_for_direct [of c sg now token] by (simp add: candidate_domains_def nx_def)
  have f: "au_from (direct_fields c sg now token) = JStr (sg_address sg)"
    "au_to (direct_fields c sg now token) = JStr (pc_payment_recipient c)"
    "au_value (direct_fields c sg now token) = pc_price_units c"
    "au_valid_after (direct_fields c sg now token) = now - 1"
    "au_valid_before (direct_fields c sg now token) = now + pc_max_timeout_seconds c"
    "au_nonce (direct_fields c sg now token) = JStr nx"
    by (simp_all add: direct_fields_def nx_def)
  have "validate_authorization rec c store now' (direct_fields c sg now token) (sig_hex sig) =
      Inr \<lparr>vd_ok = True, vd_error = None, vd_signer = Some (lower (sg_address sg)), vd_nonce = Some (lower nx),
           vd_valid_before = Some (now + pc_max_timeout_seconds c), vd_verifying_contract = Some (pc_usdc_address c)\<rparr>"
    using assms(1,2,4) assms(5) [folded nx_def]
    by (simp add: validate_authorization_def f tr honest_times_def VALUE_UPPER_FACTOR_def)
  then show ?thesis
    using read_direct [OF assms(1), of sg token]
    by (simp add: validate_payment_def direct_payment_def payment_object_def dict_get_def paid_of_def direct_paid_def nx_def)
qed

subsection \<open>Service\<close>

lemma challenge_of_unpaid:
  assumes "ev_query_body ev body = Some (v, k)" and "length v = ms_dim (dp_memory dp)"
  shows "post_query sj ev (dp, ck # cks) url body [] =
    ((dp, cks), Inr \<lparr>rp_status = 402, rp_json = Some (requests_json X402_VERSION (all_accepts (dp_config dp) url) None)\<rparr>)"
  using assms
  by (simp add: post_query_def handle_query_def paid_endpoint_def check_payment_def make_402_def respond_def)

lemma paid_query_served:
  assumes "ev_query_body ev body = Some (v, k)" and "length v = ms_dim (dp_memory dp)"
    and "check_payment ev dp (ck_now ck) rq = Inr (Inr p)" and "rq_body rq = Some (JObj body)"
    and "try_consume (dp_rate_limiter dp) (pd_signer p) 1 (ck_mono ck) = Inr (l, True)"
    and "ns_has (dp_nonce_store dp) (pd_signer p) (pd_nonce p) (Some (pc_chain_id (dp_config dp)))
           (Some (pd_verifying_contract p)) = Inr False"
    and "ns_add (dp_nonce_store dp) (pd_signer p) (pd_nonce p) (pd_valid_before p) (Some (pc_chain_id (dp_config dp)))
           (Some (pd_verifying_contract p)) = Inr store'"
    and "query (ev_argpartition ev) (ev_argsort ev) (dp_memory dp) v k = Inr (m', rs)"
  shows "handle_query ev ck dp rq =
    (dp\<lparr>dp_rate_limiter := l, dp_nonce_store := store', dp_memory := m'\<rparr>,
     Inr (respond 200 (Results (query_results m' rs))))"
  using assms
  by (simp add: handle_query_def paid_endpoint_def limit_signer_def or_else_def commit_payment_def commit_nonce_def
      serve_query_def)

lemma check_direct:
  assumes "honest_times c now now'" and "lower (sg_address sg) \<noteq> ZERO_ADDRESS" and "dp_config dp = c"
    and "recover_signer (ev_recover ev) (direct_typed_data c sg now token) (sig_hex sig) = Inr addr"
    and "lower addr = lower (sg_address sg)"
    and "ns_has (dp_nonce_store dp) (lower (sg_address sg)) (lower (''0x'' @ to_hex token))
           (Some (pc_chain_id c)) (Some (pc_usdc_address c)) = Inr False"
    and "decode_header h = Some (JObj (direct_payment c sg now token sig))" and "h \<noteq> []"
    and "rq_payment rq = Some h"
  shows "check_payment ev dp now' rq = Inr (Inr (direct_paid c sg now token))"
proof -
  obtain vd where "validate_payment (ev_recover ev) c (dp_nonce_store dp) now' (direct_payment c sg now token sig) = Inr vd"
    "vd_ok vd" "paid_of vd = direct_paid c sg now token"
    using validate_direct [OF assms(1,2,4,5,6)] by blast
  then show ?thesis using assms(3,7-9)
    by (simp add: check_payment_def parse_payment_header_def paid_of_def)
qed

text \<open>The state of the server after the exchange.\<close>

definition after_service :: "dark_pool \<Rightarrow> limiter \<Rightarrow> nonce_store \<Rightarrow> memory \<Rightarrow> dark_pool" where
  "after_service dp l store m = dp\<lparr>dp_rate_limiter := l, dp_nonce_store := store, dp_memory := m\<rparr>"

lemma honest_exchange:
  assumes "dp_config dp = c" and "policy_for c pl" and "signer_recovers (ev_recover ev) sg"
    and "lower (sg_address sg) \<noteq> ZERO_ADDRESS"
    and "ascii (pc_network c)" "ascii (sg_address sg)" "ascii (pc_payment_recipient c)"
    and "honest_times c now (ck_now ck2)"
    and "ev_query_body ev body = Some (v, k)" and "length v = ms_dim (dp_memory dp)"
    and "try_consume (dp_rate_limiter dp) (lower (sg_address sg)) 1 (ck_mono ck2) = Inr (l, True)"
    and "ns_has (dp_nonce_store dp) (lower (sg_address sg)) (lower (''0x'' @ to_hex token))
           (Some (pc_chain_id c)) (Some (pc_usdc_address c)) = Inr False"
    and "ns_add (dp_nonce_store dp) (lower (sg_address sg)) (lower (''0x'' @ to_hex token))
           (now + pc_max_timeout_seconds c) (Some (pc_chain_id c)) (Some (pc_usdc_address c)) = Inr store'"
    and "query (ev_argpartition ev) (ev_argsort ev) (dp_memory dp) v k = Inr (m', rs)"
  shows "x402_pay_and_post fr (post_query sj ev) sg pl now token url body (dp, [ck1, ck2]) =
    ((after_service dp l store' m', []), Inr (content_json sj (Results (query_results m' rs))))"
proof -
  obtain sig addr where sg: "sg_sign sg (direct_typed_data c sg now token) = Inr sig" "ascii (sig_hex sig)"
    "recover_signer (ev_recover ev) (direct_typed_data c sg now token) (sig_hex sig) = Inr addr"
    "lower addr = lower (sg_address sg)"
    using assms(3) direct_typed_data_from [of c sg now token] unfolding signer_recovers_def by blast
  define h where "h = encode_header fr (JObj (direct_payment c sg now token sig))"
  have h: "decode_header h = Some (JObj (direct_payment c sg now token sig))" "h \<noteq> []"
    using direct_payment_wire [OF assms(5-7) sg(2)] by (simp_all add: h_def)
  let ?first = "\<lparr>rp_status = 402, rp_json = Some (requests_json X402_VERSION (all_accepts c url) None)\<rparr>"
  let ?rq = "\<lparr>rq_path = url, rq_body = Some (JObj body), rq_payment = Some h\<rparr>"
  have ch: "challenge_header fr sg pl now token ?first = Inr h"
    using challenge_header_direct [OF assms(2), of ?first X402_VERSION url None fr sg now token]
      build_direct_header [OF sg(1)] assms(8)
    by (simp add: h_def honest_times_def)
  have "check_payment ev dp (ck_now ck2) ?rq = Inr (Inr (direct_paid c sg now token))"
    by (rule check_direct [OF assms(8,4,1) sg(3,4) assms(12) h]) simp
  then have "handle_query ev ck2 dp ?rq = (after_service dp l store' m', Inr (respond 200 (Results (query_results m' rs))))"
    unfolding after_service_def
    by (intro paid_query_served [where p = "direct_paid c sg now token", OF assms(9,10)])
      (use assms in \<open>simp_all add: direct_paid_def\<close>)
  then have "post_query sj ev (dp, [ck2]) url body [(''X-PAYMENT'', h)] =
      ((after_service dp l store' m', []),
       Inr \<lparr>rp_status = 200, rp_json = Some (content_json sj (Results (query_results m' rs)))\<rparr>)"
    by (simp add: post_query_def respond_def del: content_json.simps)
  then show ?thesis
    using challenge_of_unpaid [where sj = sj and ev = ev and dp = dp and ck = ck1 and cks = "[ck2]" and url = url, OF assms(9,10)] ch
    by (simp add: x402_pay_and_post_def assms(1) reply_json_def del: content_json.simps)
qed

end
