(* ===== verification/Client_Properties.thy ===== *)
theory Client_Properties
  imports Exchange
begin

text \<open>
  The properties of the paying client (\<open>agents/x402_client.py\<close>), alone against any server and
  together with the server of \<open>agents/dark_pool.py\<close>.
\<close>

text \<open>C16: (safety) Whatever the server answers, the client sends at most two requests and signs at most one
  authorisation, and what it signs is within its policy: at most the expected price, to the pinned
  recipient when one is pinned, under its own chain id and asset, from its own address, with a
  fresh nonce. The header of the second request is that authorisation with its signature, and a
  result is returned only from a reply with status 200.\<close>

theorem client_pays_once_within_policy:
  assumes "x402_pay_and_post fr (recording post) sg pl now token url body (w, []) = ((w', lg), r)"
  shows "((\<exists>rep. lg = [(url, body, [], rep)]) \<or>
     (\<exists>first h rep td sig. lg = [(url, body, [], Inr first), (url, body, [(''X-PAYMENT'', h)], rep)] \<and>
        rp_status first = 402 \<and> sg_sign sg td = Inr sig \<and>
        td_value td \<le> usdc_to_base_units (pl_expected_price_usdc pl) \<and>
        td_from td = sg_address sg \<and> td_chain_id td = pl_chain_id pl \<and>
        td_verifying_contract td = pl_asset_address pl \<and> td_nonce td = ''0x'' @ to_hex token \<and>
        (\<forall>p. pl_expected_recipient pl = Some p \<and> p \<noteq> [] \<longrightarrow> lower_or_empty (td_to td) = Inr (lower p)) \<and>
        h = encode_header fr (JObj (payment_object (pl_network pl) (td_from td) (td_to td) (td_value td)
              (td_valid_after td) (td_valid_before td) (td_nonce td) (sig_hex sig))))) \<and>
    (\<forall>v. r = Inr v \<longrightarrow> (\<exists>hs reply. last lg = (url, body, hs, Inr reply) \<and> rp_status reply = 200 \<and> rp_json reply = Some v))"
proof -
  have js: "rp_json reply = Some v" if "reply_json reply = Inr v" for reply v
    using that by (cases "rp_json reply") (auto simp: reply_json_def)
  from pay_and_post_cases [OF assms] show ?thesis
  proof (elim disjE exE conjE)
    fix rep
    assume "lg = [(url, body, [], rep)]"
      and "\<forall>v. r = Inr v \<longrightarrow> (\<exists>first. rep = Inr first \<and> rp_status first = 200 \<and> reply_json first = Inr v)"
    then show ?thesis using js by fastforce
  next
    fix first h rep
    assume lg: "lg = [(url, body, [], Inr first), (url, body, [(''X-PAYMENT'', h)], rep)]"
      and st: "rp_status first = 402" and ch: "challenge_header fr sg pl now token first = Inr h"
      and r: "\<forall>v. r = Inr v \<longrightarrow> (\<exists>second. rep = Inr second \<and> rp_status second = 200 \<and> reply_json second = Inr v)"
    from challenge_header_Inr [OF ch] obtain a extra sig where a: "within_policy pl a"
      and sig: "sg_sign sg (client_typed_data sg a extra (pl_chain_id pl) (pl_asset_address pl) now (''0x'' @ to_hex token)) = Inr sig"
      and h: "h = encode_header fr (JObj (payment_object (pl_network pl) (sg_address sg) (ac_pay_to a)
          (ac_max_amount_required a) (now - 1) (now + ac_max_timeout_seconds a) (''0x'' @ to_hex token) (sig_hex sig)))"
      by blast
    define td where "td = client_typed_data sg a extra (pl_chain_id pl) (pl_asset_address pl) now (''0x'' @ to_hex token)"
    have td: "td_value td = ac_max_amount_required a" "td_from td = sg_address sg" "td_chain_id td = pl_chain_id pl"
      "td_verifying_contract td = pl_asset_address pl" "td_nonce td = ''0x'' @ to_hex token" "td_to td = ac_pay_to a"
      "td_valid_after td = now - 1" "td_valid_before td = now + ac_max_timeout_seconds a"
      by (simp_all add: td_def client_typed_data_def build_typed_data_def startswith_def)
    have "\<exists>hs reply. last lg = (url, body, hs, Inr reply) \<and> rp_status reply = 200 \<and> rp_json reply = Some v"
      if "r = Inr v" for v using r that lg js by auto
    moreover have "sg_sign sg td = Inr sig" using sig by (simp only: td_def)
    moreover have "h = encode_header fr (JObj (payment_object (pl_network pl) (td_from td) (td_to td) (td_value td)
              (td_valid_after td) (td_valid_before td) (td_nonce td) (sig_hex sig)))" by (simp only: h td)
    moreover have "td_value td \<le> usdc_to_base_units (pl_expected_price_usdc pl)"
      "\<forall>p. pl_expected_recipient pl = Some p \<and> p \<noteq> [] \<longrightarrow> lower_or_empty (td_to td) = Inr (lower p)"
      using a by (auto simp: within_policy_def td)
    ultimately show ?thesis using lg st td(2-5) by blast
  qed
qed

text \<open>The signer of the example: signatures from which the example's recovery reads the sender.\<close>

definition sample_signer :: signer where
  "sample_signer = \<lparr>sg_address = ''0xA1'', sg_sign = (\<lambda>td. Inr (SigBytes sample_sig_bytes))\<rparr>"

definition sample_policy :: policy where
  "sample_policy = \<lparr>pl_chain_id = 5042002, pl_asset_address = ''0xc3'', pl_expected_price_usdc = 1 / 1000,
     pl_network = ''arc-testnet'', pl_expected_recipient = Some ''0xB2''\<rparr>"

lemma sample_policy_units: "usdc_to_base_units (pl_expected_price_usdc sample_policy) = 1000"
proof -
  have "(1 :: rat) / 1000 * 10 ^ USDC_DECIMALS = of_int 1000" by (simp add: USDC_DECIMALS_def)
  then show ?thesis unfolding usdc_to_base_units_def sample_policy_def
    by (metis policy.select_convs(3) round_half_even_int)
qed

lemma sample_signer_facts:
  "signer_recovers (ev_recover sample_env) sample_signer" "lower (sg_address sample_signer) \<noteq> ZERO_ADDRESS"
  "lower (sg_address sample_signer) = ''0xa1''"
proof -
  have "length ''0xa1'' \<noteq> length ZERO_ADDRESS" by (simp add: ZERO_ADDRESS_def)
  then have z: "''0xa1'' \<noteq> ZERO_ADDRESS" by metis
  show "lower (sg_address sample_signer) = ''0xa1''" by (simp add: sample_signer_def sample_lower)
  then show "lower (sg_address sample_signer) \<noteq> ZERO_ADDRESS" using z by simp
  then show "signer_recovers (ev_recover sample_env) sample_signer"
    using recover_sample z
    by (auto simp: signer_recovers_def sample_signer_def sample_env_def sample_lower
        sample_sig_def [symmetric] ascii_to_hex [of sample_sig_bytes, folded sample_sig_def])
qed

lemma client_pays_once_within_policy_witness:
  "\<exists>w' lg r. x402_pay_and_post ratio_repr (recording (post_query (\<lambda>_. JNull) sample_env)) sample_signer sample_policy
       10 [171] ''/query'' [] ((sample_pool [], [sample_clock 10, sample_clock 11]), []) = ((w', lg), r) \<and>
     (length lg = 1 \<or> length lg = 2)"
proof -
  obtain w' lg r where run: "x402_pay_and_post ratio_repr (recording (post_query (\<lambda>_. JNull) sample_env)) sample_signer
      sample_policy 10 [171] ''/query'' [] ((sample_pool [], [sample_clock 10, sample_clock 11]), []) = ((w', lg), r)"
    by (metis surj_pair)
  have "length lg = 1 \<or> length lg = 2"
    using client_pays_once_within_policy [OF run, THEN conjunct1] by (elim disjE exE conjE) simp_all
  with run show ?thesis by blast
qed



text \<open>A challenge without an acceptable entry costs nothing: when every entry of the \<open>accepts\<close> array
  asks for another scheme, network or asset, for more than the expected price, or for another
  recipient than the pinned one, the client raises \<open>X402Error\<close> after the first request and signs
  nothing.\<close>

theorem unacceptable_challenge_is_refused:
  assumes "post w url body [] = (w1, Inr \<lparr>rp_status = 402, rp_json = Some (JObj challenge)\<rparr>)"
    and "dict_get challenge ''accepts'' = JList entries"
    and "\<forall>raw \<in> set entries. refused_entry pl raw"
  shows "\<exists>msg. x402_pay_and_post fr post sg pl now token url body w = (w1, Inl (X402Error msg))"
  using assms(1,2) pick_accept_refuses [OF assms(3)]
  by (auto simp: x402_pay_and_post_def challenge_header_def)

lemma unacceptable_challenge_is_refused_witness:
  "\<exists>msg. x402_pay_and_post ratio_repr
      (\<lambda>w url body hs. (w + 1, Inr \<lparr>rp_status = 402, rp_json = Some (JObj [(''accepts'', JList
         [JObj (requirements_to_dict (direct_requirements (sample_config\<lparr>pc_price_units := 1001\<rparr>) ''/query''))])])\<rparr>))
      sample_signer sample_policy 10 [171] ''/query'' [] (0 :: nat) = (1, Inl (X402Error msg))"
proof -
  let ?c = "sample_config\<lparr>pc_price_units := 1001\<rparr>"
  have "short (pc_price_units ?c)" by (simp add: short_def nat_str.simps)
  from normalise_direct [OF this, of "''/query''"]
  have "refused_entry sample_policy (JObj (requirements_to_dict (direct_requirements ?c ''/query'')))"
    unfolding refused_entry_def within_policy_def using sample_policy_units
    by (intro exI [of _ "direct_accept ?c ''/query''"]) (simp add: direct_accept_def lower_or_empty_str)
  then show ?thesis
    by (intro unacceptable_challenge_is_refused [where entries = "[JObj (requirements_to_dict (direct_requirements ?c ''/query''))]"
          and challenge = "[(''accepts'', JList [JObj (requirements_to_dict (direct_requirements ?c ''/query''))])]"])
      (simp_all add: dict_get_def)
qed

end
