(* ===== verification/Py_Text.thy ===== *)
theory Py_Text
  imports Py_Codec
begin

text \<open>
  The string methods and number texts the agents use: \<open>split\<close>, \<open>str\<close> of a value, \<open>Decimal(text)\<close>
  and \<open>float(text)\<close>. The shortest decimal form of a float is the parameter \<open>fr\<close>.
\<close>

subsection \<open>Words\<close>

function split_ws :: "string \<Rightarrow> string list" where
  "split_ws s =
     (let t = dropWhile str_space s
      in if t = [] then []
         else takeWhile (\<lambda>c. \<not> str_space c) t # split_ws (dropWhile (\<lambda>c. \<not> str_space c) t))"
  by auto
termination
proof (relation "measure length")
  fix s t :: string
  assume t: "t = dropWhile str_space s" "t \<noteq> []"
  obtain c t' where c: "t = c # t'" using t(2) by (cases t) auto
  then have "\<not> str_space c" using t hd_dropWhile [of str_space s] by simp
  then have "length (dropWhile (\<lambda>c. \<not> str_space c) t) < length t"
    using length_dropWhile_le [of "\<lambda>c. \<not> str_space c" t'] by (simp add: c)
  moreover have "length t \<le> length s" by (simp add: t(1) length_dropWhile_le)
  ultimately show "(dropWhile (\<lambda>c. \<not> str_space c) t, s) \<in> measure length" by simp
qed simp

declare split_ws.simps [simp del]

fun join :: "string \<Rightarrow> string list \<Rightarrow> string" where
  "join sep [] = []"
| "join sep [x] = x"
| "join sep (x # y # ys) = x @ sep @ join sep (y # ys)"

lemma split_ws_Nil [simp]: "split_ws [] = []"
  by (simp add: split_ws.simps)

lemma split_ws_word:
  assumes "w \<noteq> []" and "\<forall>c \<in> set w. \<not> str_space c" and "r = [] \<or> str_space (hd r)"
  shows "split_ws (w @ r) = w # split_ws r"
proof -
  obtain c w' where w: "w = c # w'" using assms(1) by (cases w) auto
  have 1: "dropWhile str_space (w @ r) = w @ r" using assms(2) w by simp
  have 2: "takeWhile (\<lambda>c. \<not> str_space c) (w @ r) = w" "dropWhile (\<lambda>c. \<not> str_space c) (w @ r) = r"
    using assms(2,3) by (cases r; simp)+
  show ?thesis using assms(1) by (subst split_ws.simps) (simp add: 1 2 Let_def)
qed

lemma split_ws_space: "str_space c \<Longrightarrow> split_ws (c # r) = split_ws r"
  by (subst (1 2) split_ws.simps) simp

text \<open>Splitting what was joined with single spaces.\<close>

lemma split_join:
  assumes "\<forall>w \<in> set ws. w \<noteq> [] \<and> (\<forall>c \<in> set w. \<not> str_space c)"
  shows "split_ws (join '' '' ws) = ws"
  using assms
proof (induction ws rule: induct_list012)
  case (2 w)
  then show ?case using split_ws_word [of w "[]"] by simp
next
  case (3 w v ws)
  have "str_space CHR '' ''" by (simp add: str_space_def is_space_def)
  with 3 show ?case by (simp add: split_ws_word split_ws_space)
qed simp

subsection \<open>str(x)\<close>

text \<open>
  \<open>repr\<close> of a string: single quotes unless it holds one and no double quote. Characters outside
  ASCII are taken as printable.
\<close>

definition repr_char :: "char \<Rightarrow> char \<Rightarrow> string" where
  "repr_char q c =
     (let n = (of_char c :: nat) in
      if c = q \<or> n = 92 then [CHR 0x5C, c]
      else if n = 10 then [CHR 0x5C, CHR ''n'']
      else if n = 13 then [CHR 0x5C, CHR ''r'']
      else if n = 9 then [CHR 0x5C, CHR ''t'']
      else if n < 32 \<or> n = 127 then [CHR 0x5C, CHR ''x'', hex_digit (n div 16), hex_digit (n mod 16)]
      else [c])"

definition repr_str :: "string \<Rightarrow> string" where
  "repr_str s =
     (let q = (if CHR 0x27 \<in> set s \<and> CHR 0x22 \<notin> set s then CHR 0x22 else CHR 0x27)
      in q # concat (map (repr_char q) s) @ [q])"

fun py_repr :: "(rat \<Rightarrow> string) \<Rightarrow> json \<Rightarrow> string" where
  "py_repr fr JNull = ''None''"
| "py_repr fr (JBool b) = (if b then ''True'' else ''False'')"
| "py_repr fr (JInt n) = int_str n"
| "py_repr fr (JFloat x) = fr x"
| "py_repr fr JNaN = ''nan''"
| "py_repr fr JPosInf = ''inf''"
| "py_repr fr JNegInf = ''-inf''"
| "py_repr fr (JStr s) = repr_str s"
| "py_repr fr (JList vs) = CHR ''['' # comma_space (map (py_repr fr) vs) @ '']''"
| "py_repr fr (JObj kvs) =
     CHR ''{'' # comma_space (map (\<lambda>kv. repr_str (fst kv) @ '': '' @ py_repr fr (snd kv)) kvs) @ ''}''"

fun py_str :: "(rat \<Rightarrow> string) \<Rightarrow> json \<Rightarrow> string" where
  "py_str fr (JStr s) = s"
| "py_str fr v = py_repr fr v"

subsection \<open>Number texts\<close>

text \<open>Digits with an optional point, at least one digit: the value and the rest.\<close>

definition decimal_digits :: "string \<Rightarrow> (rat \<times> string) option" where
  "decimal_digits s =
     (let ds = takeWhile is_digit s; s1 = dropWhile is_digit s;
          fs = (if startswith s1 ''.'' then takeWhile is_digit (tl s1) else []);
          s2 = (if startswith s1 ''.'' then dropWhile is_digit (tl s1) else s1)
      in if ds = [] \<and> fs = [] then None
         else Some (of_nat (digits_val (ds @ fs)) / 10 ^ length fs, s2))"

definition finite_number :: "string \<Rightarrow> rat option" where
  "finite_number s =
     (let (neg, s1) = (if startswith s ''-'' then (True, tl s) else if startswith s ''+'' then (False, tl s) else (False, s))
      in (case decimal_digits s1 of
            None \<Rightarrow> None
          | Some (v, s2) \<Rightarrow>
              (case (if s2 = [] then Some (0, []) else exp_part s2) of
                 Some (e, []) \<Rightarrow> Some ((if neg then - v else v) * pow10 e)
               | _ \<Rightarrow> None)))"

definition unsign :: "string \<Rightarrow> string" where
  "unsign s = (if startswith s ''-'' \<or> startswith s ''+'' then tl s else s)"

text \<open>
  \<open>int(Decimal(text))\<close> fails on the special values, \<open>Decimal(text)\<close> on what is no number:
  underscores are ignored wherever they stand.
\<close>

definition decimal_of :: "string \<Rightarrow> rat res" where
  "decimal_of text =
     (let s = lower (filter (\<lambda>c. c \<noteq> CHR ''_'') (strip text))
      in (case finite_number s of
            Some v \<Rightarrow> Inr v
          | None \<Rightarrow>
              if unsign s \<in> {''inf'', ''infinity''} then Inl (OverflowError ''cannot convert Infinity to integer'')
              else if startswith (unsign s) ''nan'' \<and> list_all is_digit (drop 3 (unsign s)) \<or>
                      startswith (unsign s) ''snan'' \<and> list_all is_digit (drop 4 (unsign s))
              then Inl (ValueError ''cannot convert NaN to integer'')
              else Inl (LibraryError ''decimal.InvalidOperation'')))"

text \<open>Underscores in a float text must stand between digits.\<close>

fun underscores_ok :: "bool \<Rightarrow> string \<Rightarrow> bool" where
  "underscores_ok after_digit [] = True"
| "underscores_ok after_digit (c # cs) =
     (if c = CHR ''_'' then after_digit \<and> cs \<noteq> [] \<and> is_digit (hd cs) \<and> underscores_ok False cs
      else underscores_ok (is_digit c) cs)"

definition float_of :: "string \<Rightarrow> json res" where
  "float_of text =
     (let s0 = strip text; s = lower (filter (\<lambda>c. c \<noteq> CHR ''_'') s0)
      in if \<not> underscores_ok False s0 then Inl (ValueError ''could not convert string to float'')
         else (case finite_number s of
             Some v \<Rightarrow> Inr (double_of v)
           | None \<Rightarrow>
               if unsign s \<in> {''inf'', ''infinity''}
               then Inr (if startswith s ''-'' then JNegInf else JPosInf)
               else if unsign s = ''nan'' then Inr JNaN
               else Inl (ValueError ''could not convert string to float'')))"

text \<open>
  \<open>int((Decimal(str(amount)) * 10**6).to_integral_value())\<close>: half to even, without the rounding of
  products beyond 28 significant digits.
\<close>

definition decimal_units :: "(rat \<Rightarrow> string) \<Rightarrow> nat \<Rightarrow> json \<Rightarrow> int res" where
  "decimal_units fr decimals amount =
     map_sum id (\<lambda>d. round_half_even (d * 10 ^ decimals)) (decimal_of (py_str fr amount))"

subsection \<open>Evaluation on concrete texts\<close>

lemma round_half_even_numeral [simp]: "round_half_even (numeral k) = numeral k" "round_half_even 1 = 1" "round_half_even 0 = 0"
  using round_half_even_int [of "numeral k"] round_half_even_int [of 1] round_half_even_int [of 0] by simp_all

lemma bit_length_eval:
  "bit_length 0 = 0" "bit_length (Suc 0) = 1" "bit_length (numeral k) = Suc (bit_length (numeral k div 2))"
  by (simp add: bit_length.simps, simp add: bit_length.simps, subst bit_length.simps, simp)

lemmas double_eval = double_of_def floor_log2_def Let_def bit_length_eval pow2_def quotient_of_number

lemmas number_eval = float_of_def decimal_of_def finite_number_def decimal_digits_def strip_def str_space_def
  is_space_def startswith_def is_digit_def digits_val_def digit_val_def lower_eval pow10_def

lemma int_text_eval:
  "nat_str (numeral k) =
     (if (numeral k :: nat) < 10 then [char_of (48 + (numeral k :: nat))]
      else nat_str (numeral k div 10) @ [char_of (48 + (numeral k :: nat) mod 10)])"
  "nat_str 0 = ''0''" "nat_str (Suc 0) = ''1''"
  by (rule nat_str.simps) (simp_all add: nat_str.simps char_of_def bit_0)

lemma join_append:
  "xs \<noteq> [] \<Longrightarrow> ys \<noteq> [] \<Longrightarrow> join sep (xs @ ys) = join sep xs @ sep @ join sep ys"
proof (induction sep xs rule: join.induct)
  case (2 sep x)
  then show ?case by (cases ys) simp_all
qed simp_all

text \<open>A word: no whitespace, not empty.\<close>

definition word :: "string \<Rightarrow> bool" where
  "word w \<longleftrightarrow> w \<noteq> [] \<and> list_all (\<lambda>c. \<not> str_space c) w"

lemma split_join_words: "list_all word ws \<Longrightarrow> split_ws (join '' '' ws) = ws"
  by (rule split_join) (auto simp: word_def list_all_iff)

lemma word_nat_str: "word (nat_str n)"
  using nat_str_digits [of n] is_digit_not_space by (auto simp: word_def list_all_iff)

end
