(* ===== verification/Bob_Agent.thy ===== *)
theory Bob_Agent
  imports X402_Client Py_Text Memory_Persist "HOL-Library.Product_Lexorder"
begin

text \<open>
  The trading agent of \<open>agents/bob.py\<close>: the encoding of its constitution, its state and
  \<open>bootstrap\<close>, the decision loop with the lesson it stores, the classification of an intent against
  the rules, and the spawning of a child with a slice of the parent's memory.

  The ABI encoder of eth-abi, keccak, the account constructor, the sentence encoder and numpy's
  generators are fields of \<open>bob_env\<close>. A rule is a dict of JSON values (a \<open>bytes\<close> value under
  \<open>params_bytes\<close> is outside the model). A step that may raise after changing the agent returns the
  agent beside the result.
\<close>

subsection \<open>Constants\<close>

definition KIND_MAX_LEVERAGE :: int where "KIND_MAX_LEVERAGE = 0"
definition KIND_MAX_TRADE_SIZE :: int where "KIND_MAX_TRADE_SIZE = 1"
definition KIND_VENUE_BLACKLIST :: int where "KIND_VENUE_BLACKLIST = 2"
definition KIND_NO_UNAUDITED_CONTRACTS :: int where "KIND_NO_UNAUDITED_CONTRACTS = 3"
definition KIND_SUBDELEGATION_BOUND :: int where "KIND_SUBDELEGATION_BOUND = 4"
definition KIND_CUSTOM :: int where "KIND_CUSTOM = 255"

definition KIND_STR_TO_INT :: "(string \<times> int) list" where
  "KIND_STR_TO_INT =
     [(''MAX_LEVERAGE'', KIND_MAX_LEVERAGE), (''MAX_TRADE_SIZE'', KIND_MAX_TRADE_SIZE),
      (''VENUE_BLACKLIST'', KIND_VENUE_BLACKLIST), (''NO_UNAUDITED_CONTRACTS'', KIND_NO_UNAUDITED_CONTRACTS),
      (''SUBDELEGATION_BOUND'', KIND_SUBDELEGATION_BOUND), (''CUSTOM'', KIND_CUSTOM)]"

definition EXECUTE_SELECTOR :: "byte list" where
  "EXECUTE_SELECTOR = [0xb6, 0x1d, 0x27, 0xf6]"

definition ERC20_TRANSFER_SELECTOR :: "byte list" where
  "ERC20_TRANSFER_SELECTOR = [0xa9, 0x05, 0x9c, 0xbb]"

definition BOB_USDC_DECIMALS :: nat where "BOB_USDC_DECIMALS = 6"

definition ZERO_ADAPTER :: string where
  "ZERO_ADAPTER = ''0x'' @ replicate 40 CHR ''0''"

definition DEFAULT_EMBED_MODEL :: string where
  "DEFAULT_EMBED_MODEL = ''sentence-transformers/all-MiniLM-L6-v2''"

definition DEFAULT_CHILD_WORKING_CAP :: int where
  "DEFAULT_CHILD_WORKING_CAP = 64"

subsection \<open>The world\<close>

datatype abi_arg = AInt int | ABytes "byte list" | AJson json | ATuple "abi_arg list" | AList "abi_arg list"

record bob_env =
  be_abi :: "string list \<Rightarrow> abi_arg list \<Rightarrow> byte list res"
  be_keccak :: "byte list \<Rightarrow> byte list"
  be_sha256 :: "byte list \<Rightarrow> byte list"
  be_normal :: "int \<Rightarrow> nat \<Rightarrow> vec"
  be_rotation :: "nat \<Rightarrow> int \<Rightarrow> vec list"
  be_encode :: "string \<Rightarrow> json \<Rightarrow> vec res"
  be_float_repr :: "rat \<Rightarrow> string"
  be_account :: "string \<Rightarrow> signer"
  be_vec_json :: "vec \<Rightarrow> json list"

definition usdc_to_units :: "bob_env \<Rightarrow> json \<Rightarrow> int res" where
  "usdc_to_units be amount = decimal_units (be_float_repr be) BOB_USDC_DECIMALS amount"

subsection \<open>Calldata\<close>

record trade_intent =
  ti_kind :: string
  ti_target :: string
  ti_value :: int
  ti_calldata :: "byte list"
  ti_execute_calldata :: "byte list"
  ti_notes :: string
  ti_source_trace_id :: json
  ti_source_trace_score :: json

definition selector :: "trade_intent \<Rightarrow> byte list" where
  "selector ti = (if 4 \<le> length (ti_calldata ti) then take 4 (ti_calldata ti) else [])"

definition selector_hex :: "trade_intent \<Rightarrow> string" where
  "selector_hex ti = (if selector ti \<noteq> [] then ''0x'' @ to_hex (selector ti) else ''0x'')"

definition execute_calldata_hex :: "trade_intent \<Rightarrow> string" where
  "execute_calldata_hex ti = ''0x'' @ to_hex (ti_execute_calldata ti)"

definition calldata_hex :: "trade_intent \<Rightarrow> string" where
  "calldata_hex ti = ''0x'' @ to_hex (ti_calldata ti)"

definition build_erc20_transfer_calldata :: "bob_env \<Rightarrow> string \<Rightarrow> int \<Rightarrow> byte list res" where
  "build_erc20_transfer_calldata be recipient amount_units =
     map_sum id ((@) ERC20_TRANSFER_SELECTOR)
       (be_abi be [''address'', ''uint256''] [AJson (JStr recipient), AInt amount_units])"

definition build_execute_calldata :: "bob_env \<Rightarrow> string \<Rightarrow> int \<Rightarrow> byte list \<Rightarrow> byte list res" where
  "build_execute_calldata be target value inner =
     map_sum id ((@) EXECUTE_SELECTOR)
       (be_abi be [''address'', ''uint256'', ''bytes''] [AJson (JStr target), AInt value, ABytes inner])"

subsection \<open>The constitution\<close>

type_synonym rule = dict

text \<open>\<open>_KIND_STR_TO_INT.get(kind)\<close>: a list or dict is not hashable.\<close>

fun kind_int :: "json \<Rightarrow> (string \<times> int) option res" where
  "kind_int (JStr s) = Inr (map_option (\<lambda>n. (s, n)) (map_of KIND_STR_TO_INT s))"
| "kind_int (JList _) = Inl (TypeError ''unhashable type'')"
| "kind_int (JObj _) = Inl (TypeError ''unhashable type'')"
| "kind_int _ = Inr None"

definition abi_uint :: "bob_env \<Rightarrow> int \<Rightarrow> abi_arg res" where
  "abi_uint be n = map_sum id ABytes (be_abi be [''uint256''] [AInt n])"

definition abi_addresses :: "bob_env \<Rightarrow> json \<Rightarrow> abi_arg res" where
  "abi_addresses be v =
     res_bind (json_iter v) (\<lambda>vs. map_sum id ABytes (be_abi be [''address[]''] [AList (map AJson vs)]))"

definition encode_rule_params :: "bob_env \<Rightarrow> string \<Rightarrow> rule \<Rightarrow> abi_arg res" where
  "encode_rule_params be kind rule =
     (if kind = ''MAX_LEVERAGE'' then
        res_bind (py_int (dict_get_or rule ''max_leverage_bps'' (JInt 20000))) (abi_uint be)
      else if kind = ''MAX_TRADE_SIZE'' then
        res_bind (usdc_to_units be (dict_get_or rule ''max_usdc'' (JFloat 1))) (abi_uint be)
      else if kind = ''VENUE_BLACKLIST'' then abi_addresses be (dict_get_or rule ''venues'' (JList []))
      else if kind = ''NO_UNAUDITED_CONTRACTS'' then abi_addresses be (dict_get_or rule ''whitelist'' (JList []))
      else if kind = ''SUBDELEGATION_BOUND'' then
        (case dict_get rule ''max_child_budget_units'' of
           JNull \<Rightarrow> res_bind (usdc_to_units be (dict_get_or rule ''max_child_budget_usdc'' (JFloat (1 / 2)))) (abi_uint be)
         | units \<Rightarrow> res_bind (py_int units) (abi_uint be))
      else if kind = ''CUSTOM'' then
        Inr (case map_of rule ''params_bytes'' of None \<Rightarrow> ABytes [] | Some v \<Rightarrow> AJson v)
      else Inl (ValueError ''unknown rule kind''))"

type_synonym solidity_rule = "int \<times> abi_arg \<times> json"

definition rule_to_solidity :: "bob_env \<Rightarrow> rule \<Rightarrow> solidity_rule res" where
  "rule_to_solidity be r =
     res_bind (dict_item r ''kind'') (\<lambda>label.
     res_bind (kind_int label) (\<lambda>k.
       case k of
         None \<Rightarrow> Inl (ValueError ''unknown rule kind'')
       | Some (kind, n) \<Rightarrow>
           res_bind (encode_rule_params be kind r) (\<lambda>params.
             Inr (n, params, dict_get_or r ''adapter'' (JStr ZERO_ADAPTER)))))"

definition rules_to_solidity :: "bob_env \<Rightarrow> rule list \<Rightarrow> solidity_rule list res" where
  "rules_to_solidity be rules = res_map (rule_to_solidity be) rules"

definition hash_of_rules :: "bob_env \<Rightarrow> rule list \<Rightarrow> string res" where
  "hash_of_rules be rules =
     res_bind (rules_to_solidity be rules) (\<lambda>sol.
     res_bind (be_abi be [''(uint8,bytes,address)[]'']
                 [AList (map (\<lambda>(n, params, adapter). ATuple [AInt n, params, AJson adapter]) sol)]) (\<lambda>encoded.
       Inr (''0x'' @ to_hex (be_keccak be encoded))))"

definition rule_canonical_text :: "bob_env \<Rightarrow> rule \<Rightarrow> string" where
  "rule_canonical_text be rule =
     (let kind = dict_get_or rule ''kind'' (JStr ''CUSTOM'');
          params = filter (\<lambda>kv. fst kv \<notin> {''kind'', ''rule_id''}) rule;
          kv = join '','' (map (\<lambda>k. k @ ''='' @ py_str (be_float_repr be) (dict_get params k)) (sort (map fst params)))
      in ''constitution rule '' @ py_str (be_float_repr be) kind @ '' ('' @ kv @ '')'')"

subsection \<open>The agent\<close>

record bob =
  bb_budget_usdc :: rat
  bb_constitution_rules :: "rule list"
  bb_embedding_model :: "string option"
  bb_embedding_dim :: nat
  bb_seed :: int
  bb_eoa :: "signer option"
  bb_memory :: "memory option"
  bb_constitution_hash :: "string option"
  bb_solidity_rules :: "solidity_rule list"

definition mk_bob :: "rat \<Rightarrow> rule list \<Rightarrow> string option \<Rightarrow> nat \<Rightarrow> int \<Rightarrow> bob" where
  "mk_bob budget rules model d seed =
     \<lparr>bb_budget_usdc = budget, bb_constitution_rules = rules, bb_embedding_model = model,
      bb_embedding_dim = d, bb_seed = seed, bb_eoa = None, bb_memory = None,
      bb_constitution_hash = None, bb_solidity_rules = []\<rparr>"

definition hash_vec :: "bob_env \<Rightarrow> string \<Rightarrow> nat \<Rightarrow> int \<Rightarrow> vec" where
  "hash_vec be text d seed = hash_to_vec (be_sha256 be) (be_normal be) text d seed"

text \<open>\<open>f"pinned:{r.get('rule_id', r['kind'])}"\<close>: the default is evaluated first.\<close>

definition pinned_rule_id :: "bob_env \<Rightarrow> rule \<Rightarrow> string res" where
  "pinned_rule_id be r =
     res_bind (dict_item r ''kind'') (\<lambda>kind.
       Inr (''pinned:'' @ py_str (be_float_repr be) (dict_get_or r ''rule_id'' kind)))"

text \<open>\<open>{"text": text, **r}\<close>.\<close>

definition rule_payload :: "bob_env \<Rightarrow> rule \<Rightarrow> dict" where
  "rule_payload be r =
     foldl (\<lambda>d kv. AList.update (fst kv) (snd kv) d) [(''text'', JStr (rule_canonical_text be r))] r"

definition pin_rule :: "bob_env \<Rightarrow> nat \<Rightarrow> int \<Rightarrow> memory \<Rightarrow> rule \<Rightarrow> real \<Rightarrow> memory res" where
  "pin_rule be d seed m r now =
     res_bind (pinned_rule_id be r) (\<lambda>tid.
       add m tid (hash_vec be (rule_canonical_text be r) d seed) ''pinned'' True (Some (rule_payload be r)) now)"

text \<open>The loop over the rules: the memory reached, and how the loop ended. \<open>now i\<close> is the clock of the \<open>i\<close>-th insertion.\<close>

fun pin_rules :: "bob_env \<Rightarrow> nat \<Rightarrow> int \<Rightarrow> rule list \<Rightarrow> (nat \<Rightarrow> real) \<Rightarrow> memory \<Rightarrow> memory \<times> unit res" where
  "pin_rules be d seed [] now m = (m, Inr ())"
| "pin_rules be d seed (r # rs) now m =
     (case pin_rule be d seed m r (now 0) of
        Inl e \<Rightarrow> (m, Inl e)
      | Inr m' \<Rightarrow> pin_rules be d seed rs (\<lambda>i. now (Suc i)) m')"

definition bootstrap :: "bob_env \<Rightarrow> byte list \<Rightarrow> (nat \<Rightarrow> real) \<Rightarrow> bob \<Rightarrow> bob \<times> unit res" where
  "bootstrap be key now b =
     (case bb_eoa b of
        Some _ \<Rightarrow> (b, Inr ())
      | None \<Rightarrow>
          (let b1 = b\<lparr>bb_eoa := Some (be_account be (''0x'' @ to_hex key))\<rparr>
           in case rules_to_solidity be (bb_constitution_rules b) of
                Inl e \<Rightarrow> (b1, Inl e)
              | Inr sol \<Rightarrow>
                  (let b2 = b1\<lparr>bb_solidity_rules := sol\<rparr>
                   in case hash_of_rules be (bb_constitution_rules b) of
                        Inl e \<Rightarrow> (b2, Inl e)
                      | Inr h \<Rightarrow>
                          (let (m, r) = pin_rules be (bb_embedding_dim b) (bb_seed b) (bb_constitution_rules b) now
                                          (mk_memory (be_rotation be) (bb_embedding_dim b) None (bb_seed b))
                           in (b2\<lparr>bb_constitution_hash := Some h, bb_memory := Some m\<rparr>, r)))))"

definition bob_address :: "bob \<Rightarrow> string res" where
  "bob_address b = map_sum id sg_address (of_opt (RuntimeError ''Bob not bootstrapped'') (bb_eoa b))"

definition bob_embed :: "bob_env \<Rightarrow> bob \<Rightarrow> json \<Rightarrow> vec res" where
  "bob_embed be b text =
     (case bb_embedding_model b of
        None \<Rightarrow> map_sum id (\<lambda>s. hash_vec be s (bb_embedding_dim b) (bb_seed b)) (as_str text)
      | Some model \<Rightarrow>
          if model = [] \<or> lower model = ''hash''
          then map_sum id (\<lambda>s. hash_vec be s (bb_embedding_dim b) (bb_seed b)) (as_str text)
          else be_encode be model text)"

subsection \<open>Paying for a query\<close>

definition rstrip_char :: "char \<Rightarrow> string \<Rightarrow> string" where
  "rstrip_char c s = rev (dropWhile (\<lambda>x. x = c) (rev s))"

definition query_url :: "string \<Rightarrow> string" where
  "query_url alice_url = (if alice_url \<noteq> [] then rstrip_char CHR ''/'' alice_url @ ''/query'' else ''/query'')"

definition query_alice ::
  "bob_env \<Rightarrow> 'w transport \<Rightarrow> policy \<Rightarrow> int \<Rightarrow> byte list \<Rightarrow> string \<Rightarrow> string \<Rightarrow> int \<Rightarrow> bob \<Rightarrow> 'w \<Rightarrow> 'w \<times> json res" where
  "query_alice be post pl xnow token alice_url market_state k b w =
     (case bb_eoa b of
        None \<Rightarrow> (w, Inl (RuntimeError ''Bob not bootstrapped''))
      | Some sg \<Rightarrow>
          (case bob_embed be b (JStr market_state) of
             Inl e \<Rightarrow> (w, Inl e)
           | Inr v \<Rightarrow>
               x402_query (be_float_repr be) post sg pl xnow token (query_url alice_url) (be_vec_json be v) k w))"

subsection \<open>Reading a trace\<close>

text \<open>The word after the first \<open>w\<close>: \<open>Some None\<close> when \<open>w\<close> is the last word (an \<open>IndexError\<close>).\<close>

fun word_after :: "string \<Rightarrow> string list \<Rightarrow> string option option" where
  "word_after w [] = None"
| "word_after w (x # xs) = (if x = w then Some (case xs of [] \<Rightarrow> None | y # _ \<Rightarrow> Some y) else word_after w xs)"

text \<open>The dict as filled until the first missing word or unreadable size.\<close>

definition parse_words :: "string list \<Rightarrow> dict" where
  "parse_words parts =
     (case parts of
        [] \<Rightarrow> []
      | [side] \<Rightarrow> [(''side'', JStr side)]
      | side # token # _ \<Rightarrow>
          (let d0 = [(''side'', JStr side), (''token'', JStr token)] in
           case word_after ''on'' parts of
             Some None \<Rightarrow> d0
           | on \<Rightarrow>
               (let d1 = d0 @ (case on of Some (Some venue) \<Rightarrow> [(''venue'', JStr venue)] | _ \<Rightarrow> []);
                    size = word_after ''size'' parts;
                    amount = (case size of Some (Some t) \<Rightarrow> Some (float_of t) | _ \<Rightarrow> None)
                in if size = Some None \<or> (\<exists>e. amount = Some (Inl e)) then d1
                   else
                     (let d2 = d1 @ (case amount of Some (Inr v) \<Rightarrow> [(''size_usdc'', v)] | _ \<Rightarrow> [])
                      in case word_after ''risk'' parts of
                           Some (Some risk) \<Rightarrow> d2 @ [(''risk'', JStr risk)]
                         | _ \<Rightarrow> d2))))"

definition parse_trace_text :: "json \<Rightarrow> dict res" where
  "parse_trace_text text =
     (if \<not> truthy text then Inr [] else map_sum id (\<lambda>s. parse_words (split_ws s)) (as_str text))"

subsection \<open>Classifying an intent\<close>

definition lower_all :: "json \<Rightarrow> string list res" where
  "lower_all v = res_bind (json_iter v) (res_map (\<lambda>x. map_sum id lower (as_str x)))"

text \<open>One turn of the loop: \<open>Some kind\<close> when the rule is tripped.\<close>

definition trips :: "bob_env \<Rightarrow> rule \<Rightarrow> string \<Rightarrow> int \<Rightarrow> byte list \<Rightarrow> int \<Rightarrow> string option res" where
  "trips be r target value inner_selector amount_units =
     (if dict_get r ''kind'' = JStr ''MAX_TRADE_SIZE'' then
        res_bind (usdc_to_units be (dict_get_or r ''max_usdc'' (JFloat 0))) (\<lambda>cap.
          Inr (if cap < value \<or> inner_selector = ERC20_TRANSFER_SELECTOR \<and> cap < amount_units
               then Some ''MAX_TRADE_SIZE'' else None))
      else if dict_get r ''kind'' = JStr ''VENUE_BLACKLIST'' then
        res_bind (lower_all (dict_get_or r ''venues'' (JList []))) (\<lambda>venues.
          Inr (if lower target \<in> set venues then Some ''VENUE_BLACKLIST'' else None))
      else if dict_get r ''kind'' = JStr ''NO_UNAUDITED_CONTRACTS'' then
        res_bind (lower_all (dict_get_or r ''whitelist'' (JList []))) (\<lambda>whitelist.
          Inr (if whitelist \<noteq> [] \<and> lower target \<notin> set whitelist then Some ''NO_UNAUDITED_CONTRACTS'' else None))
      else Inr None)"

fun classify_intent :: "bob_env \<Rightarrow> rule list \<Rightarrow> string \<Rightarrow> int \<Rightarrow> byte list \<Rightarrow> int \<Rightarrow> string res" where
  "classify_intent be [] target value inner_selector amount_units = Inr ''OK''"
| "classify_intent be (r # rs) target value inner_selector amount_units =
     res_bind (trips be r target value inner_selector amount_units) (\<lambda>t.
       case t of
         Some kind \<Rightarrow> Inr kind
       | None \<Rightarrow> classify_intent be rs target value inner_selector amount_units)"

subsection \<open>Building intents\<close>

definition USDC_ON_ARC :: string where
  "USDC_ON_ARC = ''0x3600000000000000000000000000000000000000''"

definition COUNTERPARTY :: string where
  "COUNTERPARTY = ''0x000000000000000000000000000000000000bEEF''"

definition build_transfer_intent :: "bob_env \<Rightarrow> bob \<Rightarrow> json \<Rightarrow> json \<Rightarrow> json \<Rightarrow> json \<Rightarrow> trade_intent res" where
  "build_transfer_intent be b size_usdc top_trace_id top_score top_text =
     res_bind (usdc_to_units be size_usdc) (\<lambda>amount_units.
     res_bind (build_erc20_transfer_calldata be COUNTERPARTY amount_units) (\<lambda>inner.
     res_bind (build_execute_calldata be USDC_ON_ARC 0 inner) (\<lambda>outer.
     res_bind (classify_intent be (bb_constitution_rules b) USDC_ON_ARC 0 ERC20_TRANSFER_SELECTOR amount_units) (\<lambda>kind.
       let fr = be_float_repr be in
       Inr \<lparr>ti_kind = kind, ti_target = USDC_ON_ARC, ti_value = 0, ti_calldata = inner, ti_execute_calldata = outer,
            ti_notes = ''mimic '' @ py_str fr top_trace_id @ '' (score='' @ py_str fr top_score @ ''): transfer '' @
              py_str fr size_usdc @ '' USDC to '' @ COUNTERPARTY @ ''. Source text: '' @ py_repr fr top_text,
            ti_source_trace_id = top_trace_id, ti_source_trace_score = top_score\<rparr>))))"

definition build_blacklisted_venue_intent :: "bob_env \<Rightarrow> string \<Rightarrow> trade_intent res" where
  "build_blacklisted_venue_intent be blacklisted_address =
     res_bind (build_execute_calldata be blacklisted_address 0 []) (\<lambda>outer.
       Inr \<lparr>ti_kind = ''VENUE_BLACKLIST'', ti_target = blacklisted_address, ti_value = 0, ti_calldata = [],
            ti_execute_calldata = outer, ti_notes = ''call blacklisted venue '' @ blacklisted_address,
            ti_source_trace_id = JNull, ti_source_trace_score = JNull\<rparr>)"

definition build_unaudited_contract_intent :: "bob_env \<Rightarrow> string \<Rightarrow> trade_intent res" where
  "build_unaudited_contract_intent be target =
     res_bind (build_execute_calldata be target 0 []) (\<lambda>outer.
       Inr \<lparr>ti_kind = ''NO_UNAUDITED_CONTRACTS'', ti_target = target, ti_value = 0, ti_calldata = [],
            ti_execute_calldata = outer, ti_notes = ''call non-whitelisted contract '' @ target,
            ti_source_trace_id = JNull, ti_source_trace_score = JNull\<rparr>)"

subsection \<open>The decision\<close>

definition remember_trace :: "bob_env \<Rightarrow> bob \<Rightarrow> json \<Rightarrow> json \<Rightarrow> dict \<Rightarrow> int \<Rightarrow> real \<Rightarrow> bob res" where
  "remember_trace be b trace_id text parsed ts now =
     (case bb_memory b of
        None \<Rightarrow> Inr b
      | Some m \<Rightarrow>
          if trace_id = JNull then Inr b
          else
            res_bind (bob_embed be b (py_or text trace_id)) (\<lambda>v.
            res_bind (add m (''learned:'' @ py_str (be_float_repr be) trace_id) v ''working'' False
                        (Some [(''text'', text), (''parsed'', JObj parsed), (''ts'', JInt ts)]) now) (\<lambda>m'.
              Inr (b\<lparr>bb_memory := Some m'\<rparr>))))"

text \<open>\<open>results[0]\<close>, after \<open>if not results\<close>.\<close>

definition first_result :: "json \<Rightarrow> json res" where
  "first_result results =
     (if \<not> truthy results then Inl (RuntimeError ''dark pool returned no traces'')
      else (case results of
          JList (x # _) \<Rightarrow> Inr x
        | JStr (c # _) \<Rightarrow> Inr (JStr [c])
        | JObj _ \<Rightarrow> Inl (KeyError ''0'')
        | _ \<Rightarrow> Inl (TypeError ''object is not subscriptable'')))"

definition mimic :: "bob_env \<Rightarrow> bob \<Rightarrow> json \<Rightarrow> json option \<Rightarrow> int \<Rightarrow> real \<Rightarrow> bob \<times> trade_intent res" where
  "mimic be b results trade_size_usdc ts now =
     (case res_bind (first_result results) (\<lambda>x.
           res_bind (as_dict x) (\<lambda>hit.
           res_bind (as_dict (py_or (dict_get hit ''payload'') (JObj []))) (\<lambda>payload.
             let text = dict_get_or payload ''text'' (JStr [])
             in res_bind (parse_trace_text text) (\<lambda>parsed. Inr (hit, text, parsed))))) of
        Inl e \<Rightarrow> (b, Inl e)
      | Inr (hit, text, parsed) \<Rightarrow>
          (let size_usdc = (case trade_size_usdc of
                 Some s \<Rightarrow> s | None \<Rightarrow> dict_get_or parsed ''size_usdc'' (JFloat 1))
           in case remember_trace be b (dict_get hit ''trace_id'') text parsed ts now of
                Inl e \<Rightarrow> (b, Inl e)
              | Inr b' \<Rightarrow>
                  (b', build_transfer_intent be b' size_usdc (dict_get hit ''trace_id'') (dict_get hit ''score'') text)))"

definition decide ::
  "bob_env \<Rightarrow> 'w transport \<Rightarrow> policy \<Rightarrow> int \<Rightarrow> byte list \<Rightarrow> string \<Rightarrow> string \<Rightarrow> int \<Rightarrow> json option \<Rightarrow> int \<Rightarrow> real \<Rightarrow>
   bob \<Rightarrow> 'w \<Rightarrow> 'w \<times> bob \<times> trade_intent res" where
  "decide be post pl xnow token alice_url market_state k trade_size_usdc ts now b w =
     (if bb_eoa b = None then (w, b, Inl (RuntimeError ''Bob not bootstrapped''))
      else (case query_alice be post pl xnow token alice_url market_state k b w of
          (w', Inl e) \<Rightarrow> (w', b, Inl e)
        | (w', Inr results) \<Rightarrow> (w', mimic be b results trade_size_usdc ts now)))"

subsection \<open>Children\<close>

definition inherited :: "entry \<Rightarrow> entry" where
  "inherited e =
     \<lparr>e_trace_id = e_trace_id e, e_kind = e_kind e, e_pinned = e_pinned e, e_payload = e_payload e,
      e_bits_packed = e_bits_packed e, e_l1 = e_l1 e, e_norm = e_norm e, e_weight = e_weight e,
      e_last_decay_ts = e_last_decay_ts e\<rparr>"

definition relevance :: "entry \<Rightarrow> real \<times> real \<times> string" where
  "relevance e = (- e_weight e, - e_last_decay_ts e, e_trace_id e)"

definition inherited_working :: "memory \<Rightarrow> int \<Rightarrow> entry list" where
  "inherited_working m working_cap =
     (if 0 < working_cap
      then take (nat working_cap) (sort_key relevance (filter (\<lambda>e. \<not> e_pinned e) (map snd (ms_entries m))))
      else [])"

definition clone_memory_for_child :: "(nat \<Rightarrow> int \<Rightarrow> vec list) \<Rightarrow> memory option \<Rightarrow> int \<Rightarrow> memory res" where
  "clone_memory_for_child build_rotation mem working_cap =
     (case mem of
        None \<Rightarrow> Inl (RuntimeError ''Bob not bootstrapped - no memory to clone'')
      | Some m \<Rightarrow>
          (let child = (mk_memory build_rotation (ms_dim m) (Some (ms_decay_lambdas m)) (ms_seed m))
                 \<lparr>ms_centroid := ms_centroid m\<rparr>;
               pinned = map (\<lambda>(tid, e). (tid, inherited e)) (filter (\<lambda>(tid, e). e_pinned e) (ms_entries m));
               working = map (\<lambda>e. (e_trace_id e, inherited e)) (inherited_working m working_cap)
           in Inr (child\<lparr>ms_entries := foldl (\<lambda>d (t, e). AList.update t e d) [] (pinned @ working)\<rparr>)))"

definition spawn_child ::
  "bob_env \<Rightarrow> byte list \<Rightarrow> (nat \<Rightarrow> real) \<Rightarrow> (nat \<Rightarrow> real) \<Rightarrow> bob \<Rightarrow> rat option \<Rightarrow> rule list \<Rightarrow> int option \<Rightarrow> bob res" where
  "spawn_child be key now now' b child_budget_usdc extra_rules memory_working_cap =
     (if bb_eoa b = None then Inl (RuntimeError ''Bob not bootstrapped'')
      else
        (let child_budget = (case child_budget_usdc of Some c \<Rightarrow> c | None \<Rightarrow> max 0 (bb_budget_usdc b / 2))
         in if bb_budget_usdc b < child_budget then Inl (ValueError ''child_budget cannot exceed parent budget'')
            else
              (let child = mk_bob child_budget (bb_constitution_rules b @ extra_rules) (bb_embedding_model b)
                     (bb_embedding_dim b) (bb_seed b);
                   (child', r) = bootstrap be key now child;
                   cap = (case memory_working_cap of Some c \<Rightarrow> c | None \<Rightarrow> DEFAULT_CHILD_WORKING_CAP)
               in res_bind r (\<lambda>_.
                  res_bind (clone_memory_for_child (be_rotation be) (bb_memory b) cap) (\<lambda>m.
                    let (m', r') = pin_rules be (bb_embedding_dim b) (bb_seed b) extra_rules now' m
                    in res_bind r' (\<lambda>_. Inr (child'\<lparr>bb_memory := Some m'\<rparr>)))))))"

end
