(* ===== verification/Bob_Memory.thy ===== *)
theory Bob_Memory
  imports Bob_Agent Memory_Root
begin

text \<open>
  What the agent of \<open>agents/bob.py\<close> does to its memory: the constitution pinned by \<open>bootstrap\<close>, the
  lesson stored by a decision, and the slice a child inherits.
\<close>

subsection \<open>Pinned rules\<close>

definition pinned_prefix :: "memory \<Rightarrow> bool" where
  "pinned_prefix m \<longleftrightarrow> (\<forall>t. pinned_view m t \<noteq> None \<longrightarrow> startswith t ''pinned:'')"

lemma pin_rule_Inr:
  assumes "pin_rule be d seed m r now = Inr m'"
  shows "\<exists>tid. pinned_rule_id be r = Inr tid \<and> startswith tid ''pinned:'' \<and>
    add m tid (hash_vec be (rule_canonical_text be r) d seed) ''pinned'' True (Some (rule_payload be r)) now = Inr m'"
  using assms by (auto simp: pin_rule_def res_bind_eq_Inr pinned_rule_id_def startswith_def)

lemma pin_rules_Inr_Cons:
  "pin_rules be d seed (r # rs) now m = (m', Inr u) \<longleftrightarrow>
   (\<exists>m1. pin_rule be d seed m r (now 0) = Inr m1 \<and> pin_rules be d seed rs (\<lambda>i. now (Suc i)) m1 = (m', Inr u))"
  by (auto split: sum.splits)

lemma pin_rules_wf:
  "memory_wf m \<Longrightarrow> memory_wf (fst (pin_rules be d seed rs now m))"
proof (induction rs arbitrary: m now)
  case (Cons r rs)
  show ?case
  proof (cases "pin_rule be d seed m r (now 0)")
    case (Inr m1)
    then have "memory_wf m1" using Cons.prems pin_rule_Inr add_wf by blast
    then show ?thesis using Cons.IH Inr by simp
  qed (simp add: Cons.prems)
qed simp

lemma pin_rules_prefix:
  "pinned_prefix m \<Longrightarrow> pinned_prefix (fst (pin_rules be d seed rs now m))"
proof (induction rs arbitrary: m now)
  case (Cons r rs)
  show ?case
  proof (cases "pin_rule be d seed m r (now 0)")
    case (Inr m1)
    obtain tid where t: "startswith tid ''pinned:''"
      "add m tid (hash_vec be (rule_canonical_text be r) d seed) ''pinned'' True (Some (rule_payload be r)) (now 0) = Inr m1"
      using pin_rule_Inr [OF Inr] by blast
    have "pinned_prefix m1" using Cons.prems t by (auto simp: pinned_prefix_def add_view [OF t(2)])
    then show ?thesis using Cons.IH Inr by simp
  qed (simp add: Cons.prems)
qed simp

text \<open>The ids and payloads pinned, the last rule with an id winning.\<close>

definition rule_ids :: "bob_env \<Rightarrow> rule list \<Rightarrow> (string \<times> dict) list" where
  "rule_ids be rules = map (\<lambda>r. (the (of_res (pinned_rule_id be r)), rule_payload be r)) rules"

definition payload_view :: "memory \<Rightarrow> string \<Rightarrow> dict option" where
  "payload_view m t = map_option snd (pinned_view m t)"

lemma pin_rules_view:
  assumes "pin_rules be d seed rs now m = (m', Inr ())"
  shows "(\<forall>r \<in> set rs. \<exists>tid. pinned_rule_id be r = Inr tid) \<and>
    payload_view m' = payload_view m ++ map_of (rev (rule_ids be rs)) \<and>
    fst ` set (ms_entries m') = fst ` set (ms_entries m) \<union> fst ` set (rule_ids be rs)"
  using assms
proof (induction rs arbitrary: m now)
  case Nil
  then show ?case by (simp add: rule_ids_def)
next
  case (Cons r rs)
  then obtain m1 where m1: "pin_rule be d seed m r (now 0) = Inr m1"
    and rest: "pin_rules be d seed rs (\<lambda>i. now (Suc i)) m1 = (m', Inr ())"
    unfolding pin_rules_Inr_Cons by (elim exE conjE)
  obtain tid where t: "pinned_rule_id be r = Inr tid"
    and a: "add m tid (hash_vec be (rule_canonical_text be r) d seed) ''pinned'' True (Some (rule_payload be r)) (now 0) = Inr m1"
    using pin_rule_Inr [OF m1] by blast
  have v: "payload_view m1 = (payload_view m)(tid \<mapsto> rule_payload be r)"
    by (auto simp: payload_view_def add_view [OF a] fun_eq_iff)
  have e: "fst ` set (ms_entries m1) = insert tid (fst ` set (ms_entries m))"
    by (simp add: add_entries [OF a] dom_update)
  have r: "rule_ids be (r # rs) = (tid, rule_payload be r) # rule_ids be rs"
    by (simp add: rule_ids_def t)
  note ih = Cons.IH [OF rest]
  have "payload_view m' = payload_view m ++ map_of (rev (rule_ids be (r # rs)))"
    unfolding r using ih [THEN conjunct2, THEN conjunct1, unfolded v]
    by (simp add: map_add_def fun_eq_iff split: option.splits)
  moreover have "fst ` set (ms_entries m') = fst ` set (ms_entries m) \<union> fst ` set (rule_ids be (r # rs))"
    using ih [THEN conjunct2, THEN conjunct2] unfolding r e by simp
  moreover have "\<forall>r' \<in> set (r # rs). \<exists>tid. pinned_rule_id be r' = Inr tid"
    using ih [THEN conjunct1] t by simp
  ultimately show ?case by blast
qed

subsection \<open>Lessons\<close>

lemma learned_not_pinned: "\<not> startswith (''learned:'' @ t) ''pinned:''"
  by (simp add: startswith_def)

lemma remember_trace_Inr:
  assumes "remember_trace be b trace_id text parsed ts now = Inr b'"
  shows "b' = b \<or> (\<exists>m v m'. bb_memory b = Some m \<and> b' = b\<lparr>bb_memory := Some m'\<rparr> \<and>
    add m (''learned:'' @ py_str (be_float_repr be) trace_id) v ''working'' False
      (Some [(''text'', text), (''parsed'', JObj parsed), (''ts'', JInt ts)]) now = Inr m')"
  using assms by (auto simp: remember_trace_def res_bind_eq_Inr split: option.splits if_splits)

text \<open>What the agent keeps of its memory through a decision.\<close>

definition keeps_constitution :: "bob \<Rightarrow> bob \<Rightarrow> bool" where
  "keeps_constitution b b' \<longleftrightarrow>
     (\<exists>mem. b' = b\<lparr>bb_memory := mem\<rparr>) \<and>
     (\<forall>m. bb_memory b = Some m \<and> memory_wf m \<and> pinned_prefix m \<longrightarrow>
        (\<exists>m'. bb_memory b' = Some m' \<and> memory_wf m' \<and> pinned_prefix m' \<and> pinned_view m' = pinned_view m))"

lemma keeps_refl: "keeps_constitution b b"
  by (cases b) (auto simp: keeps_constitution_def)

lemma keeps_trans: "keeps_constitution a b \<Longrightarrow> keeps_constitution b c \<Longrightarrow> keeps_constitution a c"
  unfolding keeps_constitution_def by fastforce

lemma remember_keeps:
  assumes "remember_trace be b trace_id text parsed ts now = Inr b'"
  shows "keeps_constitution b b'"
  using remember_trace_Inr [OF assms]
proof (elim disjE exE conjE)
  fix m v m'
  assume m: "bb_memory b = Some m" and b': "b' = b\<lparr>bb_memory := Some m'\<rparr>"
    and a: "add m (''learned:'' @ py_str (be_float_repr be) trace_id) v ''working'' False
      (Some [(''text'', text), (''parsed'', JObj parsed), (''ts'', JInt ts)]) now = Inr m'"
  let ?t = "''learned:'' @ py_str (be_float_repr be) trace_id"
  have "pinned_view m' = pinned_view m \<and> pinned_prefix m'" if "pinned_prefix m"
  proof -
    have "pinned_view m ?t = None"
      using that learned_not_pinned unfolding pinned_prefix_def by blast
    then have "pinned_view m' = pinned_view m" by (auto simp: add_view [OF a])
    with that show ?thesis by (simp add: pinned_prefix_def)
  qed
  then show ?thesis using add_wf [OF _ a] m b' by (auto simp: keeps_constitution_def)
qed (simp add: keeps_refl)

lemma mimic_keeps: "keeps_constitution b (fst (mimic be b results tsize ts now))"
  by (auto simp: mimic_def keeps_refl Let_def remember_keeps split: sum.splits prod.splits)

lemma decide_keeps:
  "decide be post pl xnow token url market k tsize ts now b w = (w', b', r) \<Longrightarrow> keeps_constitution b b'"
  using mimic_keeps
  by (auto simp: decide_def keeps_refl split: if_splits prod.splits sum.splits) (metis fst_conv)

subsection \<open>The slice a child inherits\<close>

lemma inherited_id [simp]: "inherited e = (e :: entry)"
  by (cases e) (simp add: inherited_def)

definition clone_entries :: "memory \<Rightarrow> int \<Rightarrow> (string \<times> entry) list" where
  "clone_entries m cap =
     filter (\<lambda>(t, e). e_pinned e) (ms_entries m) @ map (\<lambda>e. (e_trace_id e, e)) (inherited_working m cap)"

lemma set_inherited_working: "set (inherited_working m cap) \<subseteq> {e. \<not> e_pinned e \<and> e \<in> snd ` set (ms_entries m)}"
  by (auto simp: inherited_working_def dest!: in_set_takeD)

lemma entry_key:
  assumes "memory_wf m" and "e \<in> snd ` set (ms_entries m)"
  shows "(e_trace_id e, e) \<in> set (ms_entries m)"
  using assms memory_wfD(2) [OF assms(1)] by (fastforce simp: entry_wf_def)

lemma distinct_entries: "memory_wf m \<Longrightarrow> distinct (map snd (ms_entries m))"
proof -
  assume wf: "memory_wf m"
  have "map fst (ms_entries m) = map e_trace_id (map snd (ms_entries m))"
    using memory_wfD(2) [OF wf] by (auto simp: entry_wf_def)
  then show ?thesis using memory_wfD(1) [OF wf] by (metis distinct_map)
qed

lemma clone_entries_facts:
  assumes "memory_wf m"
  shows "distinct (map fst (clone_entries m cap))" and "set (clone_entries m cap) \<subseteq> set (ms_entries m)"
proof -
  let ?w = "inherited_working m cap"
  have s: "set ?w \<subseteq> {e. \<not> e_pinned e \<and> e \<in> snd ` set (ms_entries m)}" by (rule set_inherited_working)
  have k: "(e_trace_id e, e) \<in> set (ms_entries m) \<and> \<not> e_pinned e" if "e \<in> set ?w" for e
    using s that entry_key [OF assms] by blast
  show "set (clone_entries m cap) \<subseteq> set (ms_entries m)"
    using k by (auto simp: clone_entries_def)
  have d: "distinct ?w"
    using distinct_entries [OF assms] by (simp add: inherited_working_def distinct_filter)
  have "inj_on e_trace_id (set ?w)"
  proof (rule inj_onI)
    fix e e' assume "e \<in> set ?w" "e' \<in> set ?w" "e_trace_id e = e_trace_id e'"
    then show "e = e'" using k memory_wfD(1) [OF assms] by (metis eq_key_imp_eq_value)
  qed
  then have "distinct (map e_trace_id ?w)" using d by (simp add: distinct_map)
  moreover have "distinct (map fst (filter (\<lambda>(t, e). e_pinned e) (ms_entries m)))"
    using memory_wfD(1) [OF assms] by (simp add: distinct_map_filter)
  moreover have "fst ` set (filter (\<lambda>(t, e). e_pinned e) (ms_entries m)) \<inter> e_trace_id ` set ?w = {}"
  proof -
    have False if "(t, e) \<in> set (ms_entries m)" "e_pinned e" "e' \<in> set ?w" "t = e_trace_id e'" for t e e'
      using that k [of e'] memory_wfD(1) [OF assms] by (metis eq_key_imp_eq_value)
    then show ?thesis by fastforce
  qed
  ultimately show "distinct (map fst (clone_entries m cap))"
    by (simp add: clone_entries_def o_def)
qed

lemma clone_eq:
  assumes "memory_wf m"
  shows "clone_memory_for_child build_rotation (Some m) cap =
    Inr ((mk_memory build_rotation (ms_dim m) (Some (ms_decay_lambdas m)) (ms_seed m))
           \<lparr>ms_centroid := ms_centroid m, ms_entries := clone_entries m cap\<rparr>)"
proof -
  have "map (\<lambda>(tid, e). (tid, inherited e)) xs = (xs :: (string \<times> entry) list)" for xs
    by (induction xs) auto
  then have "map (\<lambda>(tid, e). (tid, inherited e)) (filter (\<lambda>(tid, e). e_pinned e) (ms_entries m)) @
      map (\<lambda>e. (e_trace_id e, inherited e)) (inherited_working m cap) = clone_entries m cap"
    by (simp add: clone_entries_def)
  moreover have "foldl (\<lambda>d (t, e). AList.update t e d) [] (clone_entries m cap) = clone_entries m cap"
    using foldl_update_distinct [of "[]" "clone_entries m cap"] clone_entries_facts(1) [OF assms] by simp
  ultimately show ?thesis
    by (simp add: clone_memory_for_child_def Let_def del: foldl_append)
qed

definition clone_of :: "(nat \<Rightarrow> int \<Rightarrow> vec list) \<Rightarrow> memory \<Rightarrow> int \<Rightarrow> memory" where
  "clone_of build_rotation m cap =
     (mk_memory build_rotation (ms_dim m) (Some (ms_decay_lambdas m)) (ms_seed m))
       \<lparr>ms_centroid := ms_centroid m, ms_entries := clone_entries m cap\<rparr>"

lemma clone_of_simps [simp]:
  "ms_entries (clone_of rot m cap) = clone_entries m cap" "ms_centroid (clone_of rot m cap) = ms_centroid m"
  "ms_dim (clone_of rot m cap) = ms_dim m" "ms_P (clone_of rot m cap) = rot (ms_dim m) (ms_seed m)"
  "ms_seed (clone_of rot m cap) = ms_seed m"
  by (simp_all add: clone_of_def mk_memory_def)

lemma clone_wf:
  assumes "memory_wf m" and "length (rot (ms_dim m) (ms_seed m)) = ms_dim m"
  shows "memory_wf (clone_of rot m cap)"
proof -
  have "entry_wf (ms_dim m) t e" if "(t, e) \<in> set (clone_entries m cap)" for t e
    using that clone_entries_facts(2) [OF assms(1)] memory_wfD(2) [OF assms(1)] by blast
  moreover have "clone_entries m cap = []" if "ms_entries m = []"
    using that clone_entries_facts(2) [OF assms(1), of cap] by simp
  ultimately show ?thesis
    using assms clone_entries_facts(1) [OF assms(1)]
    by (auto simp: memory_wf_def split: option.splits)
qed

lemma pinned_view_Some:
  "pinned_view m t = Some p \<longleftrightarrow>
   (\<exists>e. (map_of (ms_entries m) t = Some e \<and> e_pinned e) \<and> p = (e_bits_packed e, e_payload e))"
  by (cases "map_of (ms_entries m) t") (auto simp: pinned_view_def)

lemma clone_view:
  assumes "memory_wf m"
  shows "pinned_view (clone_of rot m cap) = pinned_view m"
proof
  fix t
  have d: "distinct (map fst (ms_entries m))" by (rule memory_wfD(1) [OF assms])
  have d': "distinct (map fst (clone_entries m cap))" by (rule clone_entries_facts(1) [OF assms])
  have 1: "pinned_view m t = Some p \<longleftrightarrow> pinned_view (clone_of rot m cap) t = Some p" for p
  proof -
    have "(t, e) \<in> set (clone_entries m cap) \<and> e_pinned e \<longleftrightarrow> (t, e) \<in> set (ms_entries m) \<and> e_pinned e" for e
      using clone_entries_facts(2) [OF assms, of cap] by (auto simp: clone_entries_def)
    then have "map_of (clone_entries m cap) t = Some e \<and> e_pinned e \<longleftrightarrow> map_of (ms_entries m) t = Some e \<and> e_pinned e" for e
      using map_of_eq_Some_iff [OF d] map_of_eq_Some_iff [OF d'] by simp
    then show ?thesis by (simp add: pinned_view_Some)
  qed
  show "pinned_view (clone_of rot m cap) t = pinned_view m t"
  proof (cases "pinned_view m t")
    case None
    then show ?thesis using 1 [of "the (pinned_view (clone_of rot m cap) t)"] by (cases "pinned_view (clone_of rot m cap) t") simp_all
  next
    case (Some p)
    then show ?thesis using 1 [of p] by simp
  qed
qed

text \<open>The unpinned part of a clone: the most relevant entries, at most \<open>cap\<close> of them.\<close>

lemma inherited_working_top:
  assumes "e \<in> set (inherited_working m cap)" and "(t, e') \<in> set (ms_entries m)" and "\<not> e_pinned e'"
    and "e' \<notin> set (inherited_working m cap)"
  shows "relevance e \<le> relevance e'"
proof -
  let ?l = "sort_key relevance (filter (\<lambda>e. \<not> e_pinned e) (map snd (ms_entries m)))"
  have cap: "0 < cap" "inherited_working m cap = take (nat cap) ?l"
    using assms(1) by (auto simp: inherited_working_def split: if_splits)
  have "e' \<in> set ?l" using assms(2,3) by force
  then have "e' \<in> set (drop (nat cap) ?l)"
    using assms(4) cap(2) by (metis Un_iff append_take_drop_id set_append)
  moreover have "sorted (map relevance (take (nat cap) ?l @ drop (nat cap) ?l))"
    by (simp only: append_take_drop_id) simp
  ultimately show ?thesis using assms(1) cap(2) by (simp only: map_append sorted_append) simp
qed

lemma length_inherited_working:
  "length (inherited_working m cap) = min (nat cap) (length (filter (\<lambda>e. \<not> e_pinned e) (map snd (ms_entries m))))"
  by (auto simp: inherited_working_def)

text \<open>Pinning succeeds when every rule has a kind and the generator gives vectors of the right length.\<close>

lemma pin_rules_total:
  assumes "\<forall>r \<in> set rs. \<exists>tid. pinned_rule_id be r = Inr tid"
    and "\<forall>text. length (hash_vec be text d seed) = d" and "ms_dim m = d"
  shows "\<exists>m'. pin_rules be d seed rs now m = (m', Inr ())"
  using assms(1,3)
proof (induction rs arbitrary: m now)
  case (Cons r rs)
  obtain tid where t: "pinned_rule_id be r = Inr tid" using Cons.prems(1) by auto
  obtain m1 where "pin_rule be d seed m r (now 0) = Inr m1" "ms_dim m1 = d"
    using assms(2) Cons.prems(2) by (auto simp: pin_rule_def t add_eq VALID_KINDS_def)
  with Cons show ?case by simp
qed simp

subsection \<open>Decisions\<close>

lemma classify_intent_spec:
  "classify_intent be rules target value sel amount = Inr kind \<Longrightarrow>
   (kind = ''OK'' \<and> (\<forall>r \<in> set rules. trips be r target value sel amount = Inr None)) \<or>
   (\<exists>pre r post. rules = pre @ r # post \<and> (\<forall>q \<in> set pre. trips be q target value sel amount = Inr None) \<and>
      trips be r target value sel amount = Inr (Some kind) \<and> kind \<in> {''MAX_TRADE_SIZE'', ''VENUE_BLACKLIST'', ''NO_UNAUDITED_CONTRACTS''})"
proof (induction rules)
  case (Cons r rs)
  obtain t where t: "trips be r target value sel amount = Inr t" using Cons.prems by (auto simp: res_bind_eq_Inr)
  show ?case
  proof (cases t)
    case None
    then have "classify_intent be rs target value sel amount = Inr kind" using Cons.prems t by simp
    from Cons.IH [OF this] show ?thesis
    proof (elim disjE exE conjE)
      fix pre r' post
      assume "rs = pre @ r' # post" "\<forall>q \<in> set pre. trips be q target value sel amount = Inr None"
        "trips be r' target value sel amount = Inr (Some kind)" "kind \<in> {''MAX_TRADE_SIZE'', ''VENUE_BLACKLIST'', ''NO_UNAUDITED_CONTRACTS''}"
      then show ?thesis using t None by (intro disjI2 exI [of _ "r # pre"]) auto
    qed (use t None in auto)
  next
    case (Some k)
    then have "k = kind" using Cons.prems t by simp
    moreover have "k \<in> {''MAX_TRADE_SIZE'', ''VENUE_BLACKLIST'', ''NO_UNAUDITED_CONTRACTS''}"
      using t Some by (auto simp: trips_def res_bind_eq_Inr split: if_splits)
    ultimately show ?thesis using t Some by (intro disjI2 exI [of _ "[]"] exI [of _ r] exI [of _ rs]) auto
  qed
qed simp

lemma mimic_Inr:
  assumes "mimic be b results tsize ts now = (b', Inr ti)"
  shows "\<exists>hit payload text parsed.
    first_result results = Inr (JObj hit) \<and> py_or (dict_get hit ''payload'') (JObj []) = JObj payload \<and>
    text = dict_get_or payload ''text'' (JStr []) \<and> parse_trace_text text = Inr parsed \<and>
    remember_trace be b (dict_get hit ''trace_id'') text parsed ts now = Inr b' \<and>
    build_transfer_intent be b' (case tsize of Some s \<Rightarrow> s | None \<Rightarrow> dict_get_or parsed ''size_usdc'' (JFloat 1))
      (dict_get hit ''trace_id'') (dict_get hit ''score'') text = Inr ti"
proof -
  have d: "as_dict v = Inr d \<longleftrightarrow> v = JObj d" for v d by (cases v) auto
  show ?thesis using assms
    by (auto simp: mimic_def res_bind_eq_Inr Let_def d split: sum.splits prod.splits)
qed

end
