(* ===== verification/Bob_Properties.thy ===== *)
theory Bob_Properties
  imports Bob_Memory Client_Properties
begin

text \<open>
  The properties of the trading agent (\<open>agents/bob.py\<close>).
\<close>

subsection \<open>An agent to try them on\<close>

definition sample_be :: bob_env where
  "sample_be = \<lparr>be_abi = (\<lambda>_ _. Inr []), be_keccak = (\<lambda>_. [0xab]), be_sha256 = (\<lambda>_. replicate 32 0),
     be_normal = (\<lambda>_ d. replicate d 0), be_rotation = (\<lambda>_ _. [[1]]), be_encode = (\<lambda>_ _. Inr [0]),
     be_float_repr = ratio_repr, be_account = (\<lambda>_. sample_signer), be_vec_json = (\<lambda>_. [])\<rparr>"

definition sample_bob :: "rule list \<Rightarrow> bob" where
  "sample_bob rules = (mk_bob 10 rules None 1 7)"

subsection \<open>Bootstrap and spawn, step by step\<close>

lemma bootstrap_fields:
  "bootstrap be key now b = (b', r) \<Longrightarrow>
     bb_budget_usdc b' = bb_budget_usdc b \<and> bb_constitution_rules b' = bb_constitution_rules b \<and>
     bb_embedding_dim b' = bb_embedding_dim b \<and> bb_seed b' = bb_seed b \<and> bb_eoa b' \<noteq> None"
  by (auto simp: bootstrap_def Let_def split: option.splits sum.splits prod.splits)

lemma spawn_child_Inr:
  assumes "spawn_child be key now now' b budget extra cap = Inr child" and "bb_memory b = Some m" and "memory_wf m"
  shows "bb_budget_usdc child \<le> bb_budget_usdc b \<and>
    bb_budget_usdc child = (case budget of Some c \<Rightarrow> c | None \<Rightarrow> max 0 (bb_budget_usdc b / 2)) \<and>
    bb_constitution_rules child = bb_constitution_rules b @ extra \<and>
    (\<exists>m'. bb_memory child = Some m' \<and>
       pin_rules be (bb_embedding_dim b) (bb_seed b) extra now'
         (clone_of (be_rotation be) m (case cap of Some c \<Rightarrow> c | None \<Rightarrow> DEFAULT_CHILD_WORKING_CAP)) = (m', Inr ()))"
proof -
  let ?c = "case budget of Some c \<Rightarrow> c | None \<Rightarrow> max 0 (bb_budget_usdc b / 2)"
  let ?cap = "case cap of Some c \<Rightarrow> c | None \<Rightarrow> DEFAULT_CHILD_WORKING_CAP"
  let ?child = "mk_bob ?c (bb_constitution_rules b @ extra) (bb_embedding_model b) (bb_embedding_dim b) (bb_seed b)"
  obtain child' r where boot: "bootstrap be key now ?child = (child', r)" by fastforce
  obtain m' r' where pin: "pin_rules be (bb_embedding_dim b) (bb_seed b) extra now' (clone_of (be_rotation be) m ?cap) = (m', r')"
    by fastforce
  have g: "bb_eoa b \<noteq> None" "?c \<le> bb_budget_usdc b"
    using assms(1) by (auto simp: spawn_child_def Let_def split: if_splits)
  have "res_bind r (\<lambda>_. res_bind r' (\<lambda>_. Inr (child'\<lparr>bb_memory := Some m'\<rparr>))) = Inr child"
    using assms(1) g boot pin clone_eq [OF assms(3), of "be_rotation be" ?cap]
    by (simp add: spawn_child_def Let_def assms(2) clone_of_def not_less)
  then have "r' = Inr ()" "child = child'\<lparr>bb_memory := Some m'\<rparr>" by (auto simp: res_bind_eq_Inr)
  with bootstrap_fields [OF boot] g(2) pin show ?thesis by (auto simp: mk_bob_def)
qed

text \<open>C18: (refinement) A child starts from its parent's mind: its memory is well formed, holds every pinned entry
  of the parent whose id no extra rule takes, and, without extra rules, has the parent's pinned
  Merkle root and consists of entries of the parent, bit for bit, the unpinned ones being the \<open>cap\<close>
  most relevant (heaviest first, then most recent, then by id). Its budget is never above the
  parent's, half of it by default, and its constitution is the parent's followed by the extra rules.\<close>

theorem child_inherits_constitution:
  assumes "bb_memory b = Some m" and "memory_wf m"
    and "length (be_rotation be (ms_dim m) (ms_seed m)) = ms_dim m"
    and "spawn_child be key now now' b budget extra cap = Inr child"
    and "c = (case cap of Some n \<Rightarrow> n | None \<Rightarrow> DEFAULT_CHILD_WORKING_CAP)"
  shows "\<exists>m'. bb_memory child = Some m' \<and> memory_wf m' \<and>
    bb_budget_usdc child \<le> bb_budget_usdc b \<and> (budget = None \<longrightarrow> bb_budget_usdc child = max 0 (bb_budget_usdc b / 2)) \<and>
    bb_constitution_rules child = bb_constitution_rules b @ extra \<and>
    (\<forall>t d. payload_view m t = Some d \<and> t \<notin> fst ` set (rule_ids be extra) \<longrightarrow> payload_view m' t = Some d) \<and>
    (extra = [] \<longrightarrow>
       pinned_merkle_root H fr m' = pinned_merkle_root H fr m \<and>
       set (ms_entries m') \<subseteq> set (ms_entries m) \<and>
       length (filter (\<lambda>e. \<not> e_pinned e) (map snd (ms_entries m'))) =
         min (nat c) (length (filter (\<lambda>e. \<not> e_pinned e) (map snd (ms_entries m)))) \<and>
       (\<forall>(t, e) \<in> set (ms_entries m'). \<forall>(t', e') \<in> set (ms_entries m) - set (ms_entries m').
          \<not> e_pinned e \<longrightarrow> relevance e \<le> relevance e'))"
proof -
  let ?k = "clone_of (be_rotation be) m c"
  obtain m' where m': "bb_memory child = Some m'"
    "pin_rules be (bb_embedding_dim b) (bb_seed b) extra now' ?k = (m', Inr ())"
    and f: "bb_budget_usdc child \<le> bb_budget_usdc b"
    "bb_budget_usdc child = (case budget of Some c \<Rightarrow> c | None \<Rightarrow> max 0 (bb_budget_usdc b / 2))"
    "bb_constitution_rules child = bb_constitution_rules b @ extra"
    using spawn_child_Inr [OF assms(4,1,2)] assms(5) by blast
  have wk: "memory_wf ?k" by (rule clone_wf [where rot = "be_rotation be", OF assms(2,3)])
  have vk: "payload_view ?k = payload_view m" by (simp add: payload_view_def fun_eq_iff clone_view [OF assms(2)])
  have wf: "memory_wf m'" using pin_rules_wf [OF wk] m'(2) by (metis fst_conv)
  have "payload_view m' t = Some d" if "payload_view m t = Some d" "t \<notin> fst ` set (rule_ids be extra)" for t d
  proof -
    have "map_of (rev (rule_ids be extra)) t = None" using that(2) by (simp add: map_of_eq_None_iff)
    then show ?thesis using that(1) pin_rules_view [OF m'(2)] vk by (simp add: map_add_def)
  qed
  moreover have "pinned_merkle_root H fr m' = pinned_merkle_root H fr m \<and> set (ms_entries m') \<subseteq> set (ms_entries m) \<and>
       length (filter (\<lambda>e. \<not> e_pinned e) (map snd (ms_entries m'))) =
         min (nat c) (length (filter (\<lambda>e. \<not> e_pinned e) (map snd (ms_entries m)))) \<and>
       (\<forall>(t, e) \<in> set (ms_entries m'). \<forall>(t', e') \<in> set (ms_entries m) - set (ms_entries m').
          \<not> e_pinned e \<longrightarrow> relevance e \<le> relevance e')" if "extra = []"
  proof -
    have mk: "m' = ?k" using m'(2) that by simp
    have "filter (\<lambda>e. \<not> e_pinned e) (map snd (clone_entries m c)) = inherited_working m c"
      using set_inherited_working [of m c]
      by (auto simp: clone_entries_def o_def filter_empty_conv intro!: filter_True)
    then have "length (filter (\<lambda>e. \<not> e_pinned e) (map snd (ms_entries m'))) =
        min (nat c) (length (filter (\<lambda>e. \<not> e_pinned e) (map snd (ms_entries m))))"
      by (simp only: mk clone_of_simps length_inherited_working)
    moreover have "relevance e \<le> relevance e'"
      if "(t, e) \<in> set (clone_entries m c)" "\<not> e_pinned e" "(t', e') \<in> set (ms_entries m)" "(t', e') \<notin> set (clone_entries m c)"
      for t e t' e'
    proof (rule inherited_working_top [OF _ that(3)])
      show "e \<in> set (inherited_working m c)" "\<not> e_pinned e'" using that by (auto simp: clone_entries_def)
      have "t' = e_trace_id e'" using memory_wfD(2) [OF assms(2) that(3)] by (simp add: entry_wf_def)
      then show "e' \<notin> set (inherited_working m c)" using that(4) by (auto simp: clone_entries_def)
    qed
    ultimately show ?thesis
      using root_view [OF wk assms(2) clone_view [OF assms(2)]] clone_entries_facts(2) [OF assms(2)] mk by fastforce
  qed
  ultimately show ?thesis using m'(1) wf f by (intro exI [of _ m']) auto
qed

lemma child_inherits_constitution_witness:
  "\<exists>child m'. spawn_child sample_be [1] (\<lambda>_. 0) (\<lambda>_. 0)
      ((sample_bob [])\<lparr>bb_eoa := Some sample_signer, bb_memory := Some (rule_memory [(''n'', JInt 1)])\<rparr>) None [] None = Inr child \<and>
    bb_memory child = Some m' \<and> bb_budget_usdc child = 5 \<and>
    (\<forall>H fr. pinned_merkle_root H fr m' = pinned_merkle_root H fr (rule_memory [(''n'', JInt 1)]))"
proof -
  let ?b = "(sample_bob [])\<lparr>bb_eoa := Some sample_signer, bb_memory := Some (rule_memory [(''n'', JInt 1)])\<rparr>"
  obtain child where c: "spawn_child sample_be [1] (\<lambda>_. 0) (\<lambda>_. 0) ?b None [] None = Inr child"
    using clone_eq [OF rule_memory_facts(1) [of "[(''n'', JInt 1)]"], of "\<lambda>_ _. [[1]]"]
    by (auto simp: spawn_child_def sample_bob_def mk_bob_def sample_be_def bootstrap_def rules_to_solidity_def
        hash_of_rules_def Let_def)
  have "\<exists>m'. bb_memory child = Some m' \<and> bb_budget_usdc child = 5 \<and>
      pinned_merkle_root H fr m' = pinned_merkle_root H fr (rule_memory [(''n'', JInt 1)])" for H fr
    using child_inherits_constitution [OF _ rule_memory_facts(1) [of "[(''n'', JInt 1)]"] _ c refl, of H fr]
    by (auto simp: sample_bob_def mk_bob_def sample_be_def rule_memory_facts)
  then have "\<exists>m'. bb_memory child = Some m' \<and> bb_budget_usdc child = 5 \<and>
      (\<forall>H fr. pinned_merkle_root H fr m' = pinned_merkle_root H fr (rule_memory [(''n'', JInt 1)]))"
    by (metis option.sel)
  with c show ?thesis by blast
qed

fun decisions ::
  "bob_env \<Rightarrow> 'w transport \<Rightarrow> (policy \<times> int \<times> byte list \<times> string \<times> string \<times> int \<times> json option \<times> int \<times> real) list \<Rightarrow>
   bob \<Rightarrow> 'w \<Rightarrow> bob" where
  "decisions be post [] b w = b"
| "decisions be post ((pl, xnow, token, url, market, k, tsize, ts, now) # ds) b w =
     (let (w', b', r) = decide be post pl xnow token url market k tsize ts now b w
      in decisions be post ds b' w')"

lemma decisions_keep: "keeps_constitution b (decisions be post ds b w)"
proof (induction be post ds b w rule: decisions.induct)
  case (2 be post pl xnow token url market k tsize ts now ds b w)
  obtain w' b' r where d: "decide be post pl xnow token url market k tsize ts now b w = (w', b', r)"
    by (metis prod_cases3)
  from 2 [OF d [symmetric] refl refl] decide_keeps [OF d] show ?case by (auto simp: d intro: keeps_trans)
qed (simp add: keeps_refl)



text \<open>C20: (functional) Bootstrapping pins the constitution: on a fresh agent whose rules encode, the memory holds
  nothing but pinned entries, one per distinct rule id (the last rule with an id wins, so rules of
  one kind without a \<open>rule_id\<close> overwrite each other although the hash covers them all), with the
  rule's text and fields as payload; the stored hash is the keccak of the ABI encoding of all rules,
  in order. A second bootstrap changes nothing.\<close>

theorem constitution_is_pinned:
  assumes "bb_eoa b = None" and "bootstrap be key now b = (b', Inr ())"
    and "length (be_rotation be (bb_embedding_dim b) (bb_seed b)) = bb_embedding_dim b"
  shows "\<exists>m h. bb_memory b' = Some m \<and> memory_wf m \<and> pinned_prefix m \<and>
    fst ` set (ms_entries m) = fst ` set (rule_ids be (bb_constitution_rules b)) \<and>
    payload_view m = map_of (rev (rule_ids be (bb_constitution_rules b))) \<and>
    hash_of_rules be (bb_constitution_rules b) = Inr h \<and> bb_constitution_hash b' = Some h \<and>
    rules_to_solidity be (bb_constitution_rules b) = Inr (bb_solidity_rules b') \<and>
    bootstrap be key2 now2 b' = (b', Inr ())"
proof -
  let ?m0 = "mk_memory (be_rotation be) (bb_embedding_dim b) None (bb_seed b)"
  obtain sol h m r where s: "rules_to_solidity be (bb_constitution_rules b) = Inr sol"
    "hash_of_rules be (bb_constitution_rules b) = Inr h"
    "pin_rules be (bb_embedding_dim b) (bb_seed b) (bb_constitution_rules b) now ?m0 = (m, r)"
    using assms(1,2) by (auto simp: bootstrap_def Let_def split: sum.splits prod.splits)
  have b': "b' = b\<lparr>bb_eoa := Some (be_account be (''0x'' @ to_hex key)), bb_solidity_rules := sol,
      bb_constitution_hash := Some h, bb_memory := Some m\<rparr>" and r: "r = Inr ()"
    using assms(1,2) s by (auto simp: bootstrap_def Let_def)
  have wf0: "memory_wf ?m0" using assms(3) by (rule memory_wf_init)
  have v0: "pinned_view ?m0 t = None" for t by (simp add: pinned_view_def mk_memory_def)
  have e0: "ms_entries ?m0 = []" by (simp add: mk_memory_def)
  have "memory_wf m" using pin_rules_wf [OF wf0] s(3) by (metis fst_conv)
  moreover have "pinned_prefix m"
    using pin_rules_prefix [of ?m0] v0 s(3) by (metis fst_conv pinned_prefix_def)
  moreover have "payload_view ?m0 = Map.empty" by (simp add: payload_view_def v0 fun_eq_iff)
  ultimately show ?thesis
    using pin_rules_view [OF s(3) [unfolded r]] s b' e0 by (simp add: bootstrap_def)
qed

definition cap_rule :: "string \<Rightarrow> rule" where
  "cap_rule usdc = [(''kind'', JStr ''MAX_TRADE_SIZE''), (''max_usdc'', JStr usdc)]"

lemma cap_rule_facts:
  assumes "decimal_of usdc = Inr q"
  shows "rule_to_solidity sample_be (cap_rule usdc) = Inr (1, ABytes [], JStr ZERO_ADAPTER)"
    and "pinned_rule_id sample_be (cap_rule usdc) = Inr ''pinned:MAX_TRADE_SIZE''"
proof -
  have "usdc_to_units sample_be (JStr usdc) = Inr (round_half_even (q * 10 ^ BOB_USDC_DECIMALS))"
    using assms by (simp add: usdc_to_units_def decimal_units_def)
  then show "rule_to_solidity sample_be (cap_rule usdc) = Inr (1, ABytes [], JStr ZERO_ADAPTER)"
    by (simp add: rule_to_solidity_def cap_rule_def dict_item_def KIND_STR_TO_INT_def encode_rule_params_def
        dict_get_or_def abi_uint_def sample_be_def KIND_MAX_TRADE_SIZE_def)
  show "pinned_rule_id sample_be (cap_rule usdc) = Inr ''pinned:MAX_TRADE_SIZE''"
    by (simp add: pinned_rule_id_def cap_rule_def dict_item_def dict_get_or_def)
qed

lemma decimal_one_two: "decimal_of ''1'' = Inr 1" "decimal_of ''2'' = Inr 2"
  by (simp_all add: decimal_of_def finite_number_def decimal_digits_def strip_def str_space_def is_space_def
      startswith_def is_digit_def digits_val_def digit_val_def lower_eval pow10_def)

text \<open>Two caps without a \<open>rule_id\<close>: both are hashed, one is pinned.\<close>

lemma constitution_is_pinned_witness:
  "\<exists>b' m. bootstrap sample_be [1] (\<lambda>_. 0) (sample_bob [cap_rule ''1'', cap_rule ''2'']) = (b', Inr ()) \<and>
     bb_memory b' = Some m \<and> length (bb_solidity_rules b') = 2 \<and>
     fst ` set (ms_entries m) = {''pinned:MAX_TRADE_SIZE''}"
proof -
  let ?rs = "[cap_rule ''1'', cap_rule ''2'']"
  note f = cap_rule_facts [OF decimal_one_two(1)] cap_rule_facts [OF decimal_one_two(2)]
  have len: "\<forall>t. length (hash_vec sample_be t 1 7) = 1"
    by (simp add: hash_vec_def hash_to_vec_def sample_be_def Let_def)
  have sol: "rules_to_solidity sample_be ?rs = Inr [(1, ABytes [], JStr ZERO_ADAPTER), (1, ABytes [], JStr ZERO_ADAPTER)]"
    by (simp add: rules_to_solidity_def f)
  then obtain h where h: "hash_of_rules sample_be ?rs = Inr h" by (simp add: hash_of_rules_def sample_be_def)
  obtain m where m: "pin_rules sample_be 1 7 ?rs (\<lambda>_. 0) (mk_memory (be_rotation sample_be) 1 None 7) = (m, Inr ())"
    using pin_rules_total [OF _ len, of ?rs "mk_memory (be_rotation sample_be) 1 None 7" "\<lambda>_. 0"] f
    by (auto simp: mk_memory_def simp del: pin_rules.simps)
  obtain b' where b': "bootstrap sample_be [1] (\<lambda>_. 0) (sample_bob ?rs) = (b', Inr ())"
    using sol h m by (simp add: bootstrap_def sample_bob_def mk_bob_def del: pin_rules.simps)
  have ids: "fst ` set (rule_ids sample_be ?rs) = {''pinned:MAX_TRADE_SIZE''}" by (simp add: rule_ids_def f)
  have e: "bb_eoa (sample_bob ?rs) = None"
    "length (be_rotation sample_be (bb_embedding_dim (sample_bob ?rs)) (bb_seed (sample_bob ?rs))) = bb_embedding_dim (sample_bob ?rs)"
    and rs: "bb_constitution_rules (sample_bob ?rs) = ?rs"
    by (simp_all add: sample_bob_def mk_bob_def sample_be_def)
  obtain m' where m': "bb_memory b' = Some m'" "fst ` set (ms_entries m') = fst ` set (rule_ids sample_be ?rs)"
    "rules_to_solidity sample_be ?rs = Inr (bb_solidity_rules b')"
    using constitution_is_pinned [OF e(1) b' e(2), unfolded rs, of "[]" "\<lambda>_. 0"] by blast
  then have "length (bb_solidity_rules b') = 2" using sol by (auto dest: sym)
  with b' m' ids show ?thesis by metis
qed

text \<open>A decision mimics the best trace and hides nothing. When \<open>decide\<close> returns an intent, the
  server's first result was its source: the intent transfers exactly the size read from that trace's
  text (or the size forced by the caller), never clamped to the constitution, as a USDC transfer
  wrapped in \<open>execute\<close>; its kind is the first rule the transfer trips, \<open>OK\<close> only when it trips none;
  and the trace, when it has an id, is stored unpinned with its text.\<close>

theorem decision_mimics_first_trace:
  assumes "decide be post pl xnow token url market k tsize ts now b w = (w', b', Inr ti)"
  shows "\<exists>results hit text parsed amount_units inner rules.
    query_alice be post pl xnow token url market k b w = (w', Inr results) \<and>
    first_result results = Inr (JObj hit) \<and> parse_trace_text text = Inr parsed \<and>
    usdc_to_units be (case tsize of Some s \<Rightarrow> s | None \<Rightarrow> dict_get_or parsed ''size_usdc'' (JFloat 1)) = Inr amount_units \<and>
    build_erc20_transfer_calldata be COUNTERPARTY amount_units = Inr inner \<and>
    ti_target ti = USDC_ON_ARC \<and> ti_value ti = 0 \<and> ti_calldata ti = inner \<and>
    build_execute_calldata be USDC_ON_ARC 0 inner = Inr (ti_execute_calldata ti) \<and>
    ti_source_trace_id ti = dict_get hit ''trace_id'' \<and>
    rules = bb_constitution_rules b \<and>
    ((ti_kind ti = ''OK'' \<and> (\<forall>r \<in> set rules. trips be r USDC_ON_ARC 0 ERC20_TRANSFER_SELECTOR amount_units = Inr None)) \<or>
     (\<exists>pre r post. rules = pre @ r # post \<and>
        (\<forall>q \<in> set pre. trips be q USDC_ON_ARC 0 ERC20_TRANSFER_SELECTOR amount_units = Inr None) \<and>
        trips be r USDC_ON_ARC 0 ERC20_TRANSFER_SELECTOR amount_units = Inr (Some (ti_kind ti)))) \<and>
    (dict_get hit ''trace_id'' \<noteq> JNull \<and> bb_memory b \<noteq> None \<longrightarrow>
       (\<exists>m e. bb_memory b' = Some m \<and> map_of (ms_entries m) (''learned:'' @ py_str (be_float_repr be) (dict_get hit ''trace_id'')) = Some e \<and>
          \<not> e_pinned e \<and> e_payload e = [(''text'', text), (''parsed'', JObj parsed), (''ts'', JInt ts)]))"
proof -
  obtain results where q: "query_alice be post pl xnow token url market k b w = (w', Inr results)"
    and m: "mimic be b results tsize ts now = (b', Inr ti)"
    using assms by (auto simp: decide_def split: if_splits prod.splits sum.splits)
  obtain hit payload body parsed where h: "first_result results = Inr (JObj hit)" "parse_trace_text body = Inr parsed"
    "remember_trace be b (dict_get hit ''trace_id'') body parsed ts now = Inr b'"
    "build_transfer_intent be b' (case tsize of Some s \<Rightarrow> s | None \<Rightarrow> dict_get_or parsed ''size_usdc'' (JFloat 1))
      (dict_get hit ''trace_id'') (dict_get hit ''score'') body = Inr ti"
    using mimic_Inr [OF m] by blast
  obtain amount_units inner where t: "usdc_to_units be (case tsize of Some s \<Rightarrow> s | None \<Rightarrow> dict_get_or parsed ''size_usdc'' (JFloat 1)) = Inr amount_units"
    "build_erc20_transfer_calldata be COUNTERPARTY amount_units = Inr inner"
    "build_execute_calldata be USDC_ON_ARC 0 inner = Inr (ti_execute_calldata ti)"
    "classify_intent be (bb_constitution_rules b') USDC_ON_ARC 0 ERC20_TRANSFER_SELECTOR amount_units = Inr (ti_kind ti)"
    "ti_target ti = USDC_ON_ARC" "ti_value ti = 0" "ti_calldata ti = inner" "ti_source_trace_id ti = dict_get hit ''trace_id''"
    using h(4) by (auto simp: build_transfer_intent_def res_bind_eq_Inr Let_def)
  have rules: "bb_constitution_rules b' = bb_constitution_rules b"
    using remember_keeps [OF h(3)] by (auto simp: keeps_constitution_def)
  have learned: "\<exists>m e. bb_memory b' = Some m \<and> map_of (ms_entries m) (''learned:'' @ py_str (be_float_repr be) (dict_get hit ''trace_id'')) = Some e \<and>
          \<not> e_pinned e \<and> e_payload e = [(''text'', body), (''parsed'', JObj parsed), (''ts'', JInt ts)]"
    if l: "dict_get hit ''trace_id'' \<noteq> JNull" "bb_memory b \<noteq> None"
  proof -
    obtain m where m: "bb_memory b = Some m" using l(2) by blast
    obtain v m' where a: "add m (''learned:'' @ py_str (be_float_repr be) (dict_get hit ''trace_id'')) v ''working'' False
        (Some [(''text'', body), (''parsed'', JObj parsed), (''ts'', JInt ts)]) now = Inr m'" "b' = b\<lparr>bb_memory := Some m'\<rparr>"
      using h(3) l(1) m by (auto simp: remember_trace_def res_bind_eq_Inr)
    show ?thesis
      by (simp add: a(2) add_entries [OF a(1)] update_conv' new_entry_def Let_def)
  qed
  show ?thesis
    using q h(1,2) t classify_intent_spec [OF t(4)] learned unfolding rules
    by (intro exI conjI) (assumption | rule refl | blast)+
qed

definition one_result :: "unit transport" where
  "one_result w url body hs = (w, Inr \<lparr>rp_status = 200, rp_json = Some (JObj [(''results'',
     JList [JObj [(''trace_id'', JStr ''t1''), (''payload'', JObj [(''text'', JStr ''long ETH'')])]])])\<rparr>)"

definition trading_bob :: bob where
  "trading_bob = (sample_bob [cap_rule ''1''])
     \<lparr>bb_eoa := Some sample_signer, bb_memory := Some (mk_memory (\<lambda>_ _. [[1]]) 1 None 7)\<rparr>"

lemma cap_units: "usdc_to_units sample_be (JStr ''1'') = Inr 1000000" "usdc_to_units sample_be (JStr ''2'') = Inr 2000000"
proof -
  have "round_half_even (1 * 10 ^ 6) = 1000000" "round_half_even (2 * 10 ^ 6) = 2000000"
    using round_half_even_int [of 1000000] round_half_even_int [of 2000000] by simp_all
  then show "usdc_to_units sample_be (JStr ''1'') = Inr 1000000" "usdc_to_units sample_be (JStr ''2'') = Inr 2000000"
    by (simp_all add: usdc_to_units_def decimal_units_def decimal_one_two BOB_USDC_DECIMALS_def)
qed

lemma sample_parse: "parse_trace_text (JStr ''long ETH'') = Inr [(''side'', JStr ''long''), (''token'', JStr ''ETH'')]"
proof -
  have "split_ws (join '' '' [''long'', ''ETH'']) = [''long'', ''ETH'']"
    by (rule split_join) (simp add: str_space_def is_space_def)
  then show ?thesis by (simp add: parse_trace_text_def parse_words_def)
qed

lemma decision_mimics_first_trace_witness:
  "\<exists>b' ti. decide sample_be one_result sample_policy 10 [1] [] ''dip'' 3 (Some (JStr ''2'')) 7 0 trading_bob () = ((), b', Inr ti) \<and>
     ti_kind ti = ''MAX_TRADE_SIZE'' \<and> ti_target ti = USDC_ON_ARC"
proof -
  have len: "length (hash_vec sample_be t 1 7) = 1" for t
    by (simp add: hash_vec_def hash_to_vec_def sample_be_def Let_def)
  have eoa: "bb_eoa trading_bob \<noteq> None" by (simp add: trading_bob_def)
  have q: "query_alice sample_be one_result sample_policy 10 [1] [] ''dip'' 3 trading_bob () =
      ((), Inr (JList [JObj [(''trace_id'', JStr ''t1''), (''payload'', JObj [(''text'', JStr ''long ETH'')])]]))"
    by (simp add: query_alice_def trading_bob_def sample_bob_def mk_bob_def bob_embed_def x402_query_def
        x402_pay_and_post_def one_result_def reply_json_def dict_get_or_def)
  have tr: "trips sample_be (cap_rule ''1'') USDC_ON_ARC 0 ERC20_TRANSFER_SELECTOR 2000000 = Inr (Some ''MAX_TRADE_SIZE'')"
    by (simp add: trips_def cap_rule_def dict_get_def dict_get_or_def cap_units)
  obtain b1 where r: "remember_trace sample_be trading_bob (JStr ''t1'') (JStr ''long ETH'')
      [(''side'', JStr ''long''), (''token'', JStr ''ETH'')] 7 0 = Inr b1" "bb_constitution_rules b1 = [cap_rule ''1'']"
    using len by (simp add: remember_trace_def trading_bob_def sample_bob_def mk_bob_def py_or_def bob_embed_def add_eq
        VALID_KINDS_def mk_memory_def)
  obtain ti where ti: "build_transfer_intent sample_be b1 (JStr ''2'') (JStr ''t1'') JNull (JStr ''long ETH'') = Inr ti"
    "ti_kind ti = ''MAX_TRADE_SIZE''"
    using tr by (simp add: build_transfer_intent_def cap_units build_erc20_transfer_calldata_def
        build_execute_calldata_def r(2) Let_def) (simp add: sample_be_def)
  have d: "decide sample_be one_result sample_policy 10 [1] [] ''dip'' 3 (Some (JStr ''2'')) 7 0 trading_bob () = ((), b1, Inr ti)"
    using q r(1) ti(1) eoa
    by (simp add: decide_def mimic_def first_result_def py_or_def dict_get_def dict_get_or_def sample_parse Let_def)
  have "ti_target ti = USDC_ON_ARC" using decision_mimics_first_trace [OF d] by blast
  with d ti(2) show ?thesis by blast
qed

lemma decimal_point: "decimal_of ''1.0'' = Inr 1" "decimal_of ''0.0'' = Inr 0"
  by (simp_all add: decimal_of_def finite_number_def decimal_digits_def strip_def str_space_def is_space_def
      startswith_def is_digit_def digits_val_def digit_val_def lower_eval pow10_def)



text \<open>A bootstrap that fails leaves the agent half made, and hides it: when a rule does not encode, the
  exception reaches the caller after the account was created, so calling \<open>bootstrap\<close> again returns
  normally without hash and without memory, although the agent now has an address.\<close>

theorem failed_bootstrap_is_silent_on_retry:
  assumes "bb_eoa b = None" and "bb_memory b = None" and "bb_constitution_hash b = None"
    and "rules_to_solidity be (bb_constitution_rules b) = Inl e"
  shows "\<exists>b'. bootstrap be key now b = (b', Inl e) \<and> bootstrap be key2 now2 b' = (b', Inr ()) \<and>
    bb_memory b' = None \<and> bb_constitution_hash b' = None \<and> bob_address b' = Inr (sg_address (be_account be (''0x'' @ to_hex key)))"
  using assms by (simp add: bootstrap_def bob_address_def Let_def)

lemma failed_bootstrap_is_silent_on_retry_witness:
  "\<exists>b'. bootstrap sample_be [1] (\<lambda>_. 0) (sample_bob [[(''kind'', JStr ''MAX_SIZE'')]]) = (b', Inl (ValueError ''unknown rule kind'')) \<and>
     bootstrap sample_be [2] (\<lambda>_. 0) b' = (b', Inr ()) \<and> bb_memory b' = None"
proof -
  have "rules_to_solidity sample_be (bb_constitution_rules (sample_bob [[(''kind'', JStr ''MAX_SIZE'')]])) = Inl (ValueError ''unknown rule kind'')"
    by (simp add: sample_bob_def mk_bob_def rules_to_solidity_def rule_to_solidity_def dict_item_def KIND_STR_TO_INT_def)
  from failed_bootstrap_is_silent_on_retry [OF _ _ _ this, of "[1]" "\<lambda>_. 0" "[2]" "\<lambda>_. 0"] show ?thesis
    by (auto simp: sample_bob_def mk_bob_def)
qed

end
