(* ===== verification/Alice_Agent.thy ===== *)
theory Alice_Agent
  imports Dark_Pool Memory_Persist Py_Text
begin

text \<open>
  The seasoned agent of \<open>agents/alice.py\<close>: the corpus of templated trade reasoning, the memory built
  from it and from the pinned rules, \<open>bootstrap\<close> with its cache, and the app built from a
  configuration.

  \<open>random.Random\<close> is the parameter \<open>below\<close>, which draws a number below a bound; the sentence
  encoder, SHA-256, numpy's generators and \<open>Account.create\<close> are fields of \<open>alice_env\<close>. The file
  system is a map from paths to files. Starting uvicorn in a subprocess is not modelled.
\<close>

subsection \<open>Constants\<close>

definition ALICE_MEM_PATH :: string where "ALICE_MEM_PATH = ''/tmp/alice.mem''"
definition ALICE_PRICE_USDC :: rat where "ALICE_PRICE_USDC = 1 / 1000"
definition ALICE_USDC_ADDRESS :: string where "ALICE_USDC_ADDRESS = ''0x3600000000000000000000000000000000000000''"
definition ALICE_CHAIN_ID :: int where "ALICE_CHAIN_ID = 5042002"

definition TOKENS :: "string list" where
  "TOKENS = [''SOL'', ''BONK'', ''WIF'', ''JTO'', ''JUP'', ''PYTH'', ''MOG'', ''FARTCOIN'', ''PUMP'', ''RAY'']"

definition SIDES :: "string list" where
  "SIDES = [''buy'', ''sell'', ''short'', ''long'']"

definition SIGNALS :: "string list" where
  "SIGNALS =
     [''funding rate flipped negative'',
      ''social sentiment spike on twitter'',
      ''whale wallet accumulated 5M tokens'',
      ''perp open interest jumped 40%'',
      ''moving average golden cross'',
      ''RSI dropped below 30'',
      ''liquidity imbalance on Jupiter'',
      ''exchange inflow spiked'',
      ''stablecoin dominance dropped'',
      ''BTC dominance broke 50'',
      ''AI sector outperformed by 8%'',
      ''memecoin index up 12% in 24h'']"

definition VENUES :: "string list" where
  "VENUES = [''Jupiter'', ''Drift'', ''Phoenix'', ''Raydium'', ''Hyperliquid'', ''DriftV2'', ''Zeta'', ''Mango'']"

definition RISK_LEVELS :: "string list" where
  "RISK_LEVELS = [''low'', ''medium'', ''high'']"

definition SIZES_USDC :: "int list" where
  "SIZES_USDC = [10, 25, 50, 100, 250, 500, 1000]"

subsection \<open>The corpus\<close>

text \<open>\<open>rng.choice(xs)\<close> and \<open>rng.randint(a, b)\<close>.\<close>

definition choice :: "('g \<Rightarrow> nat \<Rightarrow> nat \<times> 'g) \<Rightarrow> 'g \<Rightarrow> 'a list \<Rightarrow> 'a \<times> 'g" where
  "choice below g xs = (let (i, g') = below g (length xs) in (xs ! i, g'))"

definition randint :: "('g \<Rightarrow> nat \<Rightarrow> nat \<times> 'g) \<Rightarrow> 'g \<Rightarrow> int \<Rightarrow> int \<Rightarrow> int \<times> 'g" where
  "randint below g a b = (let (i, g') = below g (nat (b - a + 1)) in (a + int i, g'))"

definition trade_text :: "string \<Rightarrow> string \<Rightarrow> string \<Rightarrow> int \<Rightarrow> string \<Rightarrow> string \<Rightarrow> int \<Rightarrow> string" where
  "trade_text side token venue amount signal risk conviction =
     side @ '' '' @ token @ '' on '' @ venue @ '' size '' @ int_str amount @ '' USDC because '' @ signal @
     '' risk '' @ risk @ '' conviction 0.'' @ int_str conviction"

text \<open>\<open>f"t{i:05d}"\<close>.\<close>

definition trace_name :: "nat \<Rightarrow> string" where
  "trace_name i = ''t'' @ replicate (5 - length (nat_str i)) CHR ''0'' @ nat_str i"

definition corpus_entry :: "('g \<Rightarrow> nat \<Rightarrow> nat \<times> 'g) \<Rightarrow> 'g \<Rightarrow> nat \<Rightarrow> (string \<times> string) \<times> 'g" where
  "corpus_entry below g i =
     (let (token, g1) = choice below g TOKENS;
          (side, g2) = choice below g1 SIDES;
          (signal, g3) = choice below g2 SIGNALS;
          (venue, g4) = choice below g3 VENUES;
          (risk, g5) = choice below g4 RISK_LEVELS;
          (amount, g6) = choice below g5 SIZES_USDC;
          (conviction, g7) = randint below g6 50 95
      in ((trace_name i, trade_text side token venue amount signal risk conviction), g7))"

fun corpus_from :: "('g \<Rightarrow> nat \<Rightarrow> nat \<times> 'g) \<Rightarrow> 'g \<Rightarrow> nat list \<Rightarrow> (string \<times> string) list" where
  "corpus_from below g [] = []"
| "corpus_from below g (i # is) =
     (let (entry, g') = corpus_entry below g i in entry # corpus_from below g' is)"

definition make_corpus :: "('g \<Rightarrow> nat \<Rightarrow> nat \<times> 'g) \<Rightarrow> (int \<Rightarrow> 'g) \<Rightarrow> nat \<Rightarrow> int \<Rightarrow> (string \<times> string) list" where
  "make_corpus below rng_of_seed n seed = corpus_from below (rng_of_seed seed) [0..<n]"

subsection \<open>Pinned rules\<close>

record constitution_rule =
  cr_rule_id :: string
  cr_kind :: string
  cr_params :: dict

definition canonical_text :: "(rat \<Rightarrow> string) \<Rightarrow> constitution_rule \<Rightarrow> string" where
  "canonical_text fr r =
     ''constitution rule '' @ cr_kind r @ '' ('' @
     join '','' (map (\<lambda>k. k @ ''='' @ py_str fr (dict_get (cr_params r) k)) (sort (map fst (cr_params r)))) @ '')''"

definition DEFAULT_PINNED_RULES :: "constitution_rule list" where
  "DEFAULT_PINNED_RULES =
     [\<lparr>cr_rule_id = ''MAX_TRADE_SIZE_1USDC'', cr_kind = ''MAX_TRADE_SIZE'', cr_params = [(''max_usdc'', JFloat 1)]\<rparr>,
      \<lparr>cr_rule_id = ''VENUE_BLACKLIST_DEFAULT'', cr_kind = ''VENUE_BLACKLIST'',
       cr_params = [(''venues'', JList [JStr ''0x000000000000000000000000000000000000dEaD''])]\<rparr>,
      \<lparr>cr_rule_id = ''NO_UNAUDITED_CONTRACTS_DEFAULT'', cr_kind = ''NO_UNAUDITED_CONTRACTS'',
       cr_params = [(''whitelist'', JList [])]\<rparr>]"

subsection \<open>The agent\<close>

record alice_env =
  ae_sha256 :: "byte list \<Rightarrow> byte list"
  ae_normal :: "int \<Rightarrow> nat \<Rightarrow> vec"
  ae_rotation :: "nat \<Rightarrow> int \<Rightarrow> vec list"
  ae_encode_all :: "string \<Rightarrow> string list \<Rightarrow> vec list res"
  ae_float_repr :: "rat \<Rightarrow> string"
  ae_corpus :: "nat \<Rightarrow> int \<Rightarrow> (string \<times> string) list"  \<comment> \<open>\<open>make_corpus\<close> on the interpreter's generator\<close>

record alice =
  al_corpus_size :: nat
  al_embedding_model :: string
  al_embedding_dim :: nat
  al_mem_path :: string
  al_seed :: int
  al_pinned_rules :: "constitution_rule list"
  al_payment_recipient :: "string option"
  al_price_usdc :: rat
  al_usdc_address :: string
  al_chain_id :: int
  al_memory :: "memory option"
  al_server :: "dark_pool option"
  al_account :: "string option"
  al_corpus :: "(string \<times> string) list"
  al_bootstrapped :: bool

type_synonym files = "string \<Rightarrow> mem_file"

text \<open>The two insertion loops; \<open>now i\<close> is the clock of the \<open>i\<close>-th insertion.\<close>

fun add_corpus :: "(string \<times> string) list \<Rightarrow> vec list \<Rightarrow> (nat \<Rightarrow> real) \<Rightarrow> memory \<Rightarrow> memory res" where
  "add_corpus ((tid, content) # corpus) (emb # embs) now m =
     res_bind (add m tid emb ''working'' False (Some [(''text'', JStr content)]) (now 0)) (\<lambda>m'.
       add_corpus corpus embs (\<lambda>i. now (Suc i)) m')"
| "add_corpus _ _ now m = Inr m"

definition rule_entry_payload :: "(rat \<Rightarrow> string) \<Rightarrow> constitution_rule \<Rightarrow> dict" where
  "rule_entry_payload fr r =
     [(''rule_id'', JStr (cr_rule_id r)), (''kind'', JStr (cr_kind r)), (''params'', JObj (cr_params r)),
      (''text'', JStr (canonical_text fr r))]"

fun add_rules :: "alice_env \<Rightarrow> nat \<Rightarrow> int \<Rightarrow> constitution_rule list \<Rightarrow> (nat \<Rightarrow> real) \<Rightarrow> memory \<Rightarrow> memory res" where
  "add_rules ae d seed [] now m = Inr m"
| "add_rules ae d seed (r # rs) now m =
     res_bind (add m (''pinned:'' @ cr_rule_id r)
                 (hash_to_vec (ae_sha256 ae) (ae_normal ae) (canonical_text (ae_float_repr ae) r) d seed)
                 ''pinned'' True (Some (rule_entry_payload (ae_float_repr ae) r)) (now 0)) (\<lambda>m'.
       add_rules ae d seed rs (\<lambda>i. now (Suc i)) m')"

text \<open>\<open>_build_memory\<close>: the agent with its corpus, and the memory with the file it was saved to.\<close>

definition build_memory ::
  "alice_env \<Rightarrow> (nat \<Rightarrow> real) \<Rightarrow> (nat \<Rightarrow> real) \<Rightarrow> alice \<Rightarrow> files \<Rightarrow> files \<times> alice \<times> unit res" where
  "build_memory ae now now' a fs =
     (let corpus = ae_corpus ae (al_corpus_size a) (al_seed a);
          a1 = a\<lparr>al_corpus := corpus\<rparr>
      in case res_bind (ae_encode_all ae (al_embedding_model a) (map snd corpus)) (\<lambda>embs.
              if embs = [] then Inl (IndexError ''tuple index out of range'')
              else if length (hd embs) \<noteq> al_embedding_dim a then Inl (RuntimeError ''embedding dim mismatch'')
              else res_bind (add_corpus corpus embs now
                               (mk_memory (ae_rotation ae) (al_embedding_dim a) None (al_seed a))) (\<lambda>m.
                   add_rules ae (al_embedding_dim a) (al_seed a) (al_pinned_rules a) now' m)) of
           Inl e \<Rightarrow> (fs, a1, Inl e)
         | Inr m \<Rightarrow>
             (let a2 = a1\<lparr>al_memory := Some m\<rparr>
              in case save m of
                   Inl e \<Rightarrow> (fs, a2, Inl e)
                 | Inr f \<Rightarrow> (fs(al_mem_path a := f), a2, Inr ())))"

text \<open>The cache: \<open>Inr (Some m)\<close> when it can be used, \<open>Inr None\<close> when the memory is to be rebuilt.\<close>

definition load_cache :: "alice_env \<Rightarrow> alice \<Rightarrow> bool \<Rightarrow> files \<Rightarrow> memory option res" where
  "load_cache ae a force_rebuild fs =
     (if force_rebuild \<or> fs (al_mem_path a) = NoFile then Inr None
      else (case load (ae_rotation ae) (fs (al_mem_path a)) of
          Inl (ValueError msg) \<Rightarrow> Inr None
        | Inl e \<Rightarrow> Inl e
        | Inr cached \<Rightarrow>
            Inr (if int (al_corpus_size a) + int (length (al_pinned_rules a)) \<le> memory_len cached
                 then Some cached else None)))"

definition alice_options :: "alice \<Rightarrow> string \<Rightarrow> pool_options" where
  "alice_options a recipient =
     (default_options recipient)\<lparr>po_price_per_query_usdc := al_price_usdc a, po_arc_chain_id := al_chain_id a,
        po_usdc_address := al_usdc_address a, po_nonce_store := Some (InMemoryNonceStore [])\<rparr>"

definition alice_bootstrap ::
  "alice_env \<Rightarrow> string \<Rightarrow> (nat \<Rightarrow> real) \<Rightarrow> (nat \<Rightarrow> real) \<Rightarrow> disk \<Rightarrow> bool \<Rightarrow> alice \<Rightarrow> files \<Rightarrow> files \<times> alice \<times> unit res" where
  "alice_bootstrap ae fresh_address now now' nonce_db force_rebuild a fs =
     (if al_bootstrapped a \<and> \<not> force_rebuild then (fs, a, Inr ())
      else
        (let account = (case al_account a of None \<Rightarrow> fresh_address | Some x \<Rightarrow> x);
             recipient = (case al_payment_recipient a of None \<Rightarrow> account | Some r \<Rightarrow> r);
             a1 = a\<lparr>al_account := Some account, al_payment_recipient := Some recipient\<rparr>;
             (fs2, a2, r) = (case load_cache ae a1 force_rebuild fs of
                 Inl e \<Rightarrow> (fs, a1, Inl e)
               | Inr (Some cached) \<Rightarrow> (fs, a1\<lparr>al_memory := Some cached\<rparr>, Inr ())
               | Inr None \<Rightarrow> build_memory ae now now' a1 fs)
         in case r of
              Inl e \<Rightarrow> (fs2, a2, Inl e)
            | Inr _ \<Rightarrow>
                (case mk_dark_pool (the (al_memory a2)) (alice_options a2 recipient) nonce_db of
                   Inl e \<Rightarrow> (fs2, a2, Inl e)
                 | Inr server \<Rightarrow> (fs2, a2\<lparr>al_server := Some server, al_bootstrapped := True\<rparr>, Inr ()))))"

definition pinned_root :: "(byte list \<Rightarrow> byte list) \<Rightarrow> (rat \<Rightarrow> string) \<Rightarrow> alice \<Rightarrow> byte list res" where
  "pinned_root H fr a =
     map_sum id (pinned_merkle_root H fr) (of_opt (RuntimeError ''Alice not bootstrapped'') (al_memory a))"

definition alice_address :: "alice \<Rightarrow> string res" where
  "alice_address a = of_opt (RuntimeError ''Alice not bootstrapped'') (al_account a)"

subsection \<open>An app from a configuration\<close>

record alice_config =
  ac_memory_path :: string
  ac_payment_recipient :: string
  ac_price_per_query_usdc :: rat
  ac_arc_chain_id :: int
  ac_usdc_address :: string
  ac_use_in_memory_nonces :: bool

definition build_app :: "(nat \<Rightarrow> int \<Rightarrow> vec list) \<Rightarrow> disk \<Rightarrow> files \<Rightarrow> alice_config \<Rightarrow> dark_pool res" where
  "build_app build_rotation nonce_db fs cfg =
     (if fs (ac_memory_path cfg) = NoFile then Inl (FileNotFoundError ''alice memory not found'')
      else res_bind (load build_rotation (fs (ac_memory_path cfg))) (\<lambda>m.
        mk_dark_pool m
          ((default_options (ac_payment_recipient cfg))
             \<lparr>po_price_per_query_usdc := ac_price_per_query_usdc cfg, po_arc_chain_id := ac_arc_chain_id cfg,
              po_usdc_address := ac_usdc_address cfg,
              po_nonce_store := (if ac_use_in_memory_nonces cfg then Some (InMemoryNonceStore []) else None)\<rparr>)
          nonce_db))"

text \<open>The first port of \<open>[start, end)\<close> that can be bound.\<close>

fun pick_free_port :: "(int \<Rightarrow> bool) \<Rightarrow> int list \<Rightarrow> int res" where
  "pick_free_port bindable [] = Inl (RuntimeError ''no free port'')"
| "pick_free_port bindable (p # ps) = (if bindable p then Inr p else pick_free_port bindable ps)"

end
