(* ===== verification/Alice_Properties.thy ===== *)
theory Alice_Properties
  imports Alice_Agent Bob_Properties
begin

text \<open>
  The properties of the seasoned agent (\<open>agents/alice.py\<close>): its corpus is what the trading agent
  can read, and its cache gives back the anchored root.
\<close>

subsection \<open>The corpus\<close>

lemma choice_in: "\<forall>g n. 0 < n \<longrightarrow> fst (below g n) < n \<Longrightarrow> xs \<noteq> [] \<Longrightarrow> fst (choice below g xs) \<in> set xs"
  by (auto simp: choice_def split: prod.splits) (metis fst_conv length_greater_0_conv nth_mem)

lemma SIGNALS_words:
  "signal \<in> set SIGNALS \<Longrightarrow> signal = join '' '' (split_ws signal) \<and> list_all word (split_ws signal) \<and>
     split_ws signal \<noteq> [] \<and> ''risk'' \<notin> set (split_ws signal)"
  unfolding SIGNALS_def list.set
  by (elim insertE emptyE; hypsubst) (simp_all add: split_ws.simps word_def str_space_def is_space_def)

lemma corpus_words:
  "side \<in> set SIDES \<Longrightarrow> word side" "token \<in> set TOKENS \<Longrightarrow> word token" "venue \<in> set VENUES \<Longrightarrow> word venue"
  "risk \<in> set RISK_LEVELS \<Longrightarrow> word risk"
  by (auto simp: SIDES_def TOKENS_def VENUES_def RISK_LEVELS_def word_def str_space_def is_space_def)

lemma SIZES_texts:
  "amount \<in> set SIZES_USDC \<Longrightarrow> float_of (int_str amount) = Inr (JFloat (of_int amount)) \<and> word (int_str amount) \<and>
     int_str amount \<notin> {''on'', ''size'', ''risk''}"
  unfolding SIZES_USDC_def list.set
  by (elim insertE emptyE; hypsubst)
    (simp_all add: int_str_def int_text_eval number_eval double_eval char_of_def bit_0 word_def)

definition draws_below :: "('g \<Rightarrow> nat \<Rightarrow> nat \<times> 'g) \<Rightarrow> bool" where
  "draws_below below \<longleftrightarrow> (\<forall>g n. 0 < n \<longrightarrow> fst (below g n) < n)"

definition template :: "string \<Rightarrow> string \<Rightarrow> string \<Rightarrow> int \<Rightarrow> string \<Rightarrow> string \<Rightarrow> int \<Rightarrow> bool" where
  "template side token venue amount signal risk conviction \<longleftrightarrow>
     side \<in> set SIDES \<and> token \<in> set TOKENS \<and> venue \<in> set VENUES \<and> amount \<in> set SIZES_USDC \<and>
     signal \<in> set SIGNALS \<and> risk \<in> set RISK_LEVELS \<and> 50 \<le> conviction \<and> conviction \<le> 95"

definition templated :: "string \<Rightarrow> bool" where
  "templated content \<longleftrightarrow> (\<exists>side token venue amount signal risk conviction.
     template side token venue amount signal risk conviction \<and>
     content = trade_text side token venue amount signal risk conviction)"

lemma corpus_entry_template:
  assumes "draws_below below"
  shows "fst (fst (corpus_entry below g i)) = trace_name i \<and> templated (snd (fst (corpus_entry below g i)))"
proof -
  have b: "\<forall>g n. 0 < n \<longrightarrow> fst (below g n) < n" using assms by (simp add: draws_below_def)
  have c: "fst (choice below h TOKENS) \<in> set TOKENS" "fst (choice below h SIDES) \<in> set SIDES"
    "fst (choice below h SIGNALS) \<in> set SIGNALS" "fst (choice below h VENUES) \<in> set VENUES"
    "fst (choice below h RISK_LEVELS) \<in> set RISK_LEVELS" "fst (choice below h SIZES_USDC) \<in> set SIZES_USDC" for h
    by (rule choice_in [OF b], simp add: TOKENS_def SIDES_def SIGNALS_def VENUES_def RISK_LEVELS_def SIZES_USDC_def)+
  have r: "50 \<le> fst (randint below h 50 95) \<and> fst (randint below h 50 95) \<le> 95" for h
    using b [rule_format, of 46 h] by (auto simp: randint_def split: prod.splits)
  obtain token g1 where 1: "choice below g TOKENS = (token, g1)" by fastforce
  obtain side g2 where 2: "choice below g1 SIDES = (side, g2)" by fastforce
  obtain signal g3 where 3: "choice below g2 SIGNALS = (signal, g3)" by fastforce
  obtain venue g4 where 4: "choice below g3 VENUES = (venue, g4)" by fastforce
  obtain risk g5 where 5: "choice below g4 RISK_LEVELS = (risk, g5)" by fastforce
  obtain amount g6 where 6: "choice below g5 SIZES_USDC = (amount, g6)" by fastforce
  obtain conviction g7 where 7: "randint below g6 50 95 = (conviction, g7)" by fastforce
  have "template side token venue amount signal risk conviction"
    using c(1) [of g] c(2) [of g1] c(3) [of g2] c(4) [of g3] c(5) [of g4] c(6) [of g5] r [of g6]
    unfolding template_def 1 2 3 4 5 6 7 fst_conv by blast
  moreover have "fst (corpus_entry below g i) = (trace_name i, trade_text side token venue amount signal risk conviction)"
    by (simp only: corpus_entry_def 1 2 3 4 5 6 7 Let_def prod.case fst_conv)
  ultimately show ?thesis unfolding templated_def by (metis fst_conv snd_conv)
qed

lemma corpus_from_template:
  assumes "draws_below below"
  shows "map fst (corpus_from below g is) = map trace_name is \<and>
    (\<forall>(tid, content) \<in> set (corpus_from below g is). templated content)"
proof (induction "is" arbitrary: g)
  case (Cons i is')
  obtain entry g' where e: "corpus_entry below g i = (entry, g')" by fastforce
  show ?case using corpus_entry_template [OF assms, of g i] Cons [of g'] by (auto simp: e)
qed simp

lemma word_after_skip:
  "w \<notin> set pre \<Longrightarrow> word_after w (pre @ w # x # r) = Some (Some x)"
  by (induction pre) auto

lemma parse_trade_text:
  assumes "template side token venue amount signal risk conviction"
  shows "parse_trace_text (JStr (trade_text side token venue amount signal risk conviction)) =
    Inr [(''side'', JStr side), (''token'', JStr token), (''venue'', JStr venue),
         (''size_usdc'', JFloat (of_int amount)), (''risk'', JStr risk)]"
proof -
  define sw where "sw = split_ws signal"
  define pre where "pre = [side, token, ''on'', venue, ''size'', int_str amount, ''USDC'', ''because''] @ sw"
  define ws where "ws = pre @ [''risk'', risk, ''conviction'', ''0.'' @ int_str conviction]"
  have sw: "signal = join '' '' sw" "list_all word sw" "sw \<noteq> []" "''risk'' \<notin> set sw"
    using SIGNALS_words [of signal] assms by (auto simp: sw_def template_def)
  have am: "float_of (int_str amount) = Inr (JFloat (of_int amount))" "word (int_str amount)"
    "int_str amount \<notin> {''on'', ''size'', ''risk''}"
    using SIZES_texts assms unfolding template_def by blast+
  have w: "word side" "word token" "word venue" "word risk"
    using corpus_words assms unfolding template_def by blast+
  have n: "side \<notin> {''on'', ''size'', ''risk''}" "token \<notin> {''on'', ''size'', ''risk''}" "venue \<notin> {''on'', ''size'', ''risk''}"
    using assms by (auto simp: template_def SIDES_def TOKENS_def VENUES_def)
  have "word (''0.'' @ int_str conviction)"
    using assms word_nat_str [of "nat conviction"]
    by (simp add: template_def int_str_def word_def str_space_def is_space_def)
  then have words: "list_all word ws"
    using sw(2) am(2) w by (simp add: ws_def pre_def) (simp add: word_def str_space_def is_space_def)
  have "join '' '' ws = join '' '' [side, token, ''on'', venue, ''size'', int_str amount, ''USDC'', ''because''] @ '' '' @
      join '' '' sw @ '' '' @ join '' '' [''risk'', risk, ''conviction'', ''0.'' @ int_str conviction]"
    unfolding ws_def pre_def append_assoc using sw(3) join_append [OF sw(3)]
    by (subst join_append) auto
  then have "join '' '' ws = trade_text side token venue amount signal risk conviction"
    by (simp add: trade_text_def sw(1) [symmetric])
  then have sp: "split_ws (trade_text side token venue amount signal risk conviction) = ws"
    using split_join_words [OF words] by simp
  have wa: "word_after ''on'' ws = Some (Some venue)" "word_after ''size'' ws = Some (Some (int_str amount))"
    using n am(3) by (simp_all add: ws_def pre_def)
  have "word_after ''risk'' ws = Some (Some risk)"
    unfolding ws_def using n am(3) sw(4) by (simp add: pre_def word_after_skip)
  with wa am(1) have "parse_words ws = [(''side'', JStr side), (''token'', JStr token), (''venue'', JStr venue),
         (''size_usdc'', JFloat (of_int amount)), (''risk'', JStr risk)]"
    by (simp add: parse_words_def Let_def) (simp add: ws_def pre_def)
  moreover have "trade_text side token venue amount signal risk conviction \<noteq> []" by (simp add: trade_text_def)
  ultimately show ?thesis by (simp add: parse_trace_text_def sp)
qed

lemma digits_val_zeros: "digits_val (replicate k CHR ''0'' @ ds) = digits_val ds"
  by (induction k) (simp_all add: digits_val_def digit_val_def)

lemma trace_name_inj: "trace_name i = trace_name j \<Longrightarrow> i = j"
  unfolding trace_name_def same_append_eq by (metis digits_val_zeros digits_val_nat_str)

lemma corpus_from_ids: "map fst (corpus_from below g is) = map trace_name is"
  by (induction "is" arbitrary: g) (simp_all add: corpus_entry_def Let_def split: prod.splits)

lemma corpus_ids:
  "map fst (make_corpus below rng n seed) = map trace_name [0..<n]"
  "distinct (map fst (make_corpus below rng n seed))"
  unfolding make_corpus_def corpus_from_ids
  by (simp_all add: distinct_map inj_on_def trace_name_inj)

text \<open>C22: (roundtrip) Whatever the generator draws, the corpus has one text per id \<open>t00000\<close>, \<open>t00001\<close>, \<dots>, the ids
  are all different (beyond 100000 entries too, where the names grow longer), and each text is one the
  trading agent reads back in full: \<open>Bob._parse_trace_text\<close> returns the side, token, venue, size and risk that
  \<open>make_corpus\<close> put into it, the multi-word signal in between notwithstanding.\<close>

theorem corpus_is_readable:
  assumes "draws_below below"
  shows "map fst (make_corpus below rng n seed) = map trace_name [0..<n] \<and>
    distinct (map fst (make_corpus below rng n seed)) \<and>
    (\<forall>(tid, content) \<in> set (make_corpus below rng n seed).
       \<exists>side token venue amount signal risk conviction.
         content = trade_text side token venue amount signal risk conviction \<and>
         side \<in> set SIDES \<and> token \<in> set TOKENS \<and> venue \<in> set VENUES \<and> risk \<in> set RISK_LEVELS \<and>
         amount \<in> set SIZES_USDC \<and>
         parse_trace_text (JStr content) =
           Inr [(''side'', JStr side), (''token'', JStr token), (''venue'', JStr venue),
                (''size_usdc'', JFloat (of_int amount)), (''risk'', JStr risk)])"
proof (intro conjI corpus_ids ballI, clarify)
  fix tid content assume "(tid, content) \<in> set (make_corpus below rng n seed)"
  then have "templated content"
    using corpus_from_template [OF assms, of "rng seed" "[0..<n]"] unfolding make_corpus_def by blast
  then obtain side token venue amount signal risk conviction where
    t: "template side token venue amount signal risk conviction"
    and c: "content = trade_text side token venue amount signal risk conviction"
    unfolding templated_def by blast
  show "\<exists>side token venue amount signal risk conviction.
         content = trade_text side token venue amount signal risk conviction \<and>
         side \<in> set SIDES \<and> token \<in> set TOKENS \<and> venue \<in> set VENUES \<and> risk \<in> set RISK_LEVELS \<and>
         amount \<in> set SIZES_USDC \<and>
         parse_trace_text (JStr content) =
           Inr [(''side'', JStr side), (''token'', JStr token), (''venue'', JStr venue),
                (''size_usdc'', JFloat (of_int amount)), (''risk'', JStr risk)]"
    using parse_trade_text [OF t] t c unfolding template_def by blast
qed

definition counter_draws :: "nat \<Rightarrow> nat \<Rightarrow> nat \<times> nat" where
  "counter_draws g n = (g mod n, Suc g)"

lemma corpus_is_readable_witness:
  "draws_below counter_draws \<and>
   make_corpus counter_draws nat 1 3 =
     [(''t00000'', ''buy JTO on Zeta size 25 USDC because RSI dropped below 30 risk medium conviction 0.59'')] \<and>
   distinct (map fst (make_corpus counter_draws nat 1 3))"
proof -
  have d: "draws_below counter_draws" by (simp add: draws_below_def counter_draws_def)
  have c: "make_corpus counter_draws nat 1 3 =
     [(''t00000'', ''buy JTO on Zeta size 25 USDC because RSI dropped below 30 risk medium conviction 0.59'')]"
    by code_simp
  show ?thesis using d c corpus_is_readable [OF d, of nat 1 3, THEN conjunct2, THEN conjunct1] by simp
qed

subsection \<open>The cache\<close>

text \<open>What an insertion leaves alone, and what it adds under a new id.\<close>

definition same_frame :: "memory \<Rightarrow> memory \<Rightarrow> bool" where
  "same_frame m m' \<longleftrightarrow> ms_dim m' = ms_dim m \<and> ms_P m' = ms_P m \<and> ms_seed m' = ms_seed m \<and>
     ms_decay_lambdas m' = ms_decay_lambdas m"

lemma same_frame_trans: "same_frame a b \<Longrightarrow> same_frame b c \<Longrightarrow> same_frame a c"
  by (simp add: same_frame_def)

lemma add_frame: "add m t v kind pinned payload now = Inr m' \<Longrightarrow> same_frame m m'"
  by (auto simp: add_eq same_frame_def split: if_splits)

lemma update_new_id: "t \<notin> set (map fst es) \<Longrightarrow> map fst (AList.update t e es) = map fst es @ [t]"
  by (induction es) auto

lemma add_new_id:
  "add m t v kind pinned payload now = Inr m' \<Longrightarrow> t \<notin> set (map fst (ms_entries m)) \<Longrightarrow>
   map fst (ms_entries m') = map fst (ms_entries m) @ [t]"
  by (simp add: add_entries update_new_id)

lemma add_corpus_keeps:
  "add_corpus corpus embs now m = Inr m' \<Longrightarrow> memory_wf m \<Longrightarrow> length embs = length corpus \<Longrightarrow>
   distinct (map fst (ms_entries m) @ map fst corpus) \<Longrightarrow>
   memory_wf m' \<and> same_frame m m' \<and> map fst (ms_entries m') = map fst (ms_entries m) @ map fst corpus"
proof (induction corpus embs now m rule: add_corpus.induct)
  case (1 tid content corpus emb embs now m)
  obtain m1 where a: "add m tid emb ''working'' False (Some [(''text'', JStr content)]) (now 0) = Inr m1"
    and r: "add_corpus corpus embs (\<lambda>i. now (Suc i)) m1 = Inr m'"
    using 1(2) by (auto simp: res_bind_eq_Inr)
  have ids: "map fst (ms_entries m1) = map fst (ms_entries m) @ [tid]"
    using add_new_id [OF a] 1(5) by simp
  have "memory_wf m' \<and> same_frame m1 m' \<and> map fst (ms_entries m') = map fst (ms_entries m1) @ map fst corpus"
    using 1(1) [OF r add_wf [OF 1(3) a]] 1(4,5) by (simp add: ids)
  then show ?case using add_frame [OF a] same_frame_trans by (auto simp: ids)
qed (auto simp: same_frame_def)

abbreviation rule_id_of :: "constitution_rule \<Rightarrow> string" where
  "rule_id_of r \<equiv> ''pinned:'' @ cr_rule_id r"

lemma add_rules_keeps:
  "add_rules ae d seed rules now m = Inr m' \<Longrightarrow> memory_wf m \<Longrightarrow>
   distinct (map fst (ms_entries m) @ map rule_id_of rules) \<Longrightarrow>
   memory_wf m' \<and> same_frame m m' \<and> map fst (ms_entries m') = map fst (ms_entries m) @ map rule_id_of rules"
proof (induction rules arbitrary: now m)
  case (Cons r rs)
  obtain m1 where a: "add m (rule_id_of r)
      (hash_to_vec (ae_sha256 ae) (ae_normal ae) (canonical_text (ae_float_repr ae) r) d seed)
      ''pinned'' True (Some (rule_entry_payload (ae_float_repr ae) r)) (now 0) = Inr m1"
    and r: "add_rules ae d seed rs (\<lambda>i. now (Suc i)) m1 = Inr m'"
    using Cons.prems(1) by (auto simp: res_bind_eq_Inr)
  have ids: "map fst (ms_entries m1) = map fst (ms_entries m) @ [rule_id_of r]"
    using add_new_id [OF a] Cons.prems(3) by simp
  have "memory_wf m' \<and> same_frame m1 m' \<and> map fst (ms_entries m') = map fst (ms_entries m1) @ map rule_id_of rs"
    using Cons.IH [OF r add_wf [OF Cons.prems(2) a]] Cons.prems(3) by (simp add: ids)
  then show ?case using add_frame [OF a] same_frame_trans by (auto simp: ids)
qed (auto simp: same_frame_def)

text \<open>The payloads pinned are those of the rules.\<close>

lemma add_rules_view:
  "add_rules ae d seed rules now m = Inr m' \<Longrightarrow> distinct (map cr_rule_id rules) \<Longrightarrow>
   payload_view m' t =
     (case map_of (map (\<lambda>r. (rule_id_of r, rule_entry_payload (ae_float_repr ae) r)) rules) t of
        Some p \<Rightarrow> Some p | None \<Rightarrow> payload_view m t)"
proof (induction rules arbitrary: now m)
  case (Cons r rs)
  obtain m1 where a: "add m (rule_id_of r)
      (hash_to_vec (ae_sha256 ae) (ae_normal ae) (canonical_text (ae_float_repr ae) r) d seed)
      ''pinned'' True (Some (rule_entry_payload (ae_float_repr ae) r)) (now 0) = Inr m1"
    and r: "add_rules ae d seed rs (\<lambda>i. now (Suc i)) m1 = Inr m'"
    using Cons.prems(1) by (auto simp: res_bind_eq_Inr)
  have "map_of (map (\<lambda>r. (rule_id_of r, rule_entry_payload (ae_float_repr ae) r)) rs) (rule_id_of r) = None"
    using Cons.prems(2) by (auto simp: map_of_eq_None_iff)
  then show ?case
    using Cons.IH [OF r] Cons.prems(2) add_view [OF a]
    by (auto simp: payload_view_def split: option.splits)
qed simp

definition encodes_each :: "alice_env \<Rightarrow> bool" where
  "encodes_each ae \<longleftrightarrow> (\<forall>model texts embs. ae_encode_all ae model texts = Inr embs \<longrightarrow> length embs = length texts)"

lemma build_memory_Inr:
  assumes "build_memory ae now now' a fs = (fs1, a1, Inr ())"
    and corpus: "ae_corpus ae = make_corpus below rng" and each: "encodes_each ae"
    and rot: "length (ae_rotation ae (al_embedding_dim a) (al_seed a)) = al_embedding_dim a"
    and rules: "distinct (map cr_rule_id (al_pinned_rules a))"
  shows "\<exists>m. al_memory a1 = Some m \<and> memory_wf m \<and> length (ms_entries m) = al_corpus_size a + length (al_pinned_rules a) \<and>
    load (ae_rotation ae) (fs1 (al_mem_path a)) = Inr m \<and> fs1 (al_mem_path a) \<noteq> NoFile \<and>
    (\<forall>r \<in> set (al_pinned_rules a). payload_view m (rule_id_of r) = Some (rule_entry_payload (ae_float_repr ae) r))"
proof -
  let ?corpus = "make_corpus below rng (al_corpus_size a) (al_seed a)"
  let ?m0 = "mk_memory (ae_rotation ae) (al_embedding_dim a) None (al_seed a)"
  obtain embs m1 m f where enc: "ae_encode_all ae (al_embedding_model a) (map snd ?corpus) = Inr embs"
    and c: "add_corpus ?corpus embs now ?m0 = Inr m1"
    and r: "add_rules ae (al_embedding_dim a) (al_seed a) (al_pinned_rules a) now' m1 = Inr m"
    and s: "save m = Inr f" and out: "fs1 = fs(al_mem_path a := f)" "al_memory a1 = Some m"
    using assms(1) unfolding build_memory_def corpus Let_def
    by (auto simp: res_bind_eq_Inr split: sum.splits if_splits)
  have names: "distinct (map fst ?corpus)" "map fst ?corpus = map trace_name [0..<al_corpus_size a]"
    by (rule corpus_ids)+
  have m1: "memory_wf m1" "same_frame ?m0 m1" "map fst (ms_entries m1) = map fst ?corpus"
    using add_corpus_keeps [OF c memory_wf_init [of "ae_rotation ae" "al_embedding_dim a" "al_seed a" None, OF rot]] each enc names(1)
    by (auto simp: encodes_each_def mk_memory_def)
  have "distinct (map fst (ms_entries m1) @ map rule_id_of (al_pinned_rules a))"
    using rules names by (auto simp: m1(3) distinct_map inj_on_def trace_name_def)
  from add_rules_keeps [OF r m1(1) this] m1 names(2)
  have m: "memory_wf m" "same_frame ?m0 m"
    "map fst (ms_entries m) = map trace_name [0..<al_corpus_size a] @ map rule_id_of (al_pinned_rules a)"
    using same_frame_trans by auto
  have "length (ms_entries m) = al_corpus_size a + length (al_pinned_rules a)"
    using arg_cong [OF m(3), of length] by simp
  moreover have "load (ae_rotation ae) f = Inr m"
    using load_save [of m "ae_rotation ae"] m(1,2) s by (simp add: same_frame_def mk_memory_def default_lambdas_def)
  moreover have "f \<noteq> NoFile" using s by (auto simp: save_def Let_def split: if_splits)
  moreover have "payload_view m (rule_id_of r') = Some (rule_entry_payload (ae_float_repr ae) r')"
    if r': "r' \<in> set (al_pinned_rules a)" for r'
  proof -
    have "map_of (map (\<lambda>r. (rule_id_of r, rule_entry_payload (ae_float_repr ae) r)) (al_pinned_rules a)) (rule_id_of r') =
        Some (rule_entry_payload (ae_float_repr ae) r')"
      using rules r' by (intro map_of_is_SomeI) (auto simp: distinct_map inj_on_def comp_def)
    then show ?thesis using add_rules_view [OF r rules] by simp
  qed
  ultimately show ?thesis using m(1) out by auto
qed

lemma alice_pool: "\<exists>dp. mk_dark_pool m (alice_options a recipient) nonce_db = Inr dp"
  by (simp add: mk_dark_pool_def alice_options_def default_options_def mk_limiter_def Let_def
      DEFAULT_RATE_CAPACITY_def DEFAULT_RATE_REFILL_PER_SECOND_def)

lemma forced_bootstrap:
  assumes "alice_bootstrap ae addr now now' nd True a fs = (fs1, a1, Inr ())"
  shows "\<exists>a0 a2. build_memory ae now now' a0 fs = (fs1, a2, Inr ()) \<and> al_memory a1 = al_memory a2 \<and>
    al_corpus_size a0 = al_corpus_size a \<and> al_pinned_rules a0 = al_pinned_rules a \<and> al_mem_path a0 = al_mem_path a \<and>
    al_embedding_dim a0 = al_embedding_dim a \<and> al_seed a0 = al_seed a"
  using assms
  by (simp add: alice_bootstrap_def load_cache_def Let_def split: prod.splits sum.splits)
    (fastforce)

text \<open>C23: (refinement) The cache stands for the mind it was saved from. Once a cold start has built the memory,
  any later process with the same cache path and no larger corpus and rule count starts from it
  without touching the files: it holds the very memory of the cold start, serves it, and announces
  the same pinned root - which commits to the rules of the agent that built the cache, each under its
  id, whatever \<open>pinned_rules\<close> the later process was configured with. A second \<open>bootstrap\<close> changes nothing.\<close>

theorem warm_start_serves_the_cached_mind:
  assumes cold: "alice_bootstrap ae addr now now' nd True a fs = (fs1, a1, Inr ())"
    and corpus: "ae_corpus ae = make_corpus below rng" and each: "encodes_each ae"
    and rot: "length (ae_rotation ae (al_embedding_dim a) (al_seed a)) = al_embedding_dim a"
    and rules: "distinct (map cr_rule_id (al_pinned_rules a))"
    and later: "\<not> al_bootstrapped b" "al_mem_path b = al_mem_path a"
      "al_corpus_size b + length (al_pinned_rules b) \<le> al_corpus_size a + length (al_pinned_rules a)"
  shows "\<exists>b1 m server. alice_bootstrap ae addr' t t' nd' False b fs1 = (fs1, b1, Inr ()) \<and>
    al_memory b1 = Some m \<and> al_memory a1 = Some m \<and> al_server b1 = Some server \<and> dp_memory server = m \<and>
    pinned_root H fr b1 = pinned_root H fr a1 \<and> pinned_root H fr b1 = Inr (pinned_merkle_root H fr m) \<and>
    (\<forall>r \<in> set (al_pinned_rules a). payload_view m (''pinned:'' @ cr_rule_id r) = Some (rule_entry_payload (ae_float_repr ae) r)) \<and>
    alice_bootstrap ae addr'' t t' nd' False b1 fs1 = (fs1, b1, Inr ())"
proof -
  obtain m where m: "al_memory a1 = Some m" "length (ms_entries m) = al_corpus_size a + length (al_pinned_rules a)"
    "load (ae_rotation ae) (fs1 (al_mem_path a)) = Inr m" "fs1 (al_mem_path a) \<noteq> NoFile"
    "\<forall>r \<in> set (al_pinned_rules a). payload_view m (rule_id_of r) = Some (rule_entry_payload (ae_float_repr ae) r)"
    using forced_bootstrap [OF cold] build_memory_Inr [OF _ corpus each] rot rules by metis
  define acc where "acc = (case al_account b of None \<Rightarrow> addr' | Some x \<Rightarrow> x)"
  define rec where "rec = (case al_payment_recipient b of None \<Rightarrow> acc | Some r \<Rightarrow> r)"
  define b0 where "b0 = b\<lparr>al_account := Some acc, al_payment_recipient := Some rec\<rparr>"
  define b2 where "b2 = b0\<lparr>al_memory := Some m\<rparr>"
  obtain server where srv: "mk_dark_pool m (alice_options b2 rec) nd' = Inr server" using alice_pool by blast
  have served: "dp_memory server = m"
    using srv by (auto simp: mk_dark_pool_def Let_def res_bind_eq_Inr split: if_splits)
  have "load_cache ae b0 False fs1 = Inr (Some m)"
    using m(2-4) later(2,3) by (auto simp: load_cache_def b0_def memory_len_def)
  then have "alice_bootstrap ae addr' t t' nd' False b fs1 =
      (fs1, b2\<lparr>al_server := Some server, al_bootstrapped := True\<rparr>, Inr ())"
    using later(1) srv
    unfolding alice_bootstrap_def Let_def acc_def [symmetric] rec_def [symmetric] b0_def [symmetric] b2_def
    by simp
  then show ?thesis using m(1,5) served
    by (auto simp: b2_def pinned_root_def alice_bootstrap_def Let_def)
qed

subsection \<open>A cold start that succeeds\<close>

lemma add_total: "kind \<in> set VALID_KINDS \<Longrightarrow> length v = ms_dim m \<Longrightarrow> \<exists>m'. add m t v kind pinned payload now = Inr m'"
  by (simp add: add_eq)

lemma valid_kinds: "''working'' \<in> set VALID_KINDS" "''pinned'' \<in> set VALID_KINDS"
  by (simp_all add: VALID_KINDS_def)

lemma add_corpus_total:
  "\<forall>v \<in> set embs. length v = ms_dim m \<Longrightarrow> \<exists>m'. add_corpus corpus embs now m = Inr m'"
proof (induction corpus embs now m rule: add_corpus.induct)
  case (1 tid content corpus emb embs now m)
  obtain m1 where a: "add m tid emb ''working'' False (Some [(''text'', JStr content)]) (now 0) = Inr m1"
    using add_total [OF valid_kinds(1), of emb m] 1(2) by fastforce
  have "ms_dim m1 = ms_dim m" using add_frame [OF a] by (simp add: same_frame_def)
  then show ?case using 1 by (simp add: a)
qed simp_all

lemma add_rules_total:
  "\<forall>s. length (hash_to_vec (ae_sha256 ae) (ae_normal ae) s d seed) = ms_dim m \<Longrightarrow>
   \<exists>m'. add_rules ae d seed rules now m = Inr m'"
proof (induction rules arbitrary: now m)
  case (Cons r rs)
  obtain m1 where a: "add m (rule_id_of r)
      (hash_to_vec (ae_sha256 ae) (ae_normal ae) (canonical_text (ae_float_repr ae) r) d seed)
      ''pinned'' True (Some (rule_entry_payload (ae_float_repr ae) r)) (now 0) = Inr m1"
    using add_total [OF valid_kinds(2)] Cons.prems by blast
  have "ms_dim m1 = ms_dim m" using add_frame [OF a] by (simp add: same_frame_def)
  then have "\<exists>m'. add_rules ae d seed rs (\<lambda>i. now (Suc i)) m1 = Inr m'" using Cons.IH Cons.prems by simp
  then show ?case unfolding add_rules.simps a by (simp only: res_bind_simps)
qed simp

lemma save_total:
  assumes "memory_wf m"
  shows "\<exists>f. save m = Inr f"
proof -
  have "length (e_bits_packed e) = (ms_dim m + 7) div 8" if "e \<in> snd ` set (ms_entries m)" for e
    using that memory_wfD(2) [OF assms] by (auto simp: entry_wf_def)
  then show ?thesis by (cases "ms_entries m") (auto simp: save_def Let_def)
qed

definition sample_ae :: alice_env where
  "sample_ae = \<lparr>ae_sha256 = (\<lambda>_. replicate 32 0), ae_normal = (\<lambda>_ d. replicate d 0), ae_rotation = (\<lambda>_ _. [[1]]),
     ae_encode_all = (\<lambda>_ texts. Inr (map (\<lambda>_. [0]) texts)), ae_float_repr = ratio_repr,
     ae_corpus = make_corpus counter_draws nat\<rparr>"

definition sample_alice :: "constitution_rule list \<Rightarrow> alice" where
  "sample_alice rules = \<lparr>al_corpus_size = 1, al_embedding_model = [], al_embedding_dim = 1, al_mem_path = ALICE_MEM_PATH,
     al_seed = 3, al_pinned_rules = rules, al_payment_recipient = None, al_price_usdc = ALICE_PRICE_USDC,
     al_usdc_address = ALICE_USDC_ADDRESS, al_chain_id = ALICE_CHAIN_ID, al_memory = None, al_server = None,
     al_account = None, al_corpus = [], al_bootstrapped = False\<rparr>"

lemma sample_cold_start:
  assumes rules: "distinct (map cr_rule_id rules)"
  shows "\<exists>fs1 a1. alice_bootstrap sample_ae ''0xa1'' now now' nd True (sample_alice rules) fs = (fs1, a1, Inr ())"
proof -
  let ?corpus = "make_corpus counter_draws nat 1 3"
  let ?m0 = "mk_memory (ae_rotation sample_ae) 1 None 3"
  have hash: "length (hash_to_vec (ae_sha256 sample_ae) (ae_normal sample_ae) s (Suc 0) 3) = Suc 0" for s
    by (simp add: sample_ae_def hash_to_vec_def Let_def)
  have len: "length ?corpus = 1" using arg_cong [OF corpus_ids(1) [of counter_draws nat 1 3], of length] by simp
  then obtain x where x: "?corpus = [x]" by (auto simp: length_Suc_conv)
  obtain m1 where m1: "add_corpus ?corpus [[0]] now ?m0 = Inr m1"
    using add_corpus_total [of "[[0]]" ?m0] by (auto simp: mk_memory_def)
  have "length (ae_rotation sample_ae 1 3) = 1" by (simp add: sample_ae_def)
  note wf0 = memory_wf_init [of "ae_rotation sample_ae" 1 3 None, OF this]
  have w1: "memory_wf m1" "ms_dim m1 = Suc 0"
    using add_corpus_keeps [OF m1 wf0] corpus_ids(2) [of counter_draws nat 1 3] len
    by (simp_all add: mk_memory_def same_frame_def)
  obtain m where m: "add_rules sample_ae 1 3 rules now' m1 = Inr m"
    using add_rules_total [of sample_ae 1 3 m1 rules now'] hash w1(2) by auto
  have "distinct (map fst (ms_entries m1) @ map rule_id_of rules)"
    using add_corpus_keeps [OF m1 wf0] corpus_ids [of counter_draws nat 1 3] len rules
    by (auto simp: mk_memory_def distinct_map inj_on_def trace_name_def)
  from add_rules_keeps [OF m w1(1) this] have "memory_wf m" by simp
  then obtain f where f: "save m = Inr f" using save_total by blast
  define a0 where "a0 = (sample_alice rules)\<lparr>al_account := Some ''0xa1'', al_payment_recipient := Some ''0xa1''\<rparr>"
  obtain fs1 a2 where b: "build_memory sample_ae now now' a0 fs = (fs1, a2, Inr ())" "al_memory a2 = Some m"
    using m1 m f x by (simp add: build_memory_def sample_alice_def a0_def Let_def) (simp add: sample_ae_def)
  have start: "alice_bootstrap sample_ae ''0xa1'' now now' nd True (sample_alice rules) fs =
      (case mk_dark_pool m (alice_options a2 ''0xa1'') nd of Inl e \<Rightarrow> (fs1, a2, Inl e)
       | Inr server \<Rightarrow> (fs1, a2\<lparr>al_server := Some server, al_bootstrapped := True\<rparr>, Inr ()))"
    using b by (simp add: alice_bootstrap_def load_cache_def Let_def a0_def) (simp add: sample_alice_def)
  obtain server where "mk_dark_pool m (alice_options a2 ''0xa1'') nd = Inr server" using alice_pool by blast
  then show ?thesis unfolding start by simp
qed

lemma warm_start_serves_the_cached_mind_witness:
  "\<exists>fs1 a1 b1. alice_bootstrap sample_ae ''0xa1'' (\<lambda>_. 0) (\<lambda>_. 1) Absent True (sample_alice DEFAULT_PINNED_RULES) (\<lambda>_. NoFile) =
       (fs1, a1, Inr ()) \<and>
     alice_bootstrap sample_ae ''0xa2'' (\<lambda>_. 2) (\<lambda>_. 2) Absent False (sample_alice []) fs1 = (fs1, b1, Inr ()) \<and>
     al_memory b1 = al_memory a1"
proof -
  have d: "distinct (map cr_rule_id DEFAULT_PINNED_RULES)" by (simp add: DEFAULT_PINNED_RULES_def)
  obtain fs1 a1 where c: "alice_bootstrap sample_ae ''0xa1'' (\<lambda>_. 0) (\<lambda>_. 1) Absent True
      (sample_alice DEFAULT_PINNED_RULES) (\<lambda>_. NoFile) = (fs1, a1, Inr ())"
    using sample_cold_start [OF d] by blast
  have "\<exists>b1 m server. alice_bootstrap sample_ae ''0xa2'' (\<lambda>_. 2) (\<lambda>_. 2) Absent False (sample_alice []) fs1 = (fs1, b1, Inr ()) \<and>
      al_memory b1 = Some m \<and> al_memory a1 = Some m \<and> al_server b1 = Some server \<and> dp_memory server = m \<and>
      pinned_root (\<lambda>_. []) ratio_repr b1 = pinned_root (\<lambda>_. []) ratio_repr a1 \<and>
      pinned_root (\<lambda>_. []) ratio_repr b1 = Inr (pinned_merkle_root (\<lambda>_. []) ratio_repr m) \<and>
      (\<forall>r \<in> set (al_pinned_rules (sample_alice DEFAULT_PINNED_RULES)). payload_view m (''pinned:'' @ cr_rule_id r) =
         Some (rule_entry_payload (ae_float_repr sample_ae) r)) \<and>
      alice_bootstrap sample_ae [] (\<lambda>_. 2) (\<lambda>_. 2) Absent False b1 fs1 = (fs1, b1, Inr ())"
    by (rule warm_start_serves_the_cached_mind [OF c, of counter_draws nat])
      (simp_all add: sample_ae_def sample_alice_def encodes_each_def d)
  then show ?thesis using c by auto
qed

end
