(* ===== verification/Arena.thy ===== *)
theory Arena
  imports Duel_Runner
begin

text \<open>
  The matchmaker of \<open>agents/arena.py\<close>: pairing, one duel from its creation over the steps of the
  trading window to its settlement, the run over all pairs, and the leaderboard.

  The duelists of a run are distinct objects, so each pair's agents are updated on their own. The
  clock and the sleep of the run are functions on the world, as the chain is.
\<close>

subsection \<open>The leaderboard\<close>

record standing =
  sd_address :: string
  sd_alpha_bps :: int
  sd_ingested :: int
  sd_survived :: int

definition resilience :: "standing \<Rightarrow> rat" where
  "resilience s = (if sd_ingested s = 0 then 0 else of_int (sd_survived s) / of_int (sd_ingested s))"

text \<open>\<open>sorted(xs, key, reverse=True)\<close>: descending, entries of equal key in their old order.\<close>

definition sorted_desc :: "('a \<Rightarrow> 'k :: linorder) \<Rightarrow> 'a list \<Rightarrow> 'a list" where
  "sorted_desc key xs = rev (sort_key key (rev xs))"

definition alpha_ranking :: "standing list \<Rightarrow> standing list" where
  "alpha_ranking standings = sorted_desc sd_alpha_bps standings"

definition shield_ranking :: "standing list \<Rightarrow> standing list" where
  "shield_ranking standings = sorted_desc (\<lambda>s. (resilience s, sd_alpha_bps s)) standings"

text \<open>The slots of \<open>_aggregate\<close> in their order of appearance; a report is added to its agent's slot.\<close>

type_synonym slot = "int \<times> int \<times> int"

definition add_report :: "cycle_report \<Rightarrow> slot \<Rightarrow> slot" where
  "add_report r = (\<lambda>(alpha, ingested, survived).
     (alpha + cy_r_bps r, if cy_ingested r then ingested + 1 else ingested,
      if cy_ingested r \<and> cy_survived r then survived + 1 else survived))"

definition tally :: "(string \<times> slot) list \<Rightarrow> cycle_report \<Rightarrow> (string \<times> slot) list" where
  "tally agg r =
     AList.update (cy_agent r)
       (add_report r (case map_of agg (cy_agent r) of None \<Rightarrow> (0, 0, 0) | Some s \<Rightarrow> s)) agg"

definition aggregate :: "cycle_report list \<Rightarrow> standing list" where
  "aggregate reports =
     map (\<lambda>(addr, alpha, ingested, survived).
        \<lparr>sd_address = addr, sd_alpha_bps = alpha, sd_ingested = ingested, sd_survived = survived\<rparr>)
       (foldl tally [] reports)"

subsection \<open>Pairs\<close>

fun pairs :: "'a list \<Rightarrow> ('a \<times> 'a) list" where
  "pairs (x # y # rest) = (x, y) # pairs rest"
| "pairs _ = []"

subsection \<open>One duel\<close>

type_synonym chaos = "(string \<times> injection) list"

record arena =
  ar_colosseum_addr :: string
  ar_symbol :: string
  ar_cycles :: int
  ar_duration_secs :: int
  ar_betting_secs :: int
  ar_penalty_bps :: int
  ar_settle_buffer_secs :: int
  ar_cycle_interval_secs :: int

record 'w arena_ports =
  ap_sleep :: "'w \<Rightarrow> rat \<Rightarrow> 'w \<times> unit res"
  ap_monotonic :: "'w \<Rightarrow> 'w \<times> rat"
  ap_poll :: "('w \<Rightarrow> int \<Rightarrow> int \<Rightarrow> 'w \<times> (chaos \<times> int) res) option"

definition poll_step :: "'w arena_ports \<Rightarrow> int \<Rightarrow> chaos option \<Rightarrow> int \<Rightarrow> 'w \<Rightarrow> 'w \<times> chaos option \<times> int" where
  "poll_step ap duel_id static_inj fb w =
     (case ap_poll ap of
        None \<Rightarrow> (w, static_inj, fb)
      | Some poll \<Rightarrow>
          (case poll w duel_id fb of
             (w', Inl e) \<Rightarrow> (w', static_inj, fb)
           | (w', Inr (polled, nfb)) \<Rightarrow> (w', if polled \<noteq> [] then Some polled else static_inj, nfb)))"

definition interval_of :: "arena \<Rightarrow> int" where
  "interval_of ar = (if 0 < ar_cycle_interval_secs ar then ar_cycle_interval_secs ar else 0)"

text \<open>\<open>-(-a // b)\<close> is the quotient rounded up.\<close>

definition total_steps :: "arena \<Rightarrow> int" where
  "total_steps ar =
     (if 0 < interval_of ar then max (ar_cycles ar) (- (- ar_duration_secs ar div interval_of ar)) else ar_cycles ar)"

definition chaos_map :: "chaos option \<Rightarrow> string \<Rightarrow> injection option" where
  "chaos_map c = (case c of None \<Rightarrow> (\<lambda>_. None) | Some xs \<Rightarrow> map_of xs)"

text \<open>The cycle that a step runs, if any, and the count of straggler cycles after it.\<close>

definition scheduled :: "arena \<Rightarrow> int \<Rightarrow> int \<Rightarrow> chaos option \<Rightarrow> int option \<times> int" where
  "scheduled ar step extra ij =
     (if step \<le> ar_cycles ar then (Some step, extra)
      else if ij \<noteq> None \<and> ij \<noteq> Some [] then (Some (ar_cycles ar + (extra + 1)), extra + 1)
      else (None, extra))"

fun arena_steps ::
  "duel_tools \<Rightarrow> abi_tools \<Rightarrow> 'w ports \<Rightarrow> 'w arena_ports \<Rightarrow> arena \<Rightarrow> int \<Rightarrow> chaos option \<Rightarrow>
   int list \<Rightarrow> int \<Rightarrow> int \<Rightarrow> 'w runner \<Rightarrow> 'w \<Rightarrow> 'w \<times> 'w runner \<times> cycle_report list \<times> unit res" where
  "arena_steps dt ab pt ap ar did static_inj [] fb extra rn w = (w, rn, [], Inr ())"
| "arena_steps dt ab pt ap ar did static_inj (step # steps) fb extra rn w =
     (let (w1, ij, fb') = poll_step ap did static_inj fb w;
          (cyc, extra') = scheduled ar step extra ij;
          (w2, rn', r) = (case cyc of
              None \<Rightarrow> (w1, rn, Inr [])
            | Some c \<Rightarrow> run_cycle dt ab pt c (chaos_map ij) rn w1)
      in case r of
           Inl e \<Rightarrow> (w2, rn', [], Inl e)
         | Inr reports \<Rightarrow>
             (let (w3, slept) = (if 0 < interval_of ar \<and> step < total_steps ar
                    then ap_sleep ap w2 (of_int (interval_of ar)) else (w2, Inr ()))
              in case slept of
                   Inl e \<Rightarrow> (w3, rn', reports, Inl e)
                 | Inr _ \<Rightarrow>
                     (let (w4, rn4, more, finished) = arena_steps dt ab pt ap ar did static_inj steps fb' extra' rn' w3
                      in (w4, rn4, reports @ more, finished))))"

definition settle_wait :: "'w arena_ports \<Rightarrow> arena \<Rightarrow> rat \<Rightarrow> 'w \<Rightarrow> 'w \<times> unit res" where
  "settle_wait ap ar created_at w =
     (let (w1, now) = ap_monotonic ap w;
          remaining = of_int (ar_duration_secs ar) - (now - created_at) + of_int (ar_settle_buffer_secs ar)
      in if 0 < remaining then ap_sleep ap w1 remaining else (w1, Inr ()))"

text \<open>
  After the creation: the steps and the wait, whose exceptions are caught and printed, then the
  attempt to settle, whose exceptions are too.
\<close>

definition play_duel ::
  "duel_tools \<Rightarrow> abi_tools \<Rightarrow> 'w ports \<Rightarrow> 'w arena_ports \<Rightarrow> arena \<Rightarrow> int \<Rightarrow> chaos option \<Rightarrow> 'w runner \<Rightarrow> 'w \<Rightarrow>
   'w \<times> 'w runner \<times> cycle_report list" where
  "play_duel dt ab pt ap ar did static_inj rn w =
     (let (w1, created_at) = ap_monotonic ap w;
          (w2, rn2, reports, r) = arena_steps dt ab pt ap ar did static_inj [1..total_steps ar] 0 0 rn w1;
          (w3, _) = (case r of Inl e \<Rightarrow> (w2, Inl e) | Inr _ \<Rightarrow> settle_wait ap ar created_at w2);
          (w4, _) = resolve_duel ab pt rn2 w3
      in (w4, rn2, reports))"

definition duel_config_of :: "arena \<Rightarrow> 'w duelist \<Rightarrow> 'w duelist \<Rightarrow> 'w duel_config" where
  "duel_config_of ar a b =
     \<lparr>dc_colosseum_addr = ar_colosseum_addr ar, dc_agent_a = a, dc_agent_b = b, dc_symbol = ar_symbol ar,
      dc_betting_secs = ar_betting_secs ar, dc_duration_secs = ar_duration_secs ar, dc_penalty_bps = ar_penalty_bps ar\<rparr>"

definition run_duel ::
  "duel_tools \<Rightarrow> abi_tools \<Rightarrow> 'w ports \<Rightarrow> 'w arena_ports \<Rightarrow> arena \<Rightarrow> 'w duelist \<Rightarrow> 'w duelist \<Rightarrow> chaos option \<Rightarrow> 'w \<Rightarrow>
   'w \<times> 'w runner \<times> (int \<times> cycle_report list) res" where
  "run_duel dt ab pt ap ar a b static_inj w =
     (case create_duel ab pt (mk_runner (duel_config_of ar a b) 3) w of
        (w1, rn1, Inl e) \<Rightarrow> (w1, rn1, Inl e)
      | (w1, rn1, Inr did) \<Rightarrow>
          (let (w2, rn2, reports) = play_duel dt ab pt ap ar did static_inj rn1 w1
           in (w2, rn2, Inr (did, reports))))"

subsection \<open>The run\<close>

record arena_result =
  rs_duel_ids :: "int list"
  rs_standings :: "standing list"
  rs_reports :: "cycle_report list"

text \<open>Entry \<open>j\<close> of the per-duel injections, \<open>None\<close> beyond their end.\<close>

definition static_for :: "chaos list option \<Rightarrow> nat \<Rightarrow> chaos option" where
  "static_for per_duel j =
     (case per_duel of None \<Rightarrow> None | Some xs \<Rightarrow> if j < length xs then Some (xs ! j) else None)"

text \<open>The agents as the duels left them stand first, in pairs.\<close>

fun run_pairs ::
  "duel_tools \<Rightarrow> abi_tools \<Rightarrow> 'w ports \<Rightarrow> 'w arena_ports \<Rightarrow> arena \<Rightarrow> chaos list option \<Rightarrow> nat \<Rightarrow>
   ('w duelist \<times> 'w duelist) list \<Rightarrow> 'w \<Rightarrow> 'w \<times> ('w duelist \<times> 'w duelist) list \<times> (int list \<times> cycle_report list) res" where
  "run_pairs dt ab pt ap ar per_duel j [] w = (w, [], Inr ([], []))"
| "run_pairs dt ab pt ap ar per_duel j ((a, b) # ps) w =
     (let (w1, rn, r) = run_duel dt ab pt ap ar a b (static_for per_duel j) w;
          played = (dc_agent_a (rn_config rn), dc_agent_b (rn_config rn))
      in case r of
           Inl e \<Rightarrow> (w1, played # ps, Inl e)
         | Inr (did, reports) \<Rightarrow>
             (let (w2, rest, r2) = run_pairs dt ab pt ap ar per_duel (Suc j) ps w1
              in (w2, played # rest, map_sum id (\<lambda>(dids, more). (did # dids, reports @ more)) r2)))"

definition arena_run ::
  "duel_tools \<Rightarrow> abi_tools \<Rightarrow> 'w ports \<Rightarrow> 'w arena_ports \<Rightarrow> arena \<Rightarrow> chaos list option \<Rightarrow> 'w duelist list \<Rightarrow> 'w \<Rightarrow>
   'w \<times> ('w duelist \<times> 'w duelist) list \<times> arena_result res" where
  "arena_run dt ab pt ap ar per_duel duelists w =
     (let (w', played, r) = run_pairs dt ab pt ap ar per_duel 0 (pairs duelists) w
      in (w', played, map_sum id (\<lambda>(dids, reports).
            \<lparr>rs_duel_ids = dids, rs_standings = aggregate reports, rs_reports = reports\<rparr>) r))"

end
