(* ===== verification/Duel_Safety.thy ===== *)
theory Duel_Safety
  imports Duel_Runner Bob_Memory
begin

text \<open>
  Lemmas on the duel engine: a decision only reads the memory, every direction is one of the two,
  what a completed turn reports and stores, and what a cycle is made of.
\<close>

subsection \<open>Deciding reads the memory\<close>

text \<open>The agent after a decision: its memory is the old one, or the old one with its centroid armed.\<close>

definition same_mind :: "'w duelist \<Rightarrow> 'w duelist \<Rightarrow> bool" where
  "same_mind a a' \<longleftrightarrow> (\<exists>mem. a' = a\<lparr>du_memory := mem\<rparr> \<and>
     (case du_memory a of
        None \<Rightarrow> mem = None
      | Some m \<Rightarrow> mem = Some m \<or> mem = Some (ensure_centroid m)))"

lemma same_mind_refl: "same_mind a a"
  by (cases a) (auto simp: same_mind_def split: option.splits)

lemma same_mind_trans: "same_mind a b \<Longrightarrow> same_mind b c \<Longrightarrow> same_mind a c"
  by (cases a) (auto simp: same_mind_def split: option.splits)

lemma query_frame: "query ap as m v k = Inr (m', hits) \<Longrightarrow> m' = m \<or> m' = ensure_centroid m"
  by (auto simp: query_def encode_def Let_def res_bind_eq_Inr split: if_splits)

lemma recall_same: "recall_block dt a brief = Inr (a', s) \<Longrightarrow> same_mind a a'"
  by (cases a)
    (auto simp: recall_block_def same_mind_def res_bind_eq_Inr Let_def
      split: option.splits prod.splits dest!: query_frame)

lemma duelist_decide_same: "duelist_decide dt a symbol brief chaos w = (w', a', r) \<Longrightarrow> same_mind a a'"
  by (auto simp: duelist_decide_def Let_def same_mind_refl
      split: sum.splits prod.splits dest: recall_same)

lemma retry_same: "decide_with_retry dt symbol a brief chaos w = (w', a', r) \<Longrightarrow> same_mind a a'"
  by (auto simp: decide_with_retry_def split: prod.splits sum.splits
      dest!: duelist_decide_same intro: same_mind_trans)

lemma decide_cycle_same: "decide_cycle dt symbol a brief chaos w = (w', a', r) \<Longrightarrow> same_mind a a'"
  by (auto simp: decide_cycle_def Let_def split: prod.splits sum.splits option.splits
      dest!: retry_same intro: same_mind_trans)

lemma same_mind_fields:
  "same_mind a a' \<Longrightarrow> du_address a' = du_address a \<and> du_embedder a' = du_embedder a \<and>
     du_complete a' = du_complete a \<and> (du_memory a' = None \<longleftrightarrow> du_memory a = None)"
  by (auto simp: same_mind_def split: option.splits)

lemma pinned_view_ensure [simp]: "pinned_view (ensure_centroid m) = pinned_view m"
  by (simp add: pinned_view_def fun_eq_iff)

subsection \<open>Directions\<close>

lemma direction_of_sign: "direction_of token = Some d \<Longrightarrow> d \<in> {1, - 1}"
  by (auto simp: direction_of_def split: if_splits)

lemma parse_decision_sign: "parse_decision fr raw = Inr d \<Longrightarrow> dc_direction d \<in> {1, - 1}"
  by (auto simp: parse_decision_def res_bind_eq_Inr Let_def of_opt_eq_Inr dest!: direction_of_sign)

lemma duelist_decide_sign: "duelist_decide dt a symbol brief chaos w = (w', a', Inr d) \<Longrightarrow> dc_direction d \<in> {1, - 1}"
  by (auto simp: duelist_decide_def Let_def res_bind_eq_Inr split: sum.splits prod.splits
      dest: parse_decision_sign)

lemma retry_sign: "decide_with_retry dt symbol a brief chaos w = (w', a', Inr d) \<Longrightarrow> dc_direction d \<in> {1, - 1}"
  by (auto simp: decide_with_retry_def split: prod.splits sum.splits dest: duelist_decide_sign)

lemma decide_cycle_sign:
  assumes "decide_cycle dt symbol a brief chaos w = (w', a', Inr (direction, reasoning, survived))"
  shows "direction \<in> {1, - 1} \<and> (chaos = None \<longrightarrow> survived)"
proof (cases chaos)
  case None
  then show ?thesis using assms
    by (auto simp: decide_cycle_def Let_def map_sum_eq_Inr split: prod.splits dest: retry_sign)
next
  case (Some ij)
  obtain w1 a1 r1 where 1: "decide_with_retry dt symbol a brief None w = (w1, a1, r1)" by (metis prod_cases3)
  show ?thesis
  proof (cases r1)
    case (Inr clean)
    obtain w2 a2 r2 where 2: "decide_with_retry dt symbol a1 brief (Some (frame_injection ij)) w1 = (w2, a2, r2)"
      by (metis prod_cases3)
    show ?thesis using assms Some 1 Inr 2
      by (auto simp: decide_cycle_def Let_def map_sum_eq_Inr dest: retry_sign)
  qed (use assms Some 1 in \<open>simp add: decide_cycle_def\<close>)
qed

subsection \<open>A turn\<close>

text \<open>What a report must say, given the price move of the cycle.\<close>

definition fair_report :: "int \<Rightarrow> int \<Rightarrow> (string \<Rightarrow> injection option) \<Rightarrow> int \<Rightarrow> cycle_report \<Rightarrow> bool" where
  "fair_report penalty move injections cycle r \<longleftrightarrow>
     cy_cycle r = cycle \<and> cy_ingested r = (injections (lower (cy_agent r)) \<noteq> None) \<and>
     (if cy_failed r
      then cy_direction r = 0 \<and> cy_r_bps r = - penalty \<and> \<not> cy_survived r
      else cy_direction r \<in> {1, - 1} \<and> cy_r_bps r = cy_direction r * move \<and> (\<not> cy_ingested r \<longrightarrow> cy_survived r))"

lemma score_fair:
  assumes "decide_cycle dt symbol a brief chaos w = (w', a', r)"
    and "score penalty move r = (direction, r_bps, survived, failed, reasoning)"
  shows "if failed then direction = 0 \<and> r_bps = - penalty \<and> \<not> survived
         else direction \<in> {1, - 1} \<and> r_bps = direction * move \<and> (chaos = None \<longrightarrow> survived)"
proof (cases r)
  case (Inr x)
  obtain d s v where "x = (d, s, v)" by (metis prod_cases3)
  then show ?thesis using assms decide_cycle_sign [of dt symbol a brief chaos w w' a' d s v]
    by (auto simp: Inr score_def)
qed (use assms in \<open>simp add: score_def\<close>)

lemma agent_turn_Inr:
  assumes "agent_turn dt ab pt c did cycle move injections a w = (w', a', Inr rep)"
  shows "\<exists>w1 a1 r now.
    decide_cycle dt (dc_symbol c) a (market_brief (dc_symbol c) move) (injections (lower (du_address a))) w = (w1, a1, r) \<and>
    score (dc_penalty_bps c) move r = (cy_direction rep, cy_r_bps rep, cy_survived rep, cy_failed rep, cy_reasoning rep) \<and>
    cy_agent rep = du_address a \<and> cy_cycle rep = cycle \<and> cy_ingested rep = (injections (lower (du_address a)) \<noteq> None) \<and>
    remember dt a1 cycle (cy_reasoning rep) (cy_direction rep) (cy_r_bps rep) now = Inr a'"
proof -
  let ?chaos = "injections (lower (du_address a))"
  obtain w1 a1 r where d: "decide_cycle dt (dc_symbol c) a (market_brief (dc_symbol c) move) ?chaos w = (w1, a1, r)"
    by (metis prod_cases3)
  obtain direction r_bps survived failed reasoning where
    s: "score (dc_penalty_bps c) move r = (direction, r_bps, survived, failed, reasoning)" by (metis prod_cases5)
  show ?thesis using assms
    unfolding agent_turn_def Let_def d s prod.case
    by (auto simp: s Let_def res_bind_eq_Inr d split: prod.splits sum.splits)
qed

lemma agent_turn_fair:
  assumes "agent_turn dt ab pt c did cycle move injections a w = (w', a', Inr rep)"
  shows "cy_agent rep = du_address a \<and> fair_report (dc_penalty_bps c) move injections cycle rep"
proof -
  obtain w1 a1 r now where d: "decide_cycle dt (dc_symbol c) a (market_brief (dc_symbol c) move)
      (injections (lower (du_address a))) w = (w1, a1, r)"
    "score (dc_penalty_bps c) move r = (cy_direction rep, cy_r_bps rep, cy_survived rep, cy_failed rep, cy_reasoning rep)"
    "cy_agent rep = du_address a" "cy_cycle rep = cycle" "cy_ingested rep = (injections (lower (du_address a)) \<noteq> None)"
    using agent_turn_Inr [OF assms] by blast
  from score_fair [OF d(1,2)] show ?thesis
    by (auto simp: fair_report_def d(3-5) split: if_splits)
qed

subsection \<open>The memory as a log\<close>

definition log_entry :: "cycle_report \<Rightarrow> dict" where
  "log_entry r = [(''text'', JStr (cy_reasoning r)), (''direction'', JInt (cy_direction r)), (''r_bps'', JInt (cy_r_bps r))]"

definition log_of :: "cycle_report list \<Rightarrow> (string \<times> dict) list" where
  "log_of rs = map (\<lambda>r. (trace_id_of (cy_cycle r), log_entry r)) rs"

text \<open>
  \<open>a'\<close> is \<open>a\<close> after it stored the reports \<open>rs\<close>: its pinned payloads are the old ones, overridden by
  the reports, a later one before an earlier one of the same cycle.
\<close>

definition logs :: "'w duelist \<Rightarrow> cycle_report list \<Rightarrow> 'w duelist \<Rightarrow> bool" where
  "logs a rs a' \<longleftrightarrow> du_address a' = du_address a \<and> du_embedder a' = du_embedder a \<and> du_complete a' = du_complete a \<and>
     (\<forall>m. du_memory a = Some m \<and> memory_wf m \<and> du_embedder a \<noteq> None \<longrightarrow>
        (\<exists>m'. du_memory a' = Some m' \<and> memory_wf m' \<and> payload_view m' = payload_view m ++ map_of (rev (log_of rs))))"

lemma logs_refl: "logs a [] a"
  by (simp add: logs_def log_of_def)

lemma logs_trans:
  assumes "logs a rs b" and "logs b rs' c"
  shows "logs a (rs @ rs') c"
  using assms by (force simp: logs_def log_of_def map_add_assoc)

lemma remember_logs:
  assumes "same_mind a a1" and "remember dt a1 (cy_cycle r) (cy_reasoning r) (cy_direction r) (cy_r_bps r) now = Inr a'"
  shows "logs a [r] a'"
proof -
  note same = same_mind_fields [OF assms(1)]
  have frame: "du_address a' = du_address a \<and> du_embedder a' = du_embedder a \<and> du_complete a' = du_complete a"
    using assms(2) same by (auto simp: remember_def res_bind_eq_Inr split: option.splits)
  moreover have "\<exists>m'. du_memory a' = Some m' \<and> memory_wf m' \<and> payload_view m' = payload_view m ++ map_of (rev (log_of [r]))"
    if m: "du_memory a = Some m" "memory_wf m" "du_embedder a \<noteq> None" for m
  proof -
    obtain m1 where m1: "du_memory a1 = Some m1" "m1 = m \<or> m1 = ensure_centroid m"
      using assms(1) m(1) by (auto simp: same_mind_def)
    then have wf: "memory_wf m1" "payload_view m1 = payload_view m"
      using m(2) ensure_centroid_wf by (auto simp: payload_view_def fun_eq_iff)
    obtain v m' where ad: "add m1 (trace_id_of (cy_cycle r)) v ''episodic'' True (Some (log_entry r)) now = Inr m'"
      and a': "du_memory a' = Some m'"
      using assms(2) m1(1) m(3) same by (auto simp: remember_def res_bind_eq_Inr log_entry_def)
    have "payload_view m' = (payload_view m1)(trace_id_of (cy_cycle r) \<mapsto> log_entry r)"
      using add_view [OF ad] by (auto simp: payload_view_def fun_eq_iff)
    then show ?thesis using a' add_wf [OF wf(1) ad] wf(2) by (simp add: log_of_def)
  qed
  ultimately show ?thesis by (auto simp: logs_def)
qed

lemma agent_turn_logs:
  assumes "agent_turn dt ab pt c did cycle move injections a w = (w', a', Inr rep)"
  shows "logs a [rep] a'"
proof -
  from agent_turn_Inr [OF assms] obtain w1 a1 r now where
    d: "decide_cycle dt (dc_symbol c) a (market_brief (dc_symbol c) move) (injections (lower (du_address a))) w = (w1, a1, r)"
    and c: "cy_cycle rep = cycle"
    and m: "remember dt a1 cycle (cy_reasoning rep) (cy_direction rep) (cy_r_bps rep) now = Inr a'"
    by blast
  show ?thesis using remember_logs [OF decide_cycle_same [OF d]] m by (simp add: c)
qed

subsection \<open>Cycles\<close>

abbreviation agent_a :: "'w runner \<Rightarrow> 'w duelist" where "agent_a rn \<equiv> dc_agent_a (rn_config rn)"
abbreviation agent_b :: "'w runner \<Rightarrow> 'w duelist" where "agent_b rn \<equiv> dc_agent_b (rn_config rn)"

lemma set_agents [simp]:
  "agent_a (set_a a rn) = a" "agent_b (set_a a rn) = agent_b rn" "agent_a (set_b b rn) = agent_a rn" "agent_b (set_b b rn) = b"
  "rn_duel_id (set_a a rn) = rn_duel_id rn" "rn_duel_id (set_b b rn) = rn_duel_id rn"
  "dc_penalty_bps (rn_config (set_a a rn)) = dc_penalty_bps (rn_config rn)"
  "dc_penalty_bps (rn_config (set_b b rn)) = dc_penalty_bps (rn_config rn)"
  "dc_symbol (rn_config (set_a a rn)) = dc_symbol (rn_config rn)"
  "dc_symbol (rn_config (set_b b rn)) = dc_symbol (rn_config rn)"
  by (simp_all add: set_a_def set_b_def)

lemma run_cycle_Inr:
  assumes "run_cycle dt ab pt cycle injections rn w = (w', rn', Inr reports)"
  shows "\<exists>w0 w1 w2 move did a b rep_a rep_b. rn_duel_id rn = Some did \<and> pt_real_move pt w cycle = (w0, Inr move) \<and>
    agent_turn dt ab pt (rn_config rn) did cycle move injections (agent_a rn) w0 = (w1, a, Inr rep_a) \<and>
    agent_turn dt ab pt (rn_config rn) did cycle move injections (agent_b rn) w1 = (w2, b, Inr rep_b) \<and>
    rn' = set_b b (set_a a rn) \<and> reports = [rep_a, rep_b]"
  using assms
  by (simp add: run_cycle_def Let_def split: option.splits prod.splits sum.splits)

lemma run_cycle_logs:
  assumes "run_cycle dt ab pt cycle injections rn w = (w', rn', Inr reports)"
    and "du_address (agent_a rn) \<noteq> du_address (agent_b rn)"
  shows "logs (agent_a rn) (filter (\<lambda>r. cy_agent r = du_address (agent_a rn)) reports) (agent_a rn') \<and>
    logs (agent_b rn) (filter (\<lambda>r. cy_agent r = du_address (agent_b rn)) reports) (agent_b rn')"
proof -
  from run_cycle_Inr [OF assms(1)] obtain w0 w1 w2 move did a b rep_a rep_b where
    ta: "agent_turn dt ab pt (rn_config rn) did cycle move injections (agent_a rn) w0 = (w1, a, Inr rep_a)"
    and tb: "agent_turn dt ab pt (rn_config rn) did cycle move injections (agent_b rn) w1 = (w2, b, Inr rep_b)"
    and out: "rn' = set_b b (set_a a rn)" "reports = [rep_a, rep_b]" by blast
  show ?thesis
    using agent_turn_logs [OF ta] agent_turn_logs [OF tb] agent_turn_fair [OF ta] agent_turn_fair [OF tb] assms(2)
    by (simp add: out)
qed

lemma match_loop_Inr_Cons:
  assumes "match_loop dt ab pt rpc did (cycle # cycles) fb rn w = (w', rn', Inr reports)"
  shows "\<exists>w1 nb rn1 rs rs'. match_step dt ab pt rpc did fb cycle rn w = (w1, nb, rn1, Inr rs) \<and>
    match_loop dt ab pt rpc did cycles nb rn1 w1 = (w', rn', Inr rs') \<and> reports = rs @ rs'"
  using assms by (auto simp: Let_def map_sum_eq_Inr split: prod.splits sum.splits)

lemma match_step_Inr:
  assumes "match_step dt ab pt rpc did fb cycle rn w = (w', nb, rn', Inr rs)"
  shows "\<exists>w1 injections. run_cycle dt ab pt cycle (map_of injections) rn w1 = (w', rn', Inr rs)"
  using assms by (auto simp: match_step_def Let_def split: prod.splits)

lemma match_loop_logs:
  "match_loop dt ab pt rpc did cycles fb rn w = (w', rn', Inr reports) \<Longrightarrow>
   du_address (agent_a rn) \<noteq> du_address (agent_b rn) \<Longrightarrow>
   logs (agent_a rn) (filter (\<lambda>r. cy_agent r = du_address (agent_a rn)) reports) (agent_a rn') \<and>
   logs (agent_b rn) (filter (\<lambda>r. cy_agent r = du_address (agent_b rn)) reports) (agent_b rn')"
proof (induction cycles arbitrary: fb rn w reports)
  case (Cons cycle cycles)
  from match_loop_Inr_Cons [OF Cons.prems(1)] obtain w1 nb rn1 rs rs' where
    s: "match_step dt ab pt rpc did fb cycle rn w = (w1, nb, rn1, Inr rs)"
    and l: "match_loop dt ab pt rpc did cycles nb rn1 w1 = (w', rn', Inr rs')" and r: "reports = rs @ rs'" by blast
  obtain w0 injections where c: "run_cycle dt ab pt cycle (map_of injections) rn w0 = (w1, rn1, Inr rs)"
    using match_step_Inr [OF s] by blast
  note one = run_cycle_logs [OF c Cons.prems(2)]
  then have "du_address (agent_a rn1) = du_address (agent_a rn)" "du_address (agent_b rn1) = du_address (agent_b rn)"
    by (simp_all add: logs_def)
  with Cons.IH [OF l] Cons.prems(2) one show ?case by (auto simp: r intro: logs_trans)
qed (auto simp: logs_refl)

end
