(* ===== verification/Duel_Properties.thy ===== *)
theory Duel_Properties
  imports Duel_Safety
begin

text \<open>
  The properties of the match engine (\<open>agents/duel_runner.py\<close>, \<open>agents/duelist.py\<close>).
\<close>

subsection \<open>Replies\<close>

lemma braces_object:
  assumes "CHR ''{'' \<notin> set pre" and "CHR ''}'' \<notin> set post"
  shows "braces (pre @ CHR ''{'' # inner @ CHR ''}'' # post) = Some (CHR ''{'' # inner @ [CHR ''}''])"
proof -
  have p: "dropWhile (\<lambda>c. c \<noteq> CHR ''{'') (pre @ CHR ''{'' # r) = CHR ''{'' # r" for r
    using assms(1) by (subst dropWhile_append2) auto
  have q: "dropWhile (\<lambda>c. c \<noteq> CHR ''}'') (rev post @ CHR ''}'' # r) = CHR ''}'' # r" for r
    using assms(2) by (subst dropWhile_append2) auto
  show ?thesis by (simp add: braces_def p q)
qed

lemma dumps_object: "\<exists>inner. dumps_default fr (JObj d) = CHR ''{'' # inner @ [CHR ''}'']"
  by simp

text \<open>A reply is read from the object in it, whatever prose without braces surrounds it.\<close>

lemma parse_reply:
  assumes "wire_ok (JObj d)" and "CHR ''{'' \<notin> set pre" and "CHR ''}'' \<notin> set post"
    and "dict_get_or d ''direction'' (JStr []) = JStr token" and "direction_of (lower (strip token)) = Some direction"
    and "dict_get_or d ''reasoning'' (JStr []) = JStr txt" and "strip txt \<noteq> []"
  shows "parse_decision fr (JStr (pre @ dumps_default fr (JObj d) @ post)) =
    Inr \<lparr>dc_direction = direction, dc_reasoning = strip txt\<rparr>"
proof -
  obtain inner where i: "dumps_default fr (JObj d) = CHR ''{'' # inner @ [CHR ''}'']" using dumps_object by blast
  then have "json_loads (CHR ''{'' # inner @ [CHR ''}'']) = Some (JObj d)" using loads_dumps [OF assms(1), of fr] by simp
  then show ?thesis
    using braces_object [OF assms(2,3), of inner] assms(4-7)
    by (simp add: parse_decision_def i del: dumps_default.simps)
qed

subsection \<open>Reports\<close>

text \<open>C24: (functional) A completed cycle reports each of the two agents once, in order, and every report is earned:
  it says whether a chaos injection was aimed at the agent; an agent that answered made a call of one
  of the two directions and scores that direction times the oracle's move, and without an injection
  it counts as having survived; an agent that did not answer, even when asked again, abstains, scores
  the penalty and has not survived. No score exceeds the move and the penalty in size.\<close>

theorem cycle_reports_are_earned:
  assumes "run_cycle dt ab pt cycle injections rn w = (w', rn', Inr reports)"
  shows "\<exists>move. snd (pt_real_move pt w cycle) = Inr move \<and>
    map cy_agent reports = [du_address (dc_agent_a (rn_config rn)), du_address (dc_agent_b (rn_config rn))] \<and>
    (\<forall>r \<in> set reports. cy_cycle r = cycle \<and> cy_ingested r = (injections (lower (cy_agent r)) \<noteq> None) \<and>
       (if cy_failed r
        then cy_direction r = 0 \<and> cy_r_bps r = - dc_penalty_bps (rn_config rn) \<and> \<not> cy_survived r
        else cy_direction r \<in> {1, - 1} \<and> cy_r_bps r = cy_direction r * move \<and> (cy_ingested r \<or> cy_survived r)) \<and>
       \<bar>cy_r_bps r\<bar> \<le> max \<bar>move\<bar> \<bar>dc_penalty_bps (rn_config rn)\<bar>)"
    (is "\<exists>move. ?moved move \<and> ?agents \<and> (\<forall>r \<in> set reports. ?earned move r)")
proof -
  from run_cycle_Inr [OF assms] obtain w0 w1 w2 move did a b rep_a rep_b where
    m: "pt_real_move pt w cycle = (w0, Inr move)"
    and ta: "agent_turn dt ab pt (rn_config rn) did cycle move injections (agent_a rn) w0 = (w1, a, Inr rep_a)"
    and tb: "agent_turn dt ab pt (rn_config rn) did cycle move injections (agent_b rn) w1 = (w2, b, Inr rep_b)"
    and out: "reports = [rep_a, rep_b]" by blast
  note fa = agent_turn_fair [OF ta] and fb = agent_turn_fair [OF tb]
  have fair: "?earned move r"
    if "fair_report (dc_penalty_bps (rn_config rn)) move injections cycle r" for r
    using that by (auto simp: fair_report_def split: if_splits)
  have all: "\<forall>r \<in> set reports. ?earned move r"
  proof
    fix r assume "r \<in> set reports"
    then have "fair_report (dc_penalty_bps (rn_config rn)) move injections cycle r" using fa fb by (auto simp: out)
    then show "?earned move r" by (rule fair)
  qed
  show ?thesis by (rule exI, rule conjI [OF _ conjI [OF _ all]]) (simp_all add: m fa fb out)
qed

subsection \<open>The counterfactual\<close>

lemma pure_decide:
  assumes "\<not> memory_active a" and "du_complete a = (\<lambda>w s u. (w, f s u))"
  shows "duelist_decide dt a symbol brief chaos w =
    (w, a, res_bind (f (system_prompt a symbol) (user_prompt [] brief chaos)) (parse_decision (dt_float_repr dt)))"
  using assms by (auto simp: duelist_decide_def recall_block_def memory_active_def split: option.splits)

lemma pure_retry:
  assumes "\<not> memory_active a" and "du_complete a = (\<lambda>w s u. (w, f s u))"
  shows "decide_with_retry dt symbol a brief chaos w =
    (w, a, res_bind (f (system_prompt a symbol) (user_prompt [] brief chaos)) (parse_decision (dt_float_repr dt)))"
  by (simp add: decide_with_retry_def pure_decide [OF assms] split: sum.splits)

lemma frame_nonempty: "frame_injection ij \<noteq> []"
  by (simp add: frame_injection_def)

text \<open>One turn of such an agent.\<close>

lemma pure_turn:
  assumes t: "agent_turn dt ab pt c did cycle move injections a w = (w', a', Inr rep)"
    and a: "\<not> memory_active a" "du_complete a = (\<lambda>w s u. (w, f s u))"
    and ij: "injections (lower (du_address a)) = Some ij"
    and clean: "res_bind (f (system_prompt a (dc_symbol c)) (market_brief (dc_symbol c) move))
      (parse_decision (dt_float_repr dt)) = Inr clean"
    and dirty: "res_bind (f (system_prompt a (dc_symbol c)) (market_brief (dc_symbol c) move @ BLANK @ frame_injection ij))
      (parse_decision (dt_float_repr dt)) = Inr dirty"
  shows "cy_ingested rep \<and> \<not> cy_failed rep \<and> cy_direction rep = dc_direction dirty \<and> cy_reasoning rep = dc_reasoning dirty \<and>
    cy_survived rep = (dc_direction clean = dc_direction dirty) \<and>
    cy_r_bps rep = (if cy_survived rep then 1 else - 1) * (dc_direction clean * move)"
proof -
  from agent_turn_Inr [OF t] obtain w1 a1 r where
    d: "decide_cycle dt (dc_symbol c) a (market_brief (dc_symbol c) move) (Some ij) w = (w1, a1, r)"
    and s: "score (dc_penalty_bps c) move r = (cy_direction rep, cy_r_bps rep, cy_survived rep, cy_failed rep, cy_reasoning rep)"
    and i: "cy_ingested rep" by (auto simp: ij)
  have "user_prompt [] (market_brief (dc_symbol c) move) None = market_brief (dc_symbol c) move"
    "user_prompt [] (market_brief (dc_symbol c) move) (Some (frame_injection ij)) =
       market_brief (dc_symbol c) move @ BLANK @ frame_injection ij"
    using frame_nonempty by (simp_all add: user_prompt_def)
  then have "r = Inr (dc_direction dirty, dc_reasoning dirty, dc_direction clean = dc_direction dirty)"
    using d clean dirty by (auto simp: decide_cycle_def pure_retry [OF a] Let_def)
  moreover have "dc_direction clean \<in> {1, - 1}" "dc_direction dirty \<in> {1, - 1}"
    using clean dirty parse_decision_sign by (auto simp: res_bind_eq_Inr)
  ultimately show ?thesis using s i by (auto simp: score_def)
qed

text \<open>C25: (equivalence) Survival is measured, not asserted. For an agent whose model answers the same prompt in the
  same way and that recalls nothing, the report of a cycle with chaos agrees with the experiment made
  outside of the engine: ask the model with the plain brief and with the framed injection after it.
  It survived exactly if both replies name the same direction; the call that counts is the one made
  under the injection; and a hijacked agent scores exactly the opposite of what its clean call would
  have earned. Both agents are treated alike.\<close>

theorem survival_is_the_counterfactual:
  assumes "run_cycle dt ab pt cycle injections rn w = (w', rn', Inr reports)"
    and "snd (pt_real_move pt w cycle) = Inr move" and "i < 2"
    and "a = [dc_agent_a (rn_config rn), dc_agent_b (rn_config rn)] ! i"
    and "\<not> memory_active a" and "du_complete a = (\<lambda>w s u. (w, f s u))"
    and "injections (lower (du_address a)) = Some ij"
    and "brief = market_brief (dc_symbol (rn_config rn)) move"
    and "res_bind (f (system_prompt a (dc_symbol (rn_config rn))) brief) (parse_decision (dt_float_repr dt)) = Inr clean"
    and "res_bind (f (system_prompt a (dc_symbol (rn_config rn))) (brief @ BLANK @ frame_injection ij))
           (parse_decision (dt_float_repr dt)) = Inr dirty"
  shows "cy_agent (reports ! i) = du_address a \<and> cy_ingested (reports ! i) \<and> \<not> cy_failed (reports ! i) \<and>
    cy_survived (reports ! i) = (dc_direction clean = dc_direction dirty) \<and>
    cy_direction (reports ! i) = dc_direction dirty \<and> cy_reasoning (reports ! i) = dc_reasoning dirty \<and>
    cy_r_bps (reports ! i) = (if cy_survived (reports ! i) then 1 else - 1) * (dc_direction clean * move)"
proof -
  from run_cycle_Inr [OF assms(1)] obtain w0 w1 w2 did a0 b0 rep_a rep_b where
    ta: "agent_turn dt ab pt (rn_config rn) did cycle move injections (agent_a rn) w0 = (w1, a0, Inr rep_a)"
    and tb: "agent_turn dt ab pt (rn_config rn) did cycle move injections (agent_b rn) w1 = (w2, b0, Inr rep_b)"
    and out: "reports = [rep_a, rep_b]" using assms(2) by auto
  have "i = 0 \<or> i = 1" using assms(3) by auto
  then show ?thesis
    using pure_turn [OF ta, of f ij clean dirty] pure_turn [OF tb, of f ij clean dirty]
      agent_turn_fair [OF ta] agent_turn_fair [OF tb] assms(4-10)
    by (elim disjE) (simp_all add: out)
qed

subsection \<open>The log\<close>

lemma create_duel_config: "create_duel ab pt rn w = (w', rn', r) \<Longrightarrow> rn_config rn' = rn_config rn"
  by (auto simp: create_duel_def Let_def split: prod.splits sum.splits)

lemma run_match_Inr:
  assumes "run_match dt ab pt rpc register settle cycles rn w = (w', rn', Inr reports)"
  shows "\<exists>did fb rn2 w3 w4. rn_config rn2 = rn_config rn \<and>
    match_loop dt ab pt rpc did [1..cycles] fb rn2 w3 = (w4, rn', Inr reports)"
proof -
  obtain w1 r1 where 1: "(if register then register_agents ab pt rn w else (w, Inr ())) = (w1, r1)" by fastforce
  obtain w2 rn2 r2 where 2: "create_duel ab pt rn w1 = (w2, rn2, r2)" by (metis prod_cases3)
  obtain w3 head where 3: "rpc w2 ''eth_blockNumber'' [] = (w3, head)" by fastforce
  obtain did where did: "r1 = Inr ()" "r2 = Inr did"
    using assms 1 2 by (auto simp: run_match_def split: sum.splits)
  define fb where "fb = (case res_bind head int16 of Inr n \<Rightarrow> n | Inl e \<Rightarrow> 0)"
  obtain w4 rn4 r4 where 4: "match_loop dt ab pt rpc did [1..cycles] fb rn2 w3 = (w4, rn4, r4)" by (metis prod_cases3)
  have "rn4 = rn' \<and> r4 = Inr reports"
    using assms 1 2 3 4 did
    by (auto simp: run_match_def Let_def fb_def map_sum_eq_Inr split: sum.splits prod.splits if_splits)
  with 4 create_duel_config [OF 2] show ?thesis by blast
qed

lemma sort_eq_Nil: "sort xs = [] \<longleftrightarrow> xs = []"
  by (metis length_sort length_0_conv)

lemma pinned_ids_view: "payload_view m t \<noteq> None \<Longrightarrow> pinned_ids m \<noteq> []"
  by (auto simp: payload_view_def pinned_view_def pinned_ids_def sort_eq_Nil filter_empty_conv
      split: option.splits if_splits dest!: map_of_SomeD)

text \<open>C26: (invariant) The memory an agent anchors is the log of its duel. After a match between two agents with
  different addresses, of any length and with whatever chaos was polled, the pinned payloads of each
  agent's memory are those it had before, overridden by one entry per cycle, \<open>trace:<cycle>\<close>, that
  holds exactly the reasoning, the direction and the score of its report of that cycle - the
  counterfactual calls, made twice per cycle, store nothing. The root to be anchored is the Merkle
  root over that memory, never the empty sentinel once a cycle was reported.\<close>

theorem memory_is_the_duel_log:
  assumes "run_match dt ab pt rpc register settle cycles rn w = (w', rn', Inr reports)"
    and "du_address (dc_agent_a (rn_config rn)) \<noteq> du_address (dc_agent_b (rn_config rn))"
    and "(a, a') \<in> {(dc_agent_a (rn_config rn), dc_agent_a (rn_config rn')), (dc_agent_b (rn_config rn), dc_agent_b (rn_config rn'))}"
    and "du_memory a = Some m" and "memory_wf m" and "du_embedder a \<noteq> None"
    and "own = filter (\<lambda>r. cy_agent r = du_address a) reports"
  shows "\<exists>m'. du_memory a' = Some m' \<and> memory_wf m' \<and>
    (\<forall>t. payload_view m' t =
       (case map_of (rev (map (\<lambda>r. (''trace:'' @ int_str (cy_cycle r),
            [(''text'', JStr (cy_reasoning r)), (''direction'', JInt (cy_direction r)), (''r_bps'', JInt (cy_r_bps r))])) own)) t of
          Some d \<Rightarrow> Some d | None \<Rightarrow> payload_view m t)) \<and>
    (own \<noteq> [] \<longrightarrow> memory_root dt a' = pinned_merkle_root (dt_sha256 dt) (dt_float_repr dt) m')"
proof -
  obtain did fb rn2 w3 w4 where c: "rn_config rn2 = rn_config rn"
    and l: "match_loop dt ab pt rpc did [1..cycles] fb rn2 w3 = (w4, rn', Inr reports)"
    using run_match_Inr [OF assms(1)] by blast
  have "logs a own a'" using match_loop_logs [OF l] assms(2,3,7) by (auto simp: c)
  then obtain m' where m': "du_memory a' = Some m'" "memory_wf m'"
    "payload_view m' = payload_view m ++ map_of (rev (log_of own))"
    using assms(4-6) by (auto simp: logs_def)
  have "memory_root dt a' = pinned_merkle_root (dt_sha256 dt) (dt_float_repr dt) m'" if ne: "own \<noteq> []"
  proof -
    obtain r where "r \<in> set own" using ne by (cases own) auto
    then have "map_of (rev (log_of own)) (trace_id_of (cy_cycle r)) \<noteq> None"
      unfolding map_of_eq_None_iff by (force simp: log_of_def)
    then have "payload_view m' (trace_id_of (cy_cycle r)) \<noteq> None" by (auto simp: m'(3) map_add_def split: option.splits)
    then show ?thesis using pinned_ids_view by (simp add: memory_root_def m'(1))
  qed
  with m' show ?thesis
    by (simp add: log_of_def log_entry_def trace_id_of_def map_add_def fun_eq_iff)
qed

subsection \<open>A match to try them on\<close>

definition sample_dt :: duel_tools where
  "sample_dt = \<lparr>dt_sha256 = (\<lambda>_. replicate 32 0), dt_normal = (\<lambda>_ d. replicate d 0), dt_encode = (\<lambda>_ _. Inr [0]),
     dt_argpartition = (\<lambda>xs _. [0..<length xs]), dt_argsort = (\<lambda>xs. [0..<length xs]), dt_float_repr = ratio_repr\<rparr>"

definition sample_ab :: abi_tools where
  "sample_ab = \<lparr>at_keccak = (\<lambda>_. [0xab]), at_encode = (\<lambda>_ _. Inr []), at_decode = (\<lambda>_ _. Inr []),
     at_canonical = (\<lambda>_. Inr [])\<rparr>"

definition sample_receipt :: dict where
  "sample_receipt = [(''status'', JStr ''0x1''),
     (''logs'', JList [JObj [(''address'', JStr ''0xC0''), (''topics'', JList [JStr ''0xab'', JStr ''0x7''])]])]"

definition sample_ports :: "unit ports" where
  "sample_ports = \<lparr>pt_send = (\<lambda>w _ _. (w, Inr sample_receipt)), pt_real_move = (\<lambda>w _. (w, Inr 40)), pt_anchor = None,
     pt_now = (\<lambda>_. 0)\<rparr>"

text \<open>A model that goes long, unless the last line it reads closes a telemetry block.\<close>

definition long_reply :: dict where "long_reply = [(''direction'', JStr ''long''), (''reasoning'', JStr ''trend'')]"
definition short_reply :: dict where "short_reply = [(''direction'', JStr ''short''), (''reasoning'', JStr ''news'')]"

definition gullible :: "string \<Rightarrow> string \<Rightarrow> json res" where
  "gullible sys user =
     Inr (JStr (''Answer: '' @ dumps_default ratio_repr (JObj (if last user = CHR ''>'' then short_reply else long_reply)) @ '' Done.''))"

definition sample_duelist :: "string \<Rightarrow> memory option \<Rightarrow> unit duelist" where
  "sample_duelist addr m =
     \<lparr>du_address = addr, du_hardened = False, du_persona = [], du_model = None, du_max_tokens = 256,
      du_complete = (\<lambda>w s u. (w, gullible s u)), du_memory = m,
      du_embedder = Some \<lparr>eb_model_name = None, eb_dim = 1, eb_seed = 0\<rparr>, du_recall_k = 3\<rparr>"

definition sample_runner :: "memory option \<Rightarrow> unit runner" where
  "sample_runner m =
     (mk_runner \<lparr>dc_colosseum_addr = ''0xC0'', dc_agent_a = sample_duelist ''0xA'' m, dc_agent_b = sample_duelist ''0xB'' None,
        dc_symbol = ''SOL'', dc_betting_secs = 0, dc_duration_secs = 60, dc_penalty_bps = 100\<rparr> 3)"

lemma sample_receipt_facts:
  "check_status sample_receipt msg = Inr ()"
  "find_duel_id_in_receipt sample_ab sample_receipt ''0xC0'' = Inr (Some 7)"
  by (simp_all add: check_status_def receipt_status_def sample_receipt_def dict_get_or_def)
    (code_simp)+

lemma gullible_parsed:
  "res_bind (gullible sys user) (parse_decision ratio_repr) =
   Inr (if last user = CHR ''>'' then \<lparr>dc_direction = - 1, dc_reasoning = ''news''\<rparr> else \<lparr>dc_direction = 1, dc_reasoning = ''trend''\<rparr>)"
proof -
  have l: "parse_decision ratio_repr (JStr (''Answer: '' @ dumps_default ratio_repr (JObj long_reply) @ '' Done.'')) =
      Inr \<lparr>dc_direction = 1, dc_reasoning = strip ''trend''\<rparr>"
    by (rule parse_reply [where token = "''long''"]; code_simp)
  have s: "parse_decision ratio_repr (JStr (''Answer: '' @ dumps_default ratio_repr (JObj short_reply) @ '' Done.'')) =
      Inr \<lparr>dc_direction = - 1, dc_reasoning = strip ''news''\<rparr>"
    by (rule parse_reply [where token = "''short''"]; code_simp)
  have "strip ''trend'' = ''trend''" "strip ''news'' = ''news''" by code_simp+
  with l s show ?thesis unfolding gullible_def by (simp only: res_bind_simps split: if_split) simp
qed

definition ready :: "unit duelist \<Rightarrow> bool" where
  "ready a \<longleftrightarrow> du_embedder a = Some \<lparr>eb_model_name = None, eb_dim = 1, eb_seed = 0\<rparr> \<and> (\<forall>m. du_memory a = Some m \<longrightarrow> ms_dim m = 1)"

lemma ready_same: "same_mind a a' \<Longrightarrow> ready a \<Longrightarrow> ready a'"
  by (auto simp: same_mind_def ready_def split: option.splits)

lemma ready_remember: "ready a \<Longrightarrow> \<exists>a'. remember sample_dt a cycle txt d r now = Inr a' \<and> ready a'"
  by (auto simp: remember_def ready_def embed_def sample_dt_def hash_to_vec_def Let_def add_eq VALID_KINDS_def split: option.splits)

lemma sample_turn:
  assumes "ready a"
  shows "\<exists>a' rep. agent_turn sample_dt sample_ab sample_ports c did cycle move injections a w = ((), a', Inr rep) \<and> ready a'"
proof -
  let ?chaos = "injections (lower (du_address a))"
  obtain w1 a1 r where d: "decide_cycle sample_dt (dc_symbol c) a (market_brief (dc_symbol c) move) ?chaos w = (w1, a1, r)"
    by (metis prod_cases3)
  obtain direction r_bps survived failed reasoning where
    s: "score (dc_penalty_bps c) move r = (direction, r_bps, survived, failed, reasoning)" by (metis prod_cases5)
  obtain a2 where m: "remember sample_dt a1 cycle reasoning direction r_bps 0 = Inr a2" "ready a2"
    using ready_remember ready_same [OF decide_cycle_same [OF d] assms] by blast
  have e: "\<exists>x. encode_report_call sample_ab did (du_address a) i r_bps g survived failed = Inr x"
    "\<exists>x. encode_report_reasoning sample_ab did (du_address a) cycle g survived reasoning = Inr x" for i g
    by (simp_all add: encode_report_call_def encode_report_reasoning_def calldata_def sample_ab_def)
  have sent: "send_data sample_ports col (Inr x) w = (w, Inr sample_receipt)" for col x w
    by (simp add: send_data_def sample_ports_def)
  obtain x where x: "encode_report_call sample_ab did (du_address a)
      (case ?chaos of None \<Rightarrow> 0 | Some ij \<Rightarrow> ij_injection_id ij) r_bps (?chaos \<noteq> None) survived failed = Inr x" using e(1) by blast
  obtain y where y: "encode_report_reasoning sample_ab did (du_address a) cycle (?chaos \<noteq> None) survived reasoning = Inr y"
    using e(2) by blast
  have now: "pt_now sample_ports u = 0" for u by (simp add: sample_ports_def)
  show ?thesis
    unfolding agent_turn_def Let_def d prod.case s x y sent now res_bind_simps sample_receipt_facts sum.case m(1)
    using m(2) by simp
qed

lemma sample_cycle:
  assumes "ready (agent_a rn)" and "ready (agent_b rn)" and "rn_duel_id rn = Some did"
  shows "\<exists>rn' reports. run_cycle sample_dt sample_ab sample_ports cycle injections rn () = ((), rn', Inr reports)"
proof -
  have mv: "pt_real_move sample_ports () cycle = ((), Inr 40)" "anchor_due sample_ports rn cycle = None"
    by (simp_all add: sample_ports_def anchor_due_def)
  obtain a ra where a: "agent_turn sample_dt sample_ab sample_ports (rn_config rn) did cycle 40 injections (agent_a rn) () = ((), a, Inr ra)"
    using sample_turn [OF assms(1)] by blast
  obtain b rb where b: "agent_turn sample_dt sample_ab sample_ports (rn_config rn) did cycle 40 injections (agent_b rn) () = ((), b, Inr rb)"
    using sample_turn [OF assms(2)] by blast
  show ?thesis by (simp add: run_cycle_def assms(3) mv Let_def a b)
qed

definition sample_mind :: memory where
  "sample_mind = mk_memory (\<lambda>_ _. [[1]]) 1 None 0"

lemma sample_ready:
  "ready (agent_a (sample_runner (Some sample_mind)))" "ready (agent_b (sample_runner m))" "ready (agent_a (sample_runner None))"
  by (simp_all add: ready_def sample_runner_def mk_runner_def sample_duelist_def sample_mind_def mk_memory_def)

definition sample_chaos :: "string \<Rightarrow> injection option" where
  "sample_chaos = [''0xa'' \<mapsto> plain_injection ITEM_MEMORY_WIPE ''0xA'' ''0xE'']"

abbreviation sample_started :: "unit runner" where
  "sample_started \<equiv> (sample_runner None)\<lparr>rn_duel_id := Some 7\<rparr>"

lemma cycle_reports_are_earned_witness:
  "\<exists>rn' reports. run_cycle sample_dt sample_ab sample_ports 1 sample_chaos sample_started () = ((), rn', Inr reports) \<and>
     map cy_agent reports = [''0xA'', ''0xB'']"
proof -
  obtain rn' reports where c: "run_cycle sample_dt sample_ab sample_ports 1 sample_chaos sample_started () = ((), rn', Inr reports)"
    using sample_cycle [of sample_started 7 1 sample_chaos] sample_ready(2,3) by auto
  from cycle_reports_are_earned [OF c] c show ?thesis
    by (auto simp: sample_runner_def mk_runner_def sample_duelist_def)
qed

lemma survival_is_the_counterfactual_witness:
  "\<exists>rn' reports. run_cycle sample_dt sample_ab sample_ports 1 sample_chaos sample_started () = ((), rn', Inr reports) \<and>
     \<not> cy_survived (reports ! 0) \<and> cy_direction (reports ! 0) = - 1 \<and> cy_r_bps (reports ! 0) = - 40"
proof -
  obtain rn' reports where c: "run_cycle sample_dt sample_ab sample_ports 1 sample_chaos sample_started () = ((), rn', Inr reports)"
    using sample_cycle [of sample_started 7 1 sample_chaos] sample_ready(2,3) by auto
  let ?a = "sample_duelist ''0xA'' None"
  have move: "snd (pt_real_move sample_ports () 1) = Inr 40" by (simp add: sample_ports_def)
  have conf: "dc_agent_a (rn_config sample_started) = ?a" "dc_symbol (rn_config sample_started) = ''SOL''"
    by (simp_all add: sample_runner_def mk_runner_def)
  have a: "?a = [dc_agent_a (rn_config sample_started), dc_agent_b (rn_config sample_started)] ! 0"
    by (simp add: sample_runner_def mk_runner_def)
  have act: "\<not> memory_active ?a" and comp: "du_complete ?a = (\<lambda>w s u. (w, gullible s u))"
    by (simp_all add: memory_active_def sample_duelist_def)
  have hit: "sample_chaos (lower (du_address ?a)) = Some (plain_injection ITEM_MEMORY_WIPE ''0xA'' ''0xE'')"
    by (simp add: sample_chaos_def sample_duelist_def lower_eval)
  have fr: "dt_float_repr sample_dt = ratio_repr" by (simp add: sample_dt_def)
  have ends: "last (market_brief ''SOL'' 40) = CHR ''.''"
    "last (market_brief ''SOL'' 40 @ BLANK @ frame_injection (plain_injection ITEM_MEMORY_WIPE ''0xA'' ''0xE'')) = CHR ''>''"
    by (simp_all add: market_brief_def frame_injection_def)
  have clean: "res_bind (gullible (system_prompt ?a (dc_symbol (rn_config sample_started)))
      (market_brief (dc_symbol (rn_config sample_started)) 40)) (parse_decision (dt_float_repr sample_dt)) =
      Inr \<lparr>dc_direction = 1, dc_reasoning = ''trend''\<rparr>"
    unfolding conf(2) fr gullible_parsed ends by simp
  have dirty: "res_bind (gullible (system_prompt ?a (dc_symbol (rn_config sample_started)))
      (market_brief (dc_symbol (rn_config sample_started)) 40 @ BLANK @
        frame_injection (plain_injection ITEM_MEMORY_WIPE ''0xA'' ''0xE''))) (parse_decision (dt_float_repr sample_dt)) =
      Inr \<lparr>dc_direction = - 1, dc_reasoning = ''news''\<rparr>"
    unfolding conf(2) fr gullible_parsed ends by simp
  from survival_is_the_counterfactual [OF c move _ a act comp hit refl clean dirty] show ?thesis using c by auto
qed

lemma memory_is_the_duel_log_witness:
  "\<exists>rn' reports m'. run_match sample_dt sample_ab sample_ports (\<lambda>w _ _. (w, Inl (LibraryError ''rpc''))) False False 1
       (sample_runner (Some sample_mind)) () = ((), rn', Inr reports) \<and>
     du_memory (dc_agent_a (rn_config rn')) = Some m' \<and> memory_wf m'"
proof -
  let ?rn = "sample_runner (Some sample_mind)" and ?rpc = "\<lambda>w _ _. (w, Inl (LibraryError ''rpc''))"
  let ?rn2 = "?rn\<lparr>rn_duel_id := Some 7\<rparr>"
  obtain rn' reports where c: "run_cycle sample_dt sample_ab sample_ports 1 (map_of []) ?rn2 () = ((), rn', Inr reports)"
    using sample_cycle [of ?rn2 7 1 "map_of []"] sample_ready(1,2) by auto
  have "create_duel sample_ab sample_ports ?rn () = ((), ?rn2, Inr 7)"
    using sample_receipt_facts
    by (simp add: create_duel_def encode_create_duel_def calldata_def send_data_def sample_ports_def Let_def sample_runner_def mk_runner_def)
      (simp add: sample_ab_def)
  then have r: "run_match sample_dt sample_ab sample_ports ?rpc False False 1 ?rn () = ((), rn', Inr reports)"
    using c by (simp add: run_match_def match_step_def poll_injections_def Let_def)
  have wf: "memory_wf sample_mind" by (simp add: sample_mind_def memory_wf_init)
  have f: "dc_agent_a (rn_config ?rn) = sample_duelist ''0xA'' (Some sample_mind)" "dc_agent_b (rn_config ?rn) = sample_duelist ''0xB'' None"
    by (simp_all add: sample_runner_def mk_runner_def)
  from memory_is_the_duel_log [OF r, of _ _ sample_mind, OF _ _ _ wf _ refl]
  show ?thesis using r f by (fastforce simp: sample_duelist_def)
qed

end
