(* ===== verification/Arena_Properties.thy ===== *)
theory Arena_Properties
  imports Arena Duel_Properties "HOL-Library.Multiset"
begin

text \<open>
  The properties of the matchmaker (\<open>agents/arena.py\<close>): the leaderboard is the ledger of the
  reports, and a run ends with one duel per pair whatever goes wrong inside the duels.
\<close>

subsection \<open>Rankings\<close>

lemma mset_sorted_desc [simp]: "mset (sorted_desc key xs) = mset xs"
  by (simp add: sorted_desc_def)

lemma sorted_desc_descends: "sorted_wrt (\<lambda>x y. key y \<le> key x) (sorted_desc key xs)"
proof -
  have "sorted_wrt (\<lambda>x y. key x \<le> key y) (sort_key key (rev xs))"
    using sorted_sort_key [of key "rev xs"] by (simp add: sorted_map)
  then show ?thesis by (simp add: sorted_desc_def sorted_wrt_rev)
qed

subsection \<open>Aggregation\<close>

text \<open>The slot of an agent is the sum of its reports.\<close>

definition slot_of :: "cycle_report list \<Rightarrow> string \<Rightarrow> slot" where
  "slot_of rs addr =
     (let own = filter (\<lambda>r. cy_agent r = addr) rs
      in (sum_list (map cy_r_bps own), int (length (filter cy_ingested own)),
          int (length (filter (\<lambda>r. cy_ingested r \<and> cy_survived r) own))))"

lemma slot_of_snoc:
  "slot_of (rs @ [r]) addr = (if cy_agent r = addr then add_report r (slot_of rs addr) else slot_of rs addr)"
  by (simp add: slot_of_def Let_def add_report_def)

lemma slot_of_absent: "addr \<notin> cy_agent ` set rs \<Longrightarrow> slot_of rs addr = (0, 0, 0)"
proof -
  assume "addr \<notin> cy_agent ` set rs"
  then have "filter (\<lambda>r. cy_agent r = addr) rs = []" by (auto simp: filter_empty_conv)
  then show ?thesis by (simp add: slot_of_def)
qed

lemma map_of_tally:
  "map_of (tally agg r) addr =
     (if addr = cy_agent r then Some (add_report r (case map_of agg (cy_agent r) of None \<Rightarrow> (0, 0, 0) | Some s \<Rightarrow> s))
      else map_of agg addr)"
  by (simp add: tally_def update_conv')

lemma keys_tally:
  "distinct (map fst agg) \<Longrightarrow> distinct (map fst (tally agg r))"
  "fst ` set (tally agg r) = insert (cy_agent r) (fst ` set agg)"
  by (simp_all add: tally_def distinct_update dom_map_of_conv_image_fst [symmetric] update_conv')

lemma foldl_tally:
  "distinct (map fst (foldl tally [] rs)) \<and> fst ` set (foldl tally [] rs) = cy_agent ` set rs \<and>
   (\<forall>addr. map_of (foldl tally [] rs) addr = (if addr \<in> cy_agent ` set rs then Some (slot_of rs addr) else None))"
proof (induction rs rule: rev_induct)
  case (snoc r rs)
  then have "map_of (foldl tally [] (rs @ [r])) addr =
      (if addr \<in> cy_agent ` set (rs @ [r]) then Some (slot_of (rs @ [r]) addr) else None)" for addr
    using slot_of_absent [of "cy_agent r" rs] by (auto simp: map_of_tally slot_of_snoc)
  with snoc show ?case by (simp add: keys_tally)
qed simp

definition standing_of :: "cycle_report list \<Rightarrow> string \<Rightarrow> standing" where
  "standing_of rs addr =
     (let (alpha, ingested, survived) = slot_of rs addr
      in \<lparr>sd_address = addr, sd_alpha_bps = alpha, sd_ingested = ingested, sd_survived = survived\<rparr>)"

lemma aggregate_eq:
  "\<exists>addrs. distinct addrs \<and> set addrs = cy_agent ` set rs \<and> aggregate rs = map (standing_of rs) addrs"
proof (intro exI conjI)
  let ?agg = "foldl tally [] rs"
  show "distinct (map fst ?agg)" "set (map fst ?agg) = cy_agent ` set rs" using foldl_tally [of rs] by simp_all
  show "aggregate rs = map (standing_of rs) (map fst ?agg)"
  proof -
    have "(addr, s) \<in> set ?agg \<Longrightarrow> s = slot_of rs addr" for addr s
      using foldl_tally [of rs] map_of_is_SomeI by (metis option.inject option.distinct(1))
    then show ?thesis by (force simp: aggregate_def standing_of_def split: prod.splits)
  qed
qed

lemma slot_of_bounds:
  assumes "slot_of rs addr = (alpha, ingested, survived)"
  shows "0 \<le> survived \<and> survived \<le> ingested"
proof -
  let ?own = "filter (\<lambda>r. cy_agent r = addr) rs"
  have "filter (\<lambda>r. cy_ingested r \<and> cy_survived r) ?own = filter cy_survived (filter cy_ingested ?own)" by (simp add: conj_ac)
  then have "length (filter (\<lambda>r. cy_ingested r \<and> cy_survived r) ?own) \<le> length (filter cy_ingested ?own)"
    by (metis length_filter_le)
  then show ?thesis using assms by (simp add: slot_of_def Let_def)
qed

text \<open>What is added to the slots is added to their total.\<close>

definition total_alpha :: "(string \<times> slot) list \<Rightarrow> int" where
  "total_alpha agg = sum_list (map (\<lambda>kv. fst (snd kv)) agg)"

lemma total_update:
  "total_alpha (AList.update k v agg) = total_alpha agg + fst v - (case map_of agg k of None \<Rightarrow> 0 | Some s \<Rightarrow> fst s)"
  by (induction agg) (auto simp: total_alpha_def split: option.splits)

lemma total_tally: "total_alpha (tally agg r) = total_alpha agg + cy_r_bps r"
  by (auto simp: tally_def total_update add_report_def split: option.splits prod.splits)

lemma total_foldl: "total_alpha (foldl tally agg rs) = total_alpha agg + sum_list (map cy_r_bps rs)"
  by (induction rs arbitrary: agg) (simp_all add: total_tally)

lemma aggregate_total: "sum_list (map sd_alpha_bps (aggregate rs)) = sum_list (map cy_r_bps rs)"
proof -
  have "map sd_alpha_bps (aggregate rs) = map (\<lambda>kv. fst (snd kv)) (foldl tally [] rs)"
    by (auto simp: aggregate_def)
  then show ?thesis using total_foldl [of "[]" rs] by (simp add: total_alpha_def)
qed

text \<open>C27: (functional) The leaderboard is the ledger of the reports. Every agent that reported has exactly one
  standing; its alpha is the sum of its scores, its counts are those of its reports that ingested
  chaos and that survived it, so that its resilience is a proportion; the alphas of all standings add
  up to the scores of all reports. Both rankings are permutations of the standings, the first falling
  in alpha, the second in resilience with alpha deciding among equals.\<close>

theorem leaderboard_is_the_ledger:
  "distinct (map sd_address (aggregate rs)) \<and> set (map sd_address (aggregate rs)) = set (map cy_agent rs) \<and>
   (\<forall>s \<in> set (aggregate rs).
      sd_alpha_bps s = sum_list (map cy_r_bps (filter (\<lambda>r. cy_agent r = sd_address s) rs)) \<and>
      sd_ingested s = int (length (filter (\<lambda>r. cy_agent r = sd_address s \<and> cy_ingested r) rs)) \<and>
      sd_survived s = int (length (filter (\<lambda>r. cy_agent r = sd_address s \<and> cy_ingested r \<and> cy_survived r) rs)) \<and>
      0 \<le> resilience s \<and> resilience s \<le> 1) \<and>
   sum_list (map sd_alpha_bps (aggregate rs)) = sum_list (map cy_r_bps rs) \<and>
   mset (alpha_ranking (aggregate rs)) = mset (aggregate rs) \<and>
   sorted_wrt (\<lambda>s t. sd_alpha_bps t \<le> sd_alpha_bps s) (alpha_ranking (aggregate rs)) \<and>
   mset (shield_ranking (aggregate rs)) = mset (aggregate rs) \<and>
   sorted_wrt (\<lambda>s t. resilience t < resilience s \<or> resilience t = resilience s \<and> sd_alpha_bps t \<le> sd_alpha_bps s)
     (shield_ranking (aggregate rs))"
proof -
  obtain addrs where a: "distinct addrs" "set addrs = cy_agent ` set rs" "aggregate rs = map (standing_of rs) addrs"
    using aggregate_eq by blast
  have addr: "sd_address (standing_of rs x) = x" for x by (simp add: standing_of_def split: prod.splits)
  then have names: "map sd_address (aggregate rs) = addrs" by (simp add: a(3) comp_def)
  have each: "sd_alpha_bps s = sum_list (map cy_r_bps (filter (\<lambda>r. cy_agent r = sd_address s) rs)) \<and>
      sd_ingested s = int (length (filter (\<lambda>r. cy_agent r = sd_address s \<and> cy_ingested r) rs)) \<and>
      sd_survived s = int (length (filter (\<lambda>r. cy_agent r = sd_address s \<and> cy_ingested r \<and> cy_survived r) rs)) \<and>
      0 \<le> resilience s \<and> resilience s \<le> 1" if s: "s \<in> set (aggregate rs)" for s
  proof -
    obtain x where x: "s = standing_of rs x" using s by (auto simp: a(3))
    obtain alpha ingested survived where sl: "slot_of rs x = (alpha, ingested, survived)" by (metis prod_cases3)
    have "0 \<le> resilience s \<and> resilience s \<le> 1"
      using slot_of_bounds [OF sl] by (auto simp: x standing_of_def sl resilience_def divide_le_eq_1)
    then show ?thesis using sl by (auto simp: x standing_of_def slot_of_def Let_def conj_ac)
  qed
  have shield: "sorted_wrt (\<lambda>s t. resilience t < resilience s \<or> resilience t = resilience s \<and> sd_alpha_bps t \<le> sd_alpha_bps s)
     (shield_ranking (aggregate rs))"
    unfolding shield_ranking_def
    by (rule sorted_wrt_mono_rel [OF _ sorted_desc_descends]) (auto simp: less_eq_prod_def)
  show ?thesis
    unfolding names using a(1,2) each shield aggregate_total [of rs] sorted_desc_descends [of sd_alpha_bps "aggregate rs"]
    by (simp add: alpha_ranking_def) (simp add: shield_ranking_def)
qed

definition sample_reports :: "cycle_report list" where
  "sample_reports =
     [\<lparr>cy_cycle = 1, cy_agent = ''0xA'', cy_direction = 1, cy_r_bps = 40, cy_ingested = True, cy_survived = True,
       cy_failed = False, cy_reasoning = [], cy_tx_hash = JNull\<rparr>,
      \<lparr>cy_cycle = 1, cy_agent = ''0xB'', cy_direction = - 1, cy_r_bps = - 40, cy_ingested = True, cy_survived = False,
       cy_failed = False, cy_reasoning = [], cy_tx_hash = JNull\<rparr>,
      \<lparr>cy_cycle = 2, cy_agent = ''0xA'', cy_direction = 0, cy_r_bps = - 100, cy_ingested = False, cy_survived = False,
       cy_failed = True, cy_reasoning = [], cy_tx_hash = JNull\<rparr>]"

lemma leaderboard_is_the_ledger_witness:
  "aggregate sample_reports =
     [\<lparr>sd_address = ''0xA'', sd_alpha_bps = - 60, sd_ingested = 1, sd_survived = 1\<rparr>,
      \<lparr>sd_address = ''0xB'', sd_alpha_bps = - 40, sd_ingested = 1, sd_survived = 0\<rparr>] \<and>
   sum_list (map sd_alpha_bps (aggregate sample_reports)) = - 100 \<and>
   mset (alpha_ranking (aggregate sample_reports)) = mset (aggregate sample_reports)"
proof -
  have "aggregate sample_reports =
     [\<lparr>sd_address = ''0xA'', sd_alpha_bps = - 60, sd_ingested = 1, sd_survived = 1\<rparr>,
      \<lparr>sd_address = ''0xB'', sd_alpha_bps = - 40, sd_ingested = 1, sd_survived = 0\<rparr>]"
    by (simp add: sample_reports_def aggregate_def tally_def add_report_def)
  moreover have "sum_list (map cy_r_bps sample_reports) = - 100" by (simp add: sample_reports_def)
  ultimately show ?thesis
    using leaderboard_is_the_ledger [of sample_reports] by (elim conjE) (intro conjI, assumption, simp, assumption)
qed

subsection \<open>A duel of the arena\<close>

lemma run_cycle_agents:
  assumes "run_cycle dt ab pt cycle injections rn w = (w', rn', Inr reports)"
  shows "map (\<lambda>r. (cy_agent r, cy_cycle r)) reports = [(du_address (agent_a rn), cycle), (du_address (agent_b rn), cycle)] \<and>
    du_address (agent_a rn') = du_address (agent_a rn) \<and> du_address (agent_b rn') = du_address (agent_b rn)"
proof -
  from run_cycle_Inr [OF assms] obtain w0 w1 w2 move did a b rep_a rep_b where
    ta: "agent_turn dt ab pt (rn_config rn) did cycle move injections (agent_a rn) w0 = (w1, a, Inr rep_a)"
    and tb: "agent_turn dt ab pt (rn_config rn) did cycle move injections (agent_b rn) w1 = (w2, b, Inr rep_b)"
    and out: "rn' = set_b b (set_a a rn)" "reports = [rep_a, rep_b]" by blast
  show ?thesis
    using agent_turn_logs [OF ta] agent_turn_logs [OF tb] agent_turn_fair [OF ta] agent_turn_fair [OF tb]
    by (simp add: out logs_def fair_report_def)
qed

text \<open>
  The reports of the steps from \<open>k + 1\<close> on: their cycle numbers lie above every number used so far
  and not above the last step, each agent has at most one report per number, and there are at most
  two reports per step.
\<close>

definition orderly :: "'w runner \<Rightarrow> int \<Rightarrow> int \<Rightarrow> cycle_report list \<Rightarrow> bool" where
  "orderly rn low high rs \<longleftrightarrow>
     (\<forall>r \<in> set rs. low < cy_cycle r \<and> cy_cycle r \<le> high \<and>
        cy_agent r \<in> {du_address (agent_a rn), du_address (agent_b rn)}) \<and>
     (du_address (agent_a rn) \<noteq> du_address (agent_b rn) \<longrightarrow> distinct (map (\<lambda>r. (cy_agent r, cy_cycle r)) rs))"

lemma orderly_Nil [simp]: "orderly rn low high []"
  by (simp add: orderly_def)

lemma orderly_append:
  assumes "orderly rn low mid rs" and "orderly rn' mid' high rs'" and "mid \<le> mid'" and "low \<le> mid" and "mid \<le> high"
    and "du_address (agent_a rn') = du_address (agent_a rn)" and "du_address (agent_b rn') = du_address (agent_b rn)"
  shows "orderly rn low high (rs @ rs')"
  using assms unfolding orderly_def by (fastforce simp: image_iff)

lemma arena_steps_orderly:
  "arena_steps dt ab pt ap ar did static_inj [k + 1..T] fb extra rn w = (w', rn', rs, r) \<Longrightarrow>
   extra = 0 \<or> ar_cycles ar \<le> k \<Longrightarrow> 0 \<le> extra \<Longrightarrow> ar_cycles ar + extra \<le> max k (ar_cycles ar) \<Longrightarrow> k \<le> T \<Longrightarrow>
   orderly rn (min k (ar_cycles ar) + extra) T rs \<and> length rs \<le> 2 * nat (T - k)"
proof (induction "nat (T - k)" arbitrary: k fb extra rn w w' rn' rs r)
  case 0
  then show ?case by simp
next
  case (Suc n)
  define rest where "rest = [k + 1 + 1..T]"
  have up: "[k + 1..T] = (k + 1) # rest" and kT: "k + 1 \<le> T" and n: "n = nat (T - (k + 1))"
    using Suc.hyps(2) by (auto simp: rest_def upto_rec1)
  obtain w1 ij fb' where 1: "poll_step ap did static_inj fb w = (w1, ij, fb')" by (metis prod_cases3)
  obtain cyc extra' where 2: "scheduled ar (k + 1) extra ij = (cyc, extra')" by fastforce
  obtain w2 rn2 r2 where 3: "(case cyc of None \<Rightarrow> (w1, rn, Inr []) | Some c \<Rightarrow> run_cycle dt ab pt c (chaos_map ij) rn w1) = (w2, rn2, r2)"
    by (metis prod_cases3)
  show ?case
  proof (cases r2)
    case (Inl e)
    then show ?thesis using Suc.prems(1) by (simp add: up 1 2 3)
  next
    case (Inr reports)
    obtain w3 slept where 4: "(if 0 < interval_of ar \<and> k + 1 < total_steps ar then ap_sleep ap w2 (of_int (interval_of ar)) else (w2, Inr ())) = (w3, slept)"
      by fastforce
    define low' where "low' = min (k + 1) (ar_cycles ar) + extra'"
    have ex: "extra' = 0 \<or> ar_cycles ar \<le> k + 1" "0 \<le> extra'" "ar_cycles ar + extra' \<le> max (k + 1) (ar_cycles ar)"
      "min k (ar_cycles ar) + extra \<le> low'" "cyc = None \<or> cyc = Some low' \<and> min k (ar_cycles ar) + extra < low'" "low' \<le> T"
      using 2 Suc.prems(2-4) kT by (auto simp: scheduled_def low'_def split: if_splits)
    have one: "orderly rn (min k (ar_cycles ar) + extra) low' reports \<and> length reports \<le> 2 \<and>
        du_address (agent_a rn2) = du_address (agent_a rn) \<and> du_address (agent_b rn2) = du_address (agent_b rn)"
    proof (cases cyc)
      case None
      then show ?thesis using 3 Inr by simp
    next
      case (Some c)
      then have c: "run_cycle dt ab pt c (chaos_map ij) rn w1 = (w2, rn2, Inr reports)" using 3 Inr by simp
      from run_cycle_agents [OF c] ex(5) Some show ?thesis
        by (auto simp: orderly_def map_eq_Cons_conv)
    qed
    have two: "2 + 2 * nat (T - (k + 1)) = 2 * nat (T - k)" using kT by simp
    show ?thesis
    proof (cases slept)
      case (Inl e)
      then have "rs = reports" using Suc.prems(1) Inr by (simp add: up 1 2 3 4)
      then show ?thesis using orderly_append [of rn _ low' reports rn2 low' T "[]"] one ex two by simp
    next
      case (Inr u)
      obtain w4 rn4 more fin where 5: "arena_steps dt ab pt ap ar did static_inj rest fb' extra' rn2 w3 = (w4, rn4, more, fin)"
        by (metis prod_cases4)
      have rs: "rs = reports @ more" using Suc.prems(1) \<open>r2 = Inr reports\<close> Inr by (simp add: up 1 2 3 4 5)
      have "orderly rn2 low' T more \<and> length more \<le> 2 * nat (T - (k + 1))"
        unfolding low'_def by (rule Suc.hyps(1) [OF n 5 [unfolded rest_def] ex(1-3) kT])
      with one ex two show ?thesis
        using orderly_append [of rn _ low' reports rn2 low' T more] by (auto simp: rs)
    qed
  qed
qed

lemma play_duel_orderly:
  assumes "play_duel dt ab pt ap ar did static_inj rn w = (w', rn', rs)" and "0 \<le> ar_cycles ar"
  shows "orderly rn 0 (total_steps ar) rs \<and> length rs \<le> 2 * nat (total_steps ar)"
proof -
  obtain w1 t0 where 1: "ap_monotonic ap w = (w1, t0)" by fastforce
  obtain w2 rn2 reports r where 2: "arena_steps dt ab pt ap ar did static_inj [0 + 1..total_steps ar] 0 0 rn w1 = (w2, rn2, reports, r)"
    by (metis prod_cases4)
  have rs: "rs = reports" using assms(1) 2 by (auto simp: play_duel_def 1 Let_def split: prod.splits)
  show ?thesis
  proof (cases "0 \<le> total_steps ar")
    case True
    then show ?thesis using arena_steps_orderly [OF 2] assms(2) by (simp add: rs)
  next
    case False
    then show ?thesis using 2 by (simp add: rs)
  qed
qed

subsection \<open>All pairs\<close>

definition creates :: "abi_tools \<Rightarrow> 'w ports \<Rightarrow> arena \<Rightarrow> bool" where
  "creates ab pt ar \<longleftrightarrow>
     (\<forall>w a b. \<exists>w' rn did. create_duel ab pt (mk_runner (duel_config_of ar a b) 3) w = (w', rn, Inr did))"

abbreviation both :: "('a \<times> 'a) list \<Rightarrow> 'a list" where
  "both ps \<equiv> concat (map (\<lambda>(a, b). [a, b]) ps)"

lemma length_pairs: "length (pairs xs) = length xs div 2"
  by (induction xs rule: pairs.induct) auto

lemma both_pairs: "both (pairs xs) = take (2 * (length xs div 2)) xs"
  by (induction xs rule: pairs.induct) auto

lemma run_pairs_finishes:
  assumes "creates ab pt ar" and cyc: "0 \<le> ar_cycles ar"
  shows "\<exists>w' played dids rs. run_pairs dt ab pt ap ar per_duel j ps w = (w', played, Inr (dids, rs)) \<and>
    length dids = length ps \<and> length rs \<le> 2 * nat (total_steps ar) * length ps \<and>
    (\<forall>r \<in> set rs. 0 < cy_cycle r \<and> cy_cycle r \<le> total_steps ar \<and> cy_agent r \<in> du_address ` set (both ps)) \<and>
    (distinct (map du_address (both ps)) \<longrightarrow> distinct (map (\<lambda>r. (cy_agent r, cy_cycle r)) rs))"
proof (induction ps arbitrary: j w)
  case (Cons p ps)
  obtain a b where p: "p = (a, b)" by fastforce
  define bs where "bs = both ps"
  have bs: "both (p # ps) = a # b # bs" by (simp add: p bs_def)
  obtain w1 rn1 did where c: "create_duel ab pt (mk_runner (duel_config_of ar a b) 3) w = (w1, rn1, Inr did)"
    using assms(1) unfolding creates_def by blast
  obtain w2 rn2 reports where d: "play_duel dt ab pt ap ar did (static_for per_duel j) rn1 w1 = (w2, rn2, reports)"
    by (metis prod_cases3)
  have conf: "agent_a rn1 = a" "agent_b rn1 = b"
    using create_duel_config [OF c] by (simp_all add: mk_runner_def duel_config_of_def)
  note one = play_duel_orderly [OF d cyc]
  obtain w' played dids rs where IH: "run_pairs dt ab pt ap ar per_duel (Suc j) ps w2 = (w', played, Inr (dids, rs))"
    "length dids = length ps" "length rs \<le> 2 * nat (total_steps ar) * length ps"
    "\<forall>r \<in> set rs. 0 < cy_cycle r \<and> cy_cycle r \<le> total_steps ar \<and> cy_agent r \<in> du_address ` set bs"
    "distinct (map du_address bs) \<longrightarrow> distinct (map (\<lambda>r. (cy_agent r, cy_cycle r)) rs)"
    using Cons.IH [of "Suc j" w2] unfolding bs_def by blast
  have run: "\<exists>played. run_pairs dt ab pt ap ar per_duel j (p # ps) w = (w', played, Inr (did # dids, reports @ rs))"
    by (simp add: p run_duel_def c d IH(1))
  have mine: "\<forall>r \<in> set reports. 0 < cy_cycle r \<and> cy_cycle r \<le> total_steps ar \<and> cy_agent r \<in> {du_address a, du_address b}"
    using one by (simp add: orderly_def conf)
  have "distinct (map (\<lambda>r. (cy_agent r, cy_cycle r)) (reports @ rs))" if d: "distinct (map du_address (both (p # ps)))"
  proof -
    have "distinct (map (\<lambda>r. (cy_agent r, cy_cycle r)) reports)" "distinct (map (\<lambda>r. (cy_agent r, cy_cycle r)) rs)"
      using d one IH(5) unfolding bs by (simp_all add: orderly_def conf)
    moreover have "cy_agent r \<noteq> cy_agent r'" if m: "r \<in> set reports" "r' \<in> set rs" for r r'
    proof -
      have "cy_agent r' \<in> du_address ` set bs" using m(2) IH(4) by blast
      moreover have "cy_agent r \<in> {du_address a, du_address b}" using m(1) mine by blast
      ultimately show ?thesis using d unfolding bs by auto
    qed
    ultimately show ?thesis by (auto simp: image_iff)
  qed
  then have "distinct (map du_address (both (p # ps))) \<longrightarrow> distinct (map (\<lambda>r. (cy_agent r, cy_cycle r)) (reports @ rs))"
    by blast
  moreover have "\<forall>r \<in> set (reports @ rs). 0 < cy_cycle r \<and> cy_cycle r \<le> total_steps ar \<and>
      cy_agent r \<in> du_address ` set (both (p # ps))"
    unfolding bs using mine IH(4) by auto
  moreover have "length (did # dids) = length (p # ps)" using IH(2) by simp
  moreover have "length (reports @ rs) \<le> 2 * nat (total_steps ar) * length (p # ps)"
    using one IH(3) by (simp add: algebra_simps)
  ultimately show ?case using run by blast
qed simp



end
