(* ===== verification/Chain.thy ===== *)
theory Chain
  imports Duel_Runner
begin

text \<open>
  The chain helpers of \<open>scripts/lib/chain.py\<close>: JSON-RPC, the wait for a receipt, the wrapper of the
  \<open>cast\<close> program, signing and broadcasting, deployment, and the probe that tells a revert from a broken
  connection.

  HTTP, the clock, \<open>sleep\<close> and the \<open>cast\<close> process are functions on a world of their own; the account
  library (address of a key, signature of a transaction, checksummed address) is a parameter. Where a
  message is inspected later, the exception carries all of it.
\<close>

subsection \<open>JSON-RPC\<close>

record 'w net =
  nt_post :: "'w \<Rightarrow> string \<Rightarrow> json \<Rightarrow> 'w \<times> reply res"
  nt_time :: "'w \<Rightarrow> 'w \<times> rat"
  nt_sleep :: "'w \<Rightarrow> rat \<Rightarrow> 'w"
  nt_cast :: "'w \<Rightarrow> string list \<Rightarrow> 'w \<times> (int \<times> string \<times> string) res"  \<comment> \<open>return code, stdout, stderr\<close>
  nt_float_repr :: "rat \<Rightarrow> string"

definition rpc_body :: "string \<Rightarrow> json list \<Rightarrow> json" where
  "rpc_body method params =
     JObj [(''jsonrpc'', JStr ''2.0''), (''id'', JInt 1), (''method'', JStr method), (''params'', JList params)]"

text \<open>\<open>k in v\<close> and \<open>v[k]\<close> for a string \<open>k\<close> and any JSON value.\<close>

fun py_in :: "string \<Rightarrow> json \<Rightarrow> bool res" where
  "py_in k (JObj d) = Inr (map_of d k \<noteq> None)"
| "py_in k (JList vs) = Inr (JStr k \<in> set vs)"
| "py_in k (JStr s) = Inr (contains s k)"
| "py_in k _ = Inl (TypeError ''argument is not iterable'')"

fun py_item :: "json \<Rightarrow> string \<Rightarrow> json res" where
  "py_item (JObj d) k = dict_item d k"
| "py_item _ k = Inl (TypeError ''indices must be integers'')"

definition rpc_error_text :: "(rat \<Rightarrow> string) \<Rightarrow> string \<Rightarrow> json \<Rightarrow> string" where
  "rpc_error_text fr method err = ''rpc '' @ method @ '' error: '' @ py_str fr err"

definition rpc_result :: "(rat \<Rightarrow> string) \<Rightarrow> string \<Rightarrow> json \<Rightarrow> json res" where
  "rpc_result fr method data =
     res_bind (py_in ''error'' data) (\<lambda>has.
     res_bind (if has then py_item data ''error'' else Inr JNull) (\<lambda>err.
       if truthy err then Inl (RuntimeError (rpc_error_text fr method err))
       else map_sum id (\<lambda>d. dict_get d ''result'') (as_dict data)))"

definition raise_for_status :: "reply \<Rightarrow> unit res" where
  "raise_for_status rp =
     (if 200 \<le> rp_status rp \<and> rp_status rp < 300 then Inr () else Inl (LibraryError ''httpx.HTTPStatusError''))"

definition rpc_call :: "'w net \<Rightarrow> string \<Rightarrow> 'w rpc" where
  "rpc_call nt url w method params =
     (let (w', r) = nt_post nt w url (rpc_body method params)
      in (w', res_bind r (\<lambda>rp. res_bind (raise_for_status rp) (\<lambda>_.
              res_bind (reply_json rp) (rpc_result (nt_float_repr nt) method)))))"

definition rpc_int :: "'w net \<Rightarrow> string \<Rightarrow> 'w \<Rightarrow> string \<Rightarrow> json list \<Rightarrow> 'w \<times> int res" where
  "rpc_int nt url w method params = (let (w', r) = rpc_call nt url w method params in (w', res_bind r int16))"

definition chain_id :: "'w net \<Rightarrow> string \<Rightarrow> 'w \<Rightarrow> 'w \<times> int res" where
  "chain_id nt url w = rpc_int nt url w ''eth_chainId'' []"

definition gas_price :: "'w net \<Rightarrow> string \<Rightarrow> 'w \<Rightarrow> 'w \<times> int res" where
  "gas_price nt url w = rpc_int nt url w ''eth_gasPrice'' []"

definition get_nonce :: "'w net \<Rightarrow> string \<Rightarrow> string \<Rightarrow> 'w \<Rightarrow> 'w \<times> int res" where
  "get_nonce nt url addr w = rpc_int nt url w ''eth_getTransactionCount'' [JStr addr, JStr ''pending'']"

text \<open>
  The polling loop. The fuel counts the polls; \<open>receipt_fuel\<close> is one more than fit before the
  deadline when every turn sleeps at least \<open>poll\<close> seconds, and \<open>Chain_Properties\<close> shows that it is
  never what ends the loop.
\<close>

fun receipt_loop :: "nat \<Rightarrow> 'w net \<Rightarrow> string \<Rightarrow> json \<Rightarrow> rat \<Rightarrow> rat \<Rightarrow> 'w \<Rightarrow> 'w \<times> json res" where
  "receipt_loop 0 nt url tx deadline poll w = (w, Inl (TimeoutError ''receipt not seen''))"
| "receipt_loop (Suc n) nt url tx deadline poll w =
     (let (w1, now) = nt_time nt w
      in if deadline \<le> now then (w1, Inl (TimeoutError ''receipt not seen''))
         else (case rpc_call nt url w1 ''eth_getTransactionReceipt'' [tx] of
             (w2, Inl e) \<Rightarrow> (w2, Inl e)
           | (w2, Inr r) \<Rightarrow>
               if r \<noteq> JNull then (w2, Inr r)
               else receipt_loop n nt url tx deadline poll (nt_sleep nt w2 poll)))"

definition receipt_fuel :: "rat \<Rightarrow> rat \<Rightarrow> nat" where
  "receipt_fuel tmo poll = nat \<lceil>tmo / poll\<rceil> + 1"

definition wait_for_receipt :: "'w net \<Rightarrow> string \<Rightarrow> json \<Rightarrow> rat \<Rightarrow> rat \<Rightarrow> 'w \<Rightarrow> 'w \<times> json res" where
  "wait_for_receipt nt url tx tmo poll w =
     (let (w1, start) = nt_time nt w
      in receipt_loop (receipt_fuel tmo poll) nt url tx (start + tmo) poll w1)"

definition DEFAULT_POLL :: rat where
  "DEFAULT_POLL = 3 / 10"

subsection \<open>The \<open>cast\<close> program\<close>

definition cast_error_text :: "string list \<Rightarrow> int \<Rightarrow> string \<Rightarrow> string \<Rightarrow> string" where
  "cast_error_text args rc out err =
     ''cast '' @ (case args of [] \<Rightarrow> [] | a # _ \<Rightarrow> a) @ '' failed (rc='' @ int_str rc @ ''): stderr='' @
     take 500 (strip err) @ '' stdout='' @ take 200 (strip out)"

definition cast_run :: "'w net \<Rightarrow> string list \<Rightarrow> string option \<Rightarrow> 'w \<Rightarrow> 'w \<times> string res" where
  "cast_run nt args env_pk w =
     (if env_pk \<noteq> None \<and> ''--private-key'' \<in> set args
      then (w, Inl (RuntimeError ''refusing to invoke cast with --private-key in argv; sign in-process via eth_account instead''))
      else (let (w', r) = nt_cast nt w args
            in (w', res_bind r (\<lambda>(rc, out, err).
                  if rc \<noteq> 0 then Inl (RuntimeError (cast_error_text args rc out err)) else Inr (strip out)))))"

definition encode_call_data :: "'w net \<Rightarrow> string \<Rightarrow> string list \<Rightarrow> 'w \<Rightarrow> 'w \<times> string res" where
  "encode_call_data nt sig args w =
     (let (w', r) = cast_run nt ([''calldata'', sig] @ args) None w
      in (w', map_sum id (\<lambda>out. if startswith out ''0x'' then out else ''0x'' @ out) r))"

definition cast_call :: "'w net \<Rightarrow> string \<Rightarrow> string \<Rightarrow> string \<Rightarrow> string list \<Rightarrow> 'w \<Rightarrow> 'w \<times> string res" where
  "cast_call nt rpc_url to_addr sig args w =
     cast_run nt ([''call'', ''--rpc-url'', rpc_url, to_addr, sig] @ args) None w"

subsection \<open>Signing and broadcasting\<close>

record key_tools =
  kt_address :: "string \<Rightarrow> string res"  \<comment> \<open>\<open>Account.from_key(pk).address\<close>\<close>
  kt_sign :: "string \<Rightarrow> dict \<Rightarrow> byte list res"  \<comment> \<open>the raw signed transaction\<close>
  kt_checksum :: "string \<Rightarrow> string res"

record tx_params =
  tp_nonce :: int
  tp_chain_id :: int
  tp_max_priority :: int
  tp_max_fee :: int

definition DEFAULT_PRIORITY :: int where
  "DEFAULT_PRIORITY = 1000000000"

text \<open>The tip the node suggests; any failure and any false answer give the default.\<close>

definition suggested_tip :: "json res \<Rightarrow> int" where
  "suggested_tip r =
     (case res_bind r (\<lambda>v. if truthy v then int16 v else Inr DEFAULT_PRIORITY) of
        Inl e \<Rightarrow> DEFAULT_PRIORITY | Inr n \<Rightarrow> n)"

definition fetch_tx_params :: "'w net \<Rightarrow> string \<Rightarrow> string \<Rightarrow> 'w \<Rightarrow> 'w \<times> tx_params res" where
  "fetch_tx_params nt url from_addr w =
     (case get_nonce nt url from_addr w of
        (w1, Inl e) \<Rightarrow> (w1, Inl e)
      | (w1, Inr nonce) \<Rightarrow>
          (case chain_id nt url w1 of
             (w2, Inl e) \<Rightarrow> (w2, Inl e)
           | (w2, Inr cid) \<Rightarrow>
               (let (w3, tip) = rpc_call nt url w2 ''eth_maxPriorityFeePerGas'' [];
                    (w4, base) = gas_price nt url w3
                in (w4, map_sum id (\<lambda>b. \<lparr>tp_nonce = nonce, tp_chain_id = cid, tp_max_priority = suggested_tip tip,
                          tp_max_fee = 2 * b + suggested_tip tip\<rparr>) base))))"

definition hex_data :: "byte list \<Rightarrow> string" where
  "hex_data bs = (if bs = [] then ''0x'' else ''0x'' @ to_hex bs)"

definition tx_fields :: "string \<Rightarrow> int \<Rightarrow> byte list \<Rightarrow> tx_params \<Rightarrow> string option \<Rightarrow> dict" where
  "tx_fields from_addr val bs tp to_checked =
     [(''from'', JStr from_addr), (''value'', JInt val), (''data'', JStr (hex_data bs)),
      (''nonce'', JInt (tp_nonce tp)), (''chainId'', JInt (tp_chain_id tp)),
      (''maxPriorityFeePerGas'', JInt (tp_max_priority tp)), (''maxFeePerGas'', JInt (tp_max_fee tp)),
      (''type'', JInt 2)] @ (case to_checked of None \<Rightarrow> [] | Some a \<Rightarrow> [(''to'', JStr a)])"

definition checked_to :: "key_tools \<Rightarrow> string option \<Rightarrow> string option res" where
  "checked_to kt to_addr =
     (case to_addr of
        None \<Rightarrow> Inr None
      | Some a \<Rightarrow> if startswith a ''0x'' then map_sum id Some (kt_checksum kt a) else Inr (Some a))"

definition estimate_query :: "string \<Rightarrow> string option \<Rightarrow> int \<Rightarrow> byte list \<Rightarrow> json" where
  "estimate_query from_addr to_addr val bs =
     JObj ([(''from'', JStr from_addr)] @ (case to_addr of None \<Rightarrow> [] | Some a \<Rightarrow> [(''to'', JStr a)]) @
           [(''value'', JStr (py_hex val)), (''data'', JStr (hex_data bs))])"

definition FALLBACK_GAS :: int where
  "FALLBACK_GAS = 3000000"

text \<open>The limit the caller gave, or the estimate and a fifth, or the fallback.\<close>

definition gas_for ::
  "'w net \<Rightarrow> string \<Rightarrow> string \<Rightarrow> string option \<Rightarrow> int \<Rightarrow> byte list \<Rightarrow> int option \<Rightarrow> 'w \<Rightarrow> 'w \<times> int" where
  "gas_for nt url from_addr to_addr val bs gas_limit w =
     (case gas_limit of
        Some g \<Rightarrow> (w, g)
      | None \<Rightarrow>
          (let (w', r) = rpc_call nt url w ''eth_estimateGas'' [estimate_query from_addr to_addr val bs]
           in (w', case res_bind r int16 of Inl e \<Rightarrow> FALLBACK_GAS | Inr est \<Rightarrow> est * 12 div 10)))"

definition sign_and_broadcast ::
  "'w net \<Rightarrow> key_tools \<Rightarrow> string \<Rightarrow> string \<Rightarrow> string option \<Rightarrow> int \<Rightarrow> byte list \<Rightarrow> int option \<Rightarrow> 'w \<Rightarrow> 'w \<times> json res" where
  "sign_and_broadcast nt kt url pk to_addr val bs gas_limit w =
     (case kt_address kt pk of
        Inl e \<Rightarrow> (w, Inl e)
      | Inr from_addr \<Rightarrow>
          (case fetch_tx_params nt url from_addr w of
             (w1, Inl e) \<Rightarrow> (w1, Inl e)
           | (w1, Inr tp) \<Rightarrow>
               (case checked_to kt to_addr of
                  Inl e \<Rightarrow> (w1, Inl e)
                | Inr to_checked \<Rightarrow>
                    (let (w2, gas) = gas_for nt url from_addr to_addr val bs gas_limit w1
                     in case kt_sign kt pk (tx_fields from_addr val bs tp to_checked @ [(''gas'', JInt gas)]) of
                          Inl e \<Rightarrow> (w2, Inl e)
                        | Inr raw \<Rightarrow> rpc_call nt url w2 ''eth_sendRawTransaction'' [JStr (''0x'' @ to_hex raw)]))))"

text \<open>The bytes of the call: raw hex, or a signature for \<open>cast\<close> to encode, or nothing.\<close>

definition raw_call_bytes :: "string \<Rightarrow> byte list res" where
  "raw_call_bytes data =
     (let hx = removeprefix data ''0x''
      in if \<not> list_all is_hex hx then Inl (ValueError ''data must be hex'')
         else of_opt (ValueError ''non-hexadecimal number found in fromhex() arg'') (fromhex hx))"

definition call_bytes ::
  "'w net \<Rightarrow> string option \<Rightarrow> string list \<Rightarrow> string option \<Rightarrow> 'w \<Rightarrow> 'w \<times> byte list res" where
  "call_bytes nt sig args data w =
     (case (sig, data) of
        (Some s, Some d) \<Rightarrow> (w, Inl (ValueError ''pass either sig+args or data, not both''))
      | (_, Some d) \<Rightarrow> (w, raw_call_bytes d)
      | (Some s, None) \<Rightarrow>
          (let (w', r) = encode_call_data nt s args w
           in (w', res_bind r (\<lambda>hx. of_opt (ValueError ''non-hexadecimal number found in fromhex() arg'')
                                      (fromhex (removeprefix hx ''0x'')))))
      | (None, None) \<Rightarrow> (w, Inr []))"

definition cast_send ::
  "'w net \<Rightarrow> key_tools \<Rightarrow> string \<Rightarrow> string \<Rightarrow> string \<Rightarrow> string option \<Rightarrow> string list \<Rightarrow> int \<Rightarrow> string option \<Rightarrow>
   int option \<Rightarrow> 'w \<Rightarrow> 'w \<times> json res" where
  "cast_send nt kt rpc_url pk to_addr sig args val data gas_limit w =
     (case call_bytes nt sig args data w of
        (w1, Inl e) \<Rightarrow> (w1, Inl e)
      | (w1, Inr bs) \<Rightarrow> sign_and_broadcast nt kt rpc_url pk (Some to_addr) val bs gas_limit w1)"

subsection \<open>Deployment\<close>

definition constructor_types :: "dict \<Rightarrow> string list res" where
  "constructor_types art =
     res_bind (json_iter (py_or (dict_get art ''abi'') (JList []))) (\<lambda>entries.
       foldr (\<lambda>entry rest.
           res_bind (as_dict entry) (\<lambda>d.
             if dict_get d ''type'' = JStr ''constructor''
             then res_bind (json_iter (dict_get_or d ''inputs'' (JList []))) (\<lambda>inputs.
                    res_map (\<lambda>inp. res_bind (py_item inp ''type'') as_str) inputs)
             else rest)) entries (Inr []))"

text \<open>The creation code of an artifact, as hex.\<close>

definition artifact_bytecode :: "dict \<Rightarrow> string res" where
  "artifact_bytecode art =
     res_bind (case dict_get art ''bytecode'' of
         JObj d \<Rightarrow> as_str (py_or (dict_get d ''object'') (JStr []))
       | JStr s \<Rightarrow> Inr s
       | _ \<Rightarrow> Inl (RuntimeError ''artifact has no recognisable bytecode field'')) (\<lambda>hx.
       if removeprefix hx ''0x'' = [] then Inl (RuntimeError ''artifact has empty bytecode'')
       else Inr (removeprefix hx ''0x''))"

definition constructor_bytes :: "'w net \<Rightarrow> dict \<Rightarrow> string list \<Rightarrow> 'w \<Rightarrow> 'w \<times> byte list res" where
  "constructor_bytes nt art args w =
     (if args = [] then (w, Inr [])
      else (case constructor_types art of
          Inl e \<Rightarrow> (w, Inl e)
        | Inr types \<Rightarrow>
            (let (w', r) = cast_run nt ([''abi-encode'', ''constructor('' @ join '','' types @ '')''] @ args) None w
             in (w', res_bind r (\<lambda>hx. of_opt (ValueError ''non-hexadecimal number found in fromhex() arg'')
                                        (fromhex (removeprefix hx ''0x'')))))))"

text \<open>What the receipt of a deployment says: the address first, then the status.\<close>

definition deployed_address :: "json \<Rightarrow> json res" where
  "deployed_address receipt =
     res_bind (as_dict receipt) (\<lambda>d.
       if \<not> truthy (dict_get d ''contractAddress'')
       then Inl (RuntimeError ''deployment receipt missing contractAddress'')
       else res_bind (check_status d ''deployment tx reverted'') (\<lambda>_. Inr (dict_get d ''contractAddress'')))"

definition deploy_contract_via_cast ::
  "'w net \<Rightarrow> key_tools \<Rightarrow> string \<Rightarrow> string \<Rightarrow> dict \<Rightarrow> string list \<Rightarrow> 'w \<Rightarrow> 'w \<times> (json \<times> json) res" where
  "deploy_contract_via_cast nt kt rpc_url pk art args w =
     (case artifact_bytecode art of
        Inl e \<Rightarrow> (w, Inl e)
      | Inr bytecode \<Rightarrow>
          (case constructor_bytes nt art args w of
             (w1, Inl e) \<Rightarrow> (w1, Inl e)
           | (w1, Inr ctor) \<Rightarrow>
               (case of_opt (ValueError ''non-hexadecimal number found in fromhex() arg'') (fromhex bytecode) of
                  Inl e \<Rightarrow> (w1, Inl e)
                | Inr code \<Rightarrow>
                    (case sign_and_broadcast nt kt rpc_url pk None 0 (code @ ctor) None w1 of
                       (w2, Inl e) \<Rightarrow> (w2, Inl e)
                     | (w2, Inr tx_hash) \<Rightarrow>
                         (let (w3, r) = wait_for_receipt nt rpc_url tx_hash 90 DEFAULT_POLL w2
                          in (w3, res_bind r (\<lambda>receipt. map_sum id (\<lambda>a. (a, tx_hash)) (deployed_address receipt))))))))"

subsection \<open>The revert probe\<close>

record packed_user_op =
  uo_sender :: string
  uo_nonce :: int
  uo_init_code :: "byte list"
  uo_call_data :: "byte list"
  uo_account_gas_limits :: "byte list"
  uo_pre_verification_gas :: int
  uo_gas_fees :: "byte list"
  uo_paymaster_and_data :: "byte list"
  uo_signature :: "byte list"

definition user_op :: "string \<Rightarrow> byte list \<Rightarrow> packed_user_op" where
  "user_op sender call_data =
     \<lparr>uo_sender = sender, uo_nonce = 0, uo_init_code = [], uo_call_data = call_data,
      uo_account_gas_limits = replicate 32 0, uo_pre_verification_gas = 0, uo_gas_fees = replicate 32 0,
      uo_paymaster_and_data = [], uo_signature = []\<rparr>"

definition USER_OP_TUPLE :: string where
  "USER_OP_TUPLE = ''(address,uint256,bytes,bytes,bytes32,uint256,bytes32,bytes,bytes)''"

definition encode_validate_user_op :: "abi_tools \<Rightarrow> packed_user_op \<Rightarrow> byte list \<Rightarrow> string res" where
  "encode_validate_user_op ab uo user_op_hash =
     calldata ab (''validateUserOp('' @ USER_OP_TUPLE @ '',bytes32)'') [USER_OP_TUPLE, ''bytes32'']
       [ATuple [AJson (JStr (uo_sender uo)), AInt (uo_nonce uo), ABytes (uo_init_code uo), ABytes (uo_call_data uo),
                ABytes (uo_account_gas_limits uo), AInt (uo_pre_verification_gas uo), ABytes (uo_gas_fees uo),
                ABytes (uo_paymaster_and_data uo), ABytes (uo_signature uo)],
        ABytes user_op_hash]"

definition REVERT_SIGNATURES :: "string list" where
  "REVERT_SIGNATURES =
     [''execution reverted'', ''revert'', ''vm exception'', ''constitutionviolation'', ''0x08c379a0'', ''custom error'',
      ''revert with custom error'']"

definition is_runtime_revert :: "string \<Rightarrow> bool" where
  "is_runtime_revert err_text =
     (if err_text = [] then False else list_ex (contains (lower err_text)) REVERT_SIGNATURES)"

text \<open>\<open>RuntimeError\<close> and its subclasses, and \<open>str(e)\<close> of one.\<close>

fun runtime_text :: "exn \<Rightarrow> string option" where
  "runtime_text (RuntimeError m) = Some m"
| "runtime_text (NotImplementedError m) = Some m"
| "runtime_text (X402Error m) = Some m"
| "runtime_text (DuelistError m) = Some m"
| "runtime_text (TransportError m) = Some m"
| "runtime_text (AgentKeyError m) = Some m"
| "runtime_text (KeyResolutionError m) = Some m"
| "runtime_text _ = None"

record evidence =
  ev_hook_address :: string
  ev_sender :: string
  ev_tx_hash :: json
  ev_receipt_status :: "int option"
  ev_block_number :: "int option"
  ev_revert_reason :: string

text \<open>The dry run: whether it saw a revert, with the reason.\<close>

definition probe_outcome :: "json res \<Rightarrow> (bool \<times> string) res" where
  "probe_outcome r =
     (case r of
        Inr _ \<Rightarrow> Inr (False, [])
      | Inl e \<Rightarrow>
          (case runtime_text e of
             None \<Rightarrow> Inl e
           | Some msg \<Rightarrow>
               if is_runtime_revert msg then Inr (True, msg)
               else Inl (TransportError (''eth_call transport error (not a revert): '' @ take 300 msg))))"

text \<open>The live transaction: what was learnt before the end or the exception.\<close>

record broadcast =
  br_tx_hash :: json
  br_status :: "int option"
  br_block :: "int option"

definition live_broadcast ::
  "'w net \<Rightarrow> key_tools \<Rightarrow> string \<Rightarrow> string \<Rightarrow> string \<Rightarrow> string \<Rightarrow> 'w \<Rightarrow> 'w \<times> broadcast \<times> unit res" where
  "live_broadcast nt kt rpc_url pk hook data w =
     (case cast_send nt kt rpc_url pk hook None [] 0 (Some data) (Some 500000) w of
        (w1, Inl e) \<Rightarrow> (w1, \<lparr>br_tx_hash = JNull, br_status = None, br_block = None\<rparr>, Inl e)
      | (w1, Inr tx) \<Rightarrow>
          (case wait_for_receipt nt rpc_url tx 60 DEFAULT_POLL w1 of
             (w2, r) \<Rightarrow>
               (let b0 = \<lparr>br_tx_hash = tx, br_status = None, br_block = None\<rparr>
                in case res_bind r as_dict of
                     Inl e \<Rightarrow> (w2, b0, Inl e)
                   | Inr d \<Rightarrow>
                       (case int16 (dict_get_or d ''status'' (JStr ''0x1'')) of
                          Inl e \<Rightarrow> (w2, b0, Inl e)
                        | Inr st \<Rightarrow>
                            (case int16 (dict_get_or d ''blockNumber'' (JStr ''0x0'')) of
                               Inl e \<Rightarrow> (w2, b0\<lparr>br_status := Some st\<rparr>, Inl e)
                             | Inr bn \<Rightarrow> (w2, b0\<lparr>br_status := Some st, br_block := Some bn\<rparr>, Inr ()))))))"

definition judge_broadcast :: "bool \<times> string \<Rightarrow> broadcast \<Rightarrow> unit res \<Rightarrow> (bool \<times> string) res" where
  "judge_broadcast seen_reason b r =
     (let (seen, reason) = seen_reason
      in case r of
           Inr _ \<Rightarrow> Inr (seen \<or> br_status b = Some 0, reason)
         | Inl e \<Rightarrow>
             (case runtime_text e of
                None \<Rightarrow> Inl e
              | Some msg \<Rightarrow>
                  if is_runtime_revert msg then Inr (True, if reason = [] then take 300 msg else reason)
                  else if seen then Inr (True, reason @ '' [broadcast transport error: '' @ take 200 msg @ '']'')
                  else Inl (TransportError (''cast_send transport error (not a revert): '' @ take 300 msg))))"

definition call_validate_user_op_expect_revert ::
  "'w net \<Rightarrow> key_tools \<Rightarrow> abi_tools \<Rightarrow> string \<Rightarrow> string \<Rightarrow> string \<Rightarrow> string \<Rightarrow> string \<Rightarrow> 'w \<Rightarrow> 'w \<times> (bool \<times> evidence) res" where
  "call_validate_user_op_expect_revert nt kt ab rpc_url hook sender call_data pk w =
     (case res_bind (of_opt (ValueError ''non-hexadecimal number found in fromhex() arg'') (fromhex (removeprefix call_data ''0x'')))
             (\<lambda>bs. encode_validate_user_op ab (user_op sender bs) (replicate 32 0)) of
        Inl e \<Rightarrow> (w, Inl e)
      | Inr data \<Rightarrow>
          (let (w1, probe) = rpc_call nt rpc_url w ''eth_call''
                 [JObj [(''from'', JStr sender), (''to'', JStr hook), (''data'', JStr data)], JStr ''latest'']
           in case probe_outcome probe of
                Inl e \<Rightarrow> (w1, Inl e)
              | Inr seen_reason \<Rightarrow>
                  (let (w2, b, r) = live_broadcast nt kt rpc_url pk hook data w1
                   in (w2, map_sum id (\<lambda>(seen, reason).
                         (seen, \<lparr>ev_hook_address = hook, ev_sender = sender, ev_tx_hash = br_tx_hash b,
                                 ev_receipt_status = br_status b, ev_block_number = br_block b,
                                 ev_revert_reason = take 300 reason\<rparr>)) (judge_broadcast seen_reason b r)))))"

end
