(* ===== verification/Keys.thy ===== *)
theory Keys
  imports Py_Text
begin

text \<open>
  Where signing keys come from: the resolver of \<open>scripts/lib/keys.py\<close>, the wallets of
  \<open>agents/agent_wallet.py\<close> with their encrypted keystores and the sidecar of identities, and the
  environment file of \<open>scripts/lib/envfile.py\<close>.

  A directory is an association list from file names to texts. The account library (decryption,
  encryption, the address of a key) is a parameter; encryption draws its salt, and the creation of
  keys their bytes, from a world of their own.
\<close>

type_synonym environ = "(string \<times> string) list"
type_synonym dir = "(string \<times> string) list"

definition env_or :: "environ \<Rightarrow> string \<Rightarrow> string" where
  "env_or environ k = (case map_of environ k of None \<Rightarrow> [] | Some v \<Rightarrow> v)"

record crypto =
  cr_decrypt :: "json \<Rightarrow> string \<Rightarrow> byte list res"
  cr_address :: "string \<Rightarrow> string"  \<comment> \<open>checksummed address of a 0x-prefixed key\<close>

subsection \<open>The deployer's key\<close>

text \<open>
  The keystore file, the password if the environment has one, and the answer of the prompt where
  prompting is allowed (\<open>None\<close> where it fails).
\<close>

definition decrypt_keystore_file ::
  "crypto \<Rightarrow> string option \<Rightarrow> string option \<Rightarrow> bool \<Rightarrow> string option \<Rightarrow> string res" where
  "decrypt_keystore_file cr file password interactive_prompt typed =
     res_bind (of_opt (KeyResolutionError ''keystore not found'') file) (\<lambda>content.
     res_bind (of_opt (KeyResolutionError ''keystore is not valid JSON'') (json_loads content)) (\<lambda>keystore_json.
     res_bind (case password of
         Some p \<Rightarrow> Inr p
       | None \<Rightarrow>
           if \<not> interactive_prompt then Inl (KeyResolutionError ''keystore found but no password available'')
           else (case typed of
               None \<Rightarrow> Inl (KeyResolutionError ''could not read keystore password interactively'')
             | Some p \<Rightarrow> if p = [] then Inl (KeyResolutionError ''empty password entered'') else Inr p)) (\<lambda>pw.
       case cr_decrypt cr keystore_json pw of
         Inl e \<Rightarrow> Inl (KeyResolutionError ''failed to decrypt keystore'')
       | Inr key_bytes \<Rightarrow> Inr (''0x'' @ to_hex key_bytes))))"

definition resolved_account :: "environ \<Rightarrow> string option \<Rightarrow> string" where
  "resolved_account environ account =
     (case account of
        Some a \<Rightarrow> if a \<noteq> [] then a else strip (env_or environ ''DEPLOYER_ACCOUNT'')
      | None \<Rightarrow> strip (env_or environ ''DEPLOYER_ACCOUNT''))"

definition resolve_deployer_key ::
  "crypto \<Rightarrow> environ \<Rightarrow> dir \<Rightarrow> string option \<Rightarrow> bool \<Rightarrow> string option \<Rightarrow> string res" where
  "resolve_deployer_key cr environ keystores account allow_interactive typed =
     (let acc = resolved_account environ account; pk = strip (env_or environ ''DEPLOYER_PK'')
      in if acc \<noteq> []
         then decrypt_keystore_file cr (map_of keystores acc) (map_of environ ''KEYSTORE_PASSWORD'') allow_interactive typed
         else if pk \<noteq> [] then Inr pk
         else Inl (KeyResolutionError ''no deployer key available''))"

definition can_resolve_deployer_key :: "environ \<Rightarrow> dir \<Rightarrow> string option \<Rightarrow> bool" where
  "can_resolve_deployer_key environ keystores account =
     (let acc = resolved_account environ account
      in if acc \<noteq> [] then map_of keystores acc \<noteq> None \<and> map_of environ ''KEYSTORE_PASSWORD'' \<noteq> None
         else strip (env_or environ ''DEPLOYER_PK'') \<noteq> [])"

subsection \<open>Wallets\<close>

record wallet =
  wa_address :: string
  wa_private_key :: string
  wa_identity_id :: "int option"

definition wallet_repr :: "wallet \<Rightarrow> string" where
  "wallet_repr w =
     ''AgentWallet(address='' @ repr_str (wa_address w) @ '', private_key='' @ repr_str ''0x<redacted>'' @ '', identity_id='' @
     (case wa_identity_id w of None \<Rightarrow> ''None'' | Some n \<Rightarrow> int_str n) @ '')''"

definition PASSWORD_ENV_VARS :: "string list" where
  "PASSWORD_ENV_VARS = [''ARENA_KEY_PASSWORD'', ''KEYSTORE_PASSWORD'']"

definition IDENTITIES_FILENAME :: string where
  "IDENTITIES_FILENAME = ''identities.json''"

definition resolve_password :: "environ \<Rightarrow> string option \<Rightarrow> string res" where
  "resolve_password environ password =
     (case password of
        Some p \<Rightarrow> if p = [] then Inl (AgentKeyError ''empty keystore password is not allowed.'') else Inr p
      | None \<Rightarrow>
          (case filter (\<lambda>v. env_or environ v \<noteq> []) PASSWORD_ENV_VARS of
             [] \<Rightarrow> Inl (AgentKeyError ''no keystore password available'')
           | v # _ \<Rightarrow> Inr (env_or environ v)))"

text \<open>\<open>Account.create\<close> and \<open>Account.encrypt\<close>.\<close>

record 'w key_source =
  ks_create :: "'w \<Rightarrow> 'w \<times> byte list"
  ks_encrypt :: "'w \<Rightarrow> byte list \<Rightarrow> string \<Rightarrow> 'w \<times> json"

definition keystore_name :: "string \<Rightarrow> string" where
  "keystore_name address = address @ ''.keystore''"

definition key_hex :: "byte list \<Rightarrow> string" where
  "key_hex key = ''0x'' @ to_hex key"

definition spawn_one ::
  "crypto \<Rightarrow> 'w key_source \<Rightarrow> (rat \<Rightarrow> string) \<Rightarrow> string \<Rightarrow> dir \<Rightarrow> 'w \<Rightarrow> 'w \<times> dir \<times> wallet" where
  "spawn_one cr ks fr pw d w =
     (let (w1, key) = ks_create ks w;
          address = cr_address cr (key_hex key);
          (w2, keystore) = ks_encrypt ks w1 key pw
      in (w2, AList.update (keystore_name address) (dumps_default fr keystore) d,
          \<lparr>wa_address = address, wa_private_key = key_hex key, wa_identity_id = None\<rparr>))"

fun spawn_loop ::
  "crypto \<Rightarrow> 'w key_source \<Rightarrow> (rat \<Rightarrow> string) \<Rightarrow> string \<Rightarrow> nat \<Rightarrow> dir \<Rightarrow> 'w \<Rightarrow> 'w \<times> dir \<times> wallet list" where
  "spawn_loop cr ks fr pw 0 d w = (w, d, [])"
| "spawn_loop cr ks fr pw (Suc n) d w =
     (let (w1, d1, wal) = spawn_one cr ks fr pw d w;
          (w2, d2, wals) = spawn_loop cr ks fr pw n d1 w1
      in (w2, d2, wal # wals))"

text \<open>A missing directory is created, so \<open>None\<close> stands for one that does not exist.\<close>

definition mkdir :: "dir option \<Rightarrow> dir" where
  "mkdir vault = (case vault of None \<Rightarrow> [] | Some d \<Rightarrow> d)"

definition spawn_keypairs ::
  "crypto \<Rightarrow> 'w key_source \<Rightarrow> (rat \<Rightarrow> string) \<Rightarrow> environ \<Rightarrow> int \<Rightarrow> string option \<Rightarrow> dir option \<Rightarrow> 'w \<Rightarrow>
   'w \<times> dir option \<times> wallet list res" where
  "spawn_keypairs cr ks fr environ n password vault w =
     (if n < 0 then (w, vault, Inl (ValueError ''n must be non-negative''))
      else (case resolve_password environ password of
          Inl e \<Rightarrow> (w, vault, Inl e)
        | Inr pw \<Rightarrow> (let (w', d, wals) = spawn_loop cr ks fr pw (nat n) (mkdir vault) w in (w', Some d, Inr wals))))"

subsection \<open>The sidecar of identities\<close>

text \<open>\<open>json.dumps\<close> with \<open>indent=2\<close> of a dict of integers; an empty one has no lines.\<close>

fun comma_lines :: "string list \<Rightarrow> string" where
  "comma_lines [] = []"
| "comma_lines [x] = x"
| "comma_lines (x # y # ys) = x @ '','' @ [CHR 0x0A, CHR '' '', CHR '' ''] @ comma_lines (y # ys)"

definition identities_text :: "(string \<times> int) list \<Rightarrow> string" where
  "identities_text mapping =
     (if mapping = [] then ''{}''
      else ''{'' @ [CHR 0x0A, CHR '' '', CHR '' ''] @
           comma_lines (map (\<lambda>kv. ascii_str (fst kv) @ '': '' @ int_str (snd kv)) (sort_key fst mapping)) @
           [CHR 0x0A, CHR ''}''])"

text \<open>Entry by entry; the first value that is no integer ends the comprehension.\<close>

fun read_strict :: "dict \<Rightarrow> (string \<times> int) list \<Rightarrow> (string \<times> int) list res" where
  "read_strict [] acc = Inr acc"
| "read_strict ((k, v) # rest) acc = res_bind (py_int v) (\<lambda>n. read_strict rest (AList.update k n acc))"

fun value_or_type_error :: "exn \<Rightarrow> bool" where
  "value_or_type_error (ValueError m) = True"
| "value_or_type_error (TypeError m) = True"
| "value_or_type_error _ = False"

definition existing_identities :: "string option \<Rightarrow> (string \<times> int) list res" where
  "existing_identities file =
     (case file of
        None \<Rightarrow> Inr []
      | Some content \<Rightarrow>
          (case json_loads content of
             None \<Rightarrow> Inr []
           | Some (JObj d) \<Rightarrow>
               (case read_strict d [] of
                  Inl e \<Rightarrow> if value_or_type_error e then Inr [] else Inl e
                | Inr m \<Rightarrow> Inr m)
           | Some _ \<Rightarrow> Inr []))"

definition record_identity :: "(string \<times> int) list \<Rightarrow> wallet \<Rightarrow> (string \<times> int) list" where
  "record_identity mapping w =
     (case wa_identity_id w of None \<Rightarrow> mapping | Some n \<Rightarrow> AList.update (wa_address w) n mapping)"

definition save_identities :: "wallet list \<Rightarrow> dir option \<Rightarrow> dir \<times> unit res" where
  "save_identities wallets vault =
     (let d = mkdir vault
      in case existing_identities (map_of d IDENTITIES_FILENAME) of
           Inl e \<Rightarrow> (d, Inl e)
         | Inr mapping \<Rightarrow>
             (AList.update IDENTITIES_FILENAME (identities_text (foldl record_identity mapping wallets)) d, Inr ()))"

fun read_lenient :: "dict \<Rightarrow> (string \<times> int) list \<Rightarrow> (string \<times> int) list res" where
  "read_lenient [] acc = Inr acc"
| "read_lenient ((k, v) # rest) acc =
     (case py_int v of
        Inl e \<Rightarrow> if value_or_type_error e then read_lenient rest acc else Inl e
      | Inr n \<Rightarrow> read_lenient rest (AList.update (lower k) n acc))"

definition load_identities :: "dir \<Rightarrow> (string \<times> int) list res" where
  "load_identities d =
     (case map_of d IDENTITIES_FILENAME of
        None \<Rightarrow> Inr []
      | Some content \<Rightarrow>
          (case json_loads content of
             Some (JObj raw) \<Rightarrow> read_lenient raw []
           | _ \<Rightarrow> Inr []))"

subsection \<open>Loading the wallets\<close>

definition endswith :: "string \<Rightarrow> string \<Rightarrow> bool" where
  "endswith s p = startswith (rev s) (rev p)"

definition keystore_files :: "dir \<Rightarrow> (string \<times> string) list" where
  "keystore_files d = sort_key fst (filter (\<lambda>kv. endswith (fst kv) ''.keystore'') d)"

definition open_wallet :: "crypto \<Rightarrow> string \<Rightarrow> (string \<times> int) list \<Rightarrow> string \<Rightarrow> wallet res" where
  "open_wallet cr pw identities content =
     res_bind (of_opt (AgentKeyError ''keystore is not valid JSON'') (json_loads content)) (\<lambda>keystore_json.
       case cr_decrypt cr keystore_json pw of
         Inl e \<Rightarrow> Inl (AgentKeyError ''failed to decrypt keystore'')
       | Inr key_bytes \<Rightarrow>
           (let pk_hex = key_hex key_bytes; address = cr_address cr pk_hex
            in Inr \<lparr>wa_address = address, wa_private_key = pk_hex, wa_identity_id = map_of identities (lower address)\<rparr>))"

definition load_agent_wallets :: "crypto \<Rightarrow> environ \<Rightarrow> string option \<Rightarrow> dir option \<Rightarrow> wallet list res" where
  "load_agent_wallets cr environ password vault =
     res_bind (resolve_password environ password) (\<lambda>pw.
     res_bind (of_opt (AgentKeyError ''keystore dir not found'') vault) (\<lambda>d.
     res_bind (load_identities d) (\<lambda>identities.
     res_bind (res_map (\<lambda>kv. open_wallet cr pw identities (snd kv)) (keystore_files d)) (\<lambda>wals.
       Inr (sort_key (\<lambda>w. lower (wa_address w)) wals)))))"

subsection \<open>The environment file\<close>

definition line_end :: "char \<Rightarrow> bool" where
  "line_end c \<longleftrightarrow> (of_char c :: nat) \<in> {10, 11, 12, 13, 28, 29, 30}"

text \<open>\<open>str.splitlines()\<close>, on ASCII: a carriage return and a line feed are one end.\<close>

fun split_lines :: "string \<Rightarrow> string \<Rightarrow> string list" where
  "split_lines [] cur = (if cur = [] then [] else [rev cur])"
| "split_lines (c # cs) cur =
     (if line_end c
      then rev cur # (case cs of
                        d # ds \<Rightarrow> if c = CHR 0x0D \<and> d = CHR 0x0A then split_lines ds [] else split_lines (d # ds) []
                      | [] \<Rightarrow> [])
      else split_lines cs (c # cur))"

definition strip_char :: "char \<Rightarrow> string \<Rightarrow> string" where
  "strip_char q s = rev (dropWhile (\<lambda>c. c = q) (rev (dropWhile (\<lambda>c. c = q) s)))"

text \<open>One line: a key that may be empty, with its value.\<close>

definition env_line :: "string \<Rightarrow> (string \<times> string) option" where
  "env_line raw =
     (let line = strip raw
      in if line = [] \<or> startswith line ''#'' \<or> CHR ''='' \<notin> set line then None
         else Some (strip (takeWhile (\<lambda>c. c \<noteq> CHR ''='') line),
                    strip_char (CHR 0x27) (strip_char (CHR 0x22) (strip (tl (dropWhile (\<lambda>c. c \<noteq> CHR ''='') line))))))"

definition peek_env :: "string option \<Rightarrow> environ" where
  "peek_env file =
     (case file of
        None \<Rightarrow> []
      | Some content \<Rightarrow>
          foldl (\<lambda>out raw. case env_line raw of
                   None \<Rightarrow> out
                 | Some (k, v) \<Rightarrow> if k = [] then out else AList.update k v out) [] (split_lines content []))"

text \<open>The environment, and the variables set, after one line.\<close>

definition load_line :: "bool \<Rightarrow> environ \<times> environ \<Rightarrow> string \<Rightarrow> environ \<times> environ" where
  "load_line override st raw =
     (case env_line raw of
        None \<Rightarrow> st
      | Some (k, v) \<Rightarrow>
          if k = [] then st
          else if override \<or> map_of (fst st) k = None
          then (AList.update k v (fst st), AList.update k v (snd st))
          else st)"

definition load_env :: "string option \<Rightarrow> bool \<Rightarrow> environ \<Rightarrow> environ \<times> environ" where
  "load_env file override environ =
     (case file of
        None \<Rightarrow> (environ, [])
      | Some content \<Rightarrow> foldl (load_line override) (environ, []) (split_lines content []))"

end
