(* ===== verification/Anchor.thy ===== *)
theory Anchor
  imports Chain Keys Memory_Persist
begin

text \<open>
  Anchoring a root on the chain, \<open>scripts/anchor_memory.py\<close>: the checks of the root and of the
  identity, the call, and what the receipt shows. The command line's choice of root and key is at the end.
\<close>

definition IDENTITY_ANCHOR_SIG :: string where "IDENTITY_ANCHOR_SIG = ''anchor(uint256,bytes32)''"
definition LEGACY_ANCHOR_SIG :: string where "LEGACY_ANCHOR_SIG = ''anchor(bytes32)''"

definition MEMORY_ANCHORED_EVENT :: string where
  "MEMORY_ANCHORED_EVENT = ''MemoryAnchored(address,uint256,bytes32,uint256)''"

definition prefixed :: "string \<Rightarrow> string" where
  "prefixed root_hex = (if startswith root_hex ''0x'' then root_hex else ''0x'' @ root_hex)"

text \<open>Signature, arguments and identity of the call.\<close>

definition anchor_call :: "string \<Rightarrow> int option \<Rightarrow> bool \<Rightarrow> (string \<times> string list \<times> int) res" where
  "anchor_call rhex identity_id legacy =
     (if length rhex \<noteq> 66 then Inl (ValueError ''root must be a 32-byte hex string'')
      else if legacy then Inr (LEGACY_ANCHOR_SIG, [rhex], 0)
      else (case identity_id of
          None \<Rightarrow> Inl (ValueError ''identity_id is required for the F10 identity-bound anchor path.'')
        | Some n \<Rightarrow>
            if n \<le> 0 then Inl (ValueError ''identity_id must be a positive ERC-8004 token id'')
            else Inr (IDENTITY_ANCHOR_SIG, [int_str n, rhex], n)))"

text \<open>\<open>any(...)\<close> over the logs: the first that satisfies the test ends it, an exception too.\<close>

fun any_log :: "(dict \<Rightarrow> bool res) \<Rightarrow> json list \<Rightarrow> bool res" where
  "any_log f [] = Inr False"
| "any_log f (lg # lgs) =
     res_bind (as_dict lg) (\<lambda>d. res_bind (f d) (\<lambda>hit. if hit then Inr True else any_log f lgs))"

definition topic_is :: "string \<Rightarrow> dict \<Rightarrow> bool res" where
  "topic_is topic lg =
     (if \<not> truthy (dict_get lg ''topics'') then Inr False
      else res_bind (json_index (dict_get lg ''topics'') 0) (\<lambda>t0. Inr (t0 = JStr topic)))"

definition identity_topic_is :: "string \<Rightarrow> int \<Rightarrow> dict \<Rightarrow> bool res" where
  "identity_topic_is topic identity lg =
     res_bind (topic_is topic lg) (\<lambda>hit.
       if \<not> hit then Inr False
       else res_bind (json_len (dict_get lg ''topics'')) (\<lambda>n.
            if n < 3 then Inr False
            else res_bind (json_index (dict_get lg ''topics'') 2) (\<lambda>t2.
                 res_bind (as_str t2) (\<lambda>s. Inr (lower s = lower (word_topic identity))))))"

record anchor_receipt =
  ar_block_number :: int
  ar_status :: int
  ar_event_emitted :: bool
  ar_event_identity_id_matches :: "bool option"

record anchored =
  an_tx_hash :: json
  an_root :: string
  an_anchor :: string
  an_identity_id :: int
  an_identity_path :: bool
  an_receipt :: "anchor_receipt option"

definition read_anchor_receipt :: "abi_tools \<Rightarrow> bool \<Rightarrow> int \<Rightarrow> json \<Rightarrow> anchor_receipt res" where
  "read_anchor_receipt ab legacy identity receipt =
     res_bind (as_dict receipt) (\<lambda>d.
     res_bind (int16 (dict_get_or d ''blockNumber'' (JStr ''0x0''))) (\<lambda>bn.
     res_bind (receipt_status d) (\<lambda>st.
     let topic = ''0x'' @ to_hex (at_keccak ab (encode_utf8 MEMORY_ANCHORED_EVENT)) in
     res_bind (json_iter (py_or (dict_get_or d ''logs'' (JList [])) (JList []))) (\<lambda>logs.
     res_bind (any_log (topic_is topic) logs) (\<lambda>emitted.
     res_bind (if legacy then Inr None else map_sum id Some (any_log (identity_topic_is topic identity) logs)) (\<lambda>matches.
       Inr \<lparr>ar_block_number = bn, ar_status = st, ar_event_emitted = emitted, ar_event_identity_id_matches = matches\<rparr>))))))"

definition anchor_memory ::
  "'w net \<Rightarrow> key_tools \<Rightarrow> abi_tools \<Rightarrow> string \<Rightarrow> string \<Rightarrow> string \<Rightarrow> string \<Rightarrow> int option \<Rightarrow> bool \<Rightarrow> bool \<Rightarrow> 'w \<Rightarrow> 'w \<times> anchored res" where
  "anchor_memory nt kt ab rpc_url pk anchor_address root_hex identity_id legacy wait w =
     (case anchor_call (prefixed root_hex) identity_id legacy of
        Inl e \<Rightarrow> (w, Inl e)
      | Inr (sig, args, identity) \<Rightarrow>
          (case cast_send nt kt rpc_url pk anchor_address (Some sig) args 0 None None w of
             (w1, Inl e) \<Rightarrow> (w1, Inl e)
           | (w1, Inr tx) \<Rightarrow>
               (let out = \<lparr>an_tx_hash = tx, an_root = prefixed root_hex, an_anchor = anchor_address,
                           an_identity_id = identity, an_identity_path = (\<not> legacy), an_receipt = None\<rparr>
                in if \<not> wait then (w1, Inr out)
                   else (let (w2, r) = wait_for_receipt nt rpc_url tx 60 DEFAULT_POLL w1
                         in (w2, res_bind r (\<lambda>receipt.
                               map_sum id (\<lambda>ar. out\<lparr>an_receipt := Some ar\<rparr>) (read_anchor_receipt ab legacy identity receipt)))))))"

subsection \<open>The command line\<close>

definition cli_root ::
  "(byte list \<Rightarrow> byte list) \<Rightarrow> (rat \<Rightarrow> string) \<Rightarrow> (nat \<Rightarrow> int \<Rightarrow> vec list) \<Rightarrow> string option \<Rightarrow> mem_file \<Rightarrow> string res" where
  "cli_root H fr build_rotation given_root file =
     (case given_root of
        Some r \<Rightarrow> if r \<noteq> [] then Inr r
                  else map_sum id (\<lambda>m. ''0x'' @ to_hex (pinned_merkle_root H fr m)) (load build_rotation file)
      | None \<Rightarrow> map_sum id (\<lambda>m. ''0x'' @ to_hex (pinned_merkle_root H fr m)) (load build_rotation file))"

definition cli_key :: "crypto \<Rightarrow> environ \<Rightarrow> dir \<Rightarrow> string option \<Rightarrow> string option \<Rightarrow> string option \<Rightarrow> string res" where
  "cli_key cr environ keystores pk account typed =
     (case pk of
        Some p \<Rightarrow> if p \<noteq> [] then Inr p else resolve_deployer_key cr environ keystores account True typed
      | None \<Rightarrow> resolve_deployer_key cr environ keystores account True typed)"

end
