(* ===== verification/Resolve_Bond.thy ===== *)
theory Resolve_Bond
  imports Chain
begin

text \<open>
  Bond resolution, \<open>scripts/resolve_bond.py\<close>: the price update of Pyth's Hermes service, the update fee,
  the call of the performance oracle and the verdict in its receipt. The GET request of Hermes is a
  function on the world.
\<close>

definition ARC_PYTH_DEFAULT :: string where
  "ARC_PYTH_DEFAULT = ''0x2880aB155794e7179c9eE2e38200202908C17B43''"

definition ADVICE_RESOLVED_EVENT :: string where
  "ADVICE_RESOLVED_EVENT = ''AdviceResolved(address,int64,int64,int256,bool)''"

definition event_topic :: "abi_tools \<Rightarrow> string \<Rightarrow> string" where
  "event_topic ab sig = ''0x'' @ to_hex (at_keccak ab (encode_utf8 sig))"

subsection \<open>Hermes\<close>

record hermes_price =
  hp_vaa :: string
  hp_price :: int
  hp_expo :: int
  hp_conf :: int
  hp_publish_time :: int
  hp_price_float :: rat
  hp_feed_id :: string

type_synonym 'w hermes = "'w \<Rightarrow> string \<Rightarrow> 'w \<times> reply res"

definition int_field :: "json \<Rightarrow> string \<Rightarrow> int res" where
  "int_field v k = res_bind (py_item v k) py_int"

definition hermes_vaa :: "dict \<Rightarrow> string res" where
  "hermes_vaa data =
     res_bind (as_dict (py_or (dict_get data ''binary'') (JObj []))) (\<lambda>binary.
       let blobs = py_or (dict_get binary ''data'') (JList [])
       in if \<not> truthy blobs then Inl (RuntimeError ''Hermes returned no binary VAA for feed'')
          else res_bind (json_index blobs 0) (\<lambda>b. res_bind (as_str b) (\<lambda>vaa.
                 Inr (if startswith vaa ''0x'' then vaa else ''0x'' @ vaa))))"

definition hermes_update :: "string \<Rightarrow> json \<Rightarrow> hermes_price res" where
  "hermes_update feed_id v =
     res_bind (as_dict v) (\<lambda>data.
     res_bind (hermes_vaa data) (\<lambda>vaa.
       let parsed = py_or (dict_get data ''parsed'') (JList [])
       in if \<not> truthy parsed then Inl (RuntimeError ''Hermes returned no parsed price for feed'')
          else res_bind (json_index parsed 0) (\<lambda>first.
               res_bind (py_item first ''price'') (\<lambda>po.
               res_bind (int_field po ''price'') (\<lambda>price.
               res_bind (int_field po ''expo'') (\<lambda>expo.
               res_bind (int_field po ''conf'') (\<lambda>conf.
               res_bind (int_field po ''publish_time'') (\<lambda>pt.
                 Inr \<lparr>hp_vaa = vaa, hp_price = price, hp_expo = expo, hp_conf = conf, hp_publish_time = pt,
                      hp_price_float = of_int price * pow10 expo, hp_feed_id = feed_id\<rparr>))))))))"

definition fetch_hermes_vaa :: "'w hermes \<Rightarrow> string \<Rightarrow> 'w \<Rightarrow> 'w \<times> hermes_price res" where
  "fetch_hermes_vaa get feed_id w =
     (let (w', r) = get w (removeprefix feed_id ''0x'')
      in (w', res_bind r (\<lambda>rp. res_bind (raise_for_status rp) (\<lambda>_. res_bind (reply_json rp) (hermes_update feed_id)))))"

subsection \<open>The call of the oracle\<close>

definition leading_int :: "string \<Rightarrow> int res" where
  "leading_int out =
     (case split_ws out of
        [] \<Rightarrow> Inl (IndexError ''list index out of range'')
      | t # _ \<Rightarrow> of_opt (ValueError ''invalid literal for int() with base 10'') (parse_int t))"

definition get_update_fee :: "'w net \<Rightarrow> string \<Rightarrow> string \<Rightarrow> string \<Rightarrow> 'w \<Rightarrow> 'w \<times> int res" where
  "get_update_fee nt rpc_url pyth_addr vaa_hex w =
     (let (w', r) = cast_call nt rpc_url pyth_addr ''getUpdateFee(bytes[])(uint256)'' [''['' @ vaa_hex @ '']''] w
      in (w', res_bind r leading_int))"

definition encode_resolve_calldata :: "abi_tools \<Rightarrow> string \<Rightarrow> string \<Rightarrow> string res" where
  "encode_resolve_calldata ab agent vaa_hex =
     res_bind (of_opt (ValueError ''non-hexadecimal number found in fromhex() arg'') (fromhex (removeprefix vaa_hex ''0x''))) (\<lambda>vaa.
     res_bind (at_canonical ab agent) (\<lambda>a.
       calldata ab ''resolve(address,bytes[])'' [''address'', ''bytes[]''] [ABytes a, AList [ABytes vaa]]))"

record verdict =
  ve_agent :: "string option"
  ve_p0 :: int
  ve_p1 :: int
  ve_r_bps :: int
  ve_slashed :: bool

text \<open>The data of one \<open>AdviceResolved\<close> log.\<close>

definition resolved_data :: "abi_tools \<Rightarrow> string \<Rightarrow> (int \<times> int \<times> int \<times> bool) res" where
  "resolved_data ab data_hex =
     res_bind (of_opt (ValueError ''non-hexadecimal number found in fromhex() arg'') (fromhex data_hex)) (\<lambda>bs.
     res_bind (at_decode ab [''int64'', ''int64'', ''int256'', ''bool''] bs) (\<lambda>vals.
       case vals of
         [AInt p0, AInt p1, AInt r, AJson (JBool slashed)] \<Rightarrow> Inr (p0, p1, r, slashed)
       | _ \<Rightarrow> Inl (LibraryError ''eth_abi.decode'')))"

definition agent_of_topics :: "json \<Rightarrow> string option res" where
  "agent_of_topics topics =
     res_bind (json_len topics) (\<lambda>n.
       if n \<le> 1 then Inr None
       else res_bind (json_index topics 1) (\<lambda>t1.
              if \<not> truthy t1 then Inr None else map_sum id (\<lambda>s. Some (''0x'' @ last40 s)) (sliced t1)))"

definition verdict_of_log :: "abi_tools \<Rightarrow> json \<Rightarrow> dict \<Rightarrow> verdict res" where
  "verdict_of_log ab topics lg =
     res_bind (agent_of_topics topics) (\<lambda>agent.
     res_bind (as_str (dict_get_or lg ''data'' (JStr ''0x''))) (\<lambda>data.
     res_bind (resolved_data ab (removeprefix data ''0x'')) (\<lambda>(p0, p1, r, slashed).
       Inr \<lparr>ve_agent = agent, ve_p0 = p0, ve_p1 = p1, ve_r_bps = r, ve_slashed = slashed\<rparr>)))"

text \<open>Whether a log is the event of this oracle: the topic is compared before the address.\<close>

definition resolved_here :: "abi_tools \<Rightarrow> string \<Rightarrow> json \<Rightarrow> dict \<Rightarrow> bool res" where
  "resolved_here ab oracle_addr topics lg =
     (if \<not> truthy topics then Inr False
      else res_bind (json_index topics 0) (\<lambda>t0.
           res_bind (as_str t0) (\<lambda>s0.
             if lower s0 \<noteq> lower (event_topic ab ADVICE_RESOLVED_EVENT) then Inr False
             else res_bind (as_str (dict_get_or lg ''address'' (JStr []))) (\<lambda>addr.
                    Inr (lower addr = lower oracle_addr)))))"

fun scan_resolved :: "abi_tools \<Rightarrow> string \<Rightarrow> json list \<Rightarrow> verdict option res" where
  "scan_resolved ab oracle_addr [] = Inr None"
| "scan_resolved ab oracle_addr (lg # lgs) =
     res_bind (as_dict lg) (\<lambda>d.
       let topics = py_or (dict_get d ''topics'') (JList [])
       in res_bind (resolved_here ab oracle_addr topics d) (\<lambda>hit.
            if hit then map_sum id Some (verdict_of_log ab topics d) else scan_resolved ab oracle_addr lgs))"

definition parse_advice_resolved :: "abi_tools \<Rightarrow> dict \<Rightarrow> string \<Rightarrow> verdict option res" where
  "parse_advice_resolved ab receipt oracle_addr =
     res_bind (json_iter (py_or (dict_get_or receipt ''logs'' (JList [])) (JList []))) (scan_resolved ab oracle_addr)"

record bond_result =
  bo_tx_hash :: json
  bo_status :: int
  bo_block_number :: int
  bo_update_fee :: int
  bo_value_sent :: int
  bo_hermes :: hermes_price
  bo_advice_resolved :: "verdict option"

definition bond_of_receipt :: "abi_tools \<Rightarrow> string \<Rightarrow> hermes_price \<Rightarrow> int \<Rightarrow> int \<Rightarrow> json \<Rightarrow> json \<Rightarrow> bond_result res" where
  "bond_of_receipt ab oracle_addr hermes fee val tx_hash receipt =
     res_bind (as_dict receipt) (\<lambda>d.
     res_bind (receipt_status d) (\<lambda>status.
       if status \<noteq> 1 then Inl (RuntimeError ''resolve() reverted'')
       else res_bind (parse_advice_resolved ab d oracle_addr) (\<lambda>event.
            res_bind (int16 (dict_get_or d ''blockNumber'' (JStr ''0x0''))) (\<lambda>bn.
              Inr \<lparr>bo_tx_hash = tx_hash, bo_status = status, bo_block_number = bn, bo_update_fee = fee,
                   bo_value_sent = val, bo_hermes = hermes, bo_advice_resolved = event\<rparr>))))"

definition resolve_bond ::
  "'w net \<Rightarrow> key_tools \<Rightarrow> abi_tools \<Rightarrow> 'w hermes \<Rightarrow> string \<Rightarrow> string \<Rightarrow> string \<Rightarrow> string \<Rightarrow> string \<Rightarrow> string \<Rightarrow> int \<Rightarrow> int \<Rightarrow>
   'w \<Rightarrow> 'w \<times> bond_result res" where
  "resolve_bond nt kt ab get rpc_url pk oracle_addr agent pyth_addr feed_id fee_buffer gas_limit w =
     (case fetch_hermes_vaa get feed_id w of
        (w1, Inl e) \<Rightarrow> (w1, Inl e)
      | (w1, Inr hermes) \<Rightarrow>
          (case get_update_fee nt rpc_url pyth_addr (hp_vaa hermes) w1 of
             (w2, Inl e) \<Rightarrow> (w2, Inl e)
           | (w2, Inr fee) \<Rightarrow>
               (let val = fee + max 0 fee_buffer
                in case encode_resolve_calldata ab agent (hp_vaa hermes) of
                     Inl e \<Rightarrow> (w2, Inl e)
                   | Inr data \<Rightarrow>
                       (case cast_send nt kt rpc_url pk oracle_addr None [] val (Some data) (Some gas_limit) w2 of
                          (w3, Inl e) \<Rightarrow> (w3, Inl e)
                        | (w3, Inr tx) \<Rightarrow>
                            (let (w4, r) = wait_for_receipt nt rpc_url tx 90 DEFAULT_POLL w3
                             in (w4, res_bind r (bond_of_receipt ab oracle_addr hermes fee val tx)))))))"

definition DEFAULT_RESOLVE_GAS :: int where
  "DEFAULT_RESOLVE_GAS = 1500000"

end
