(* ===== verification/Chain_Properties.thy ===== *)
theory Chain_Properties
  imports Anchor Resolve_Bond
begin

text \<open>
  What the chain helpers promise: the wait for a receipt ends, with an answer of the node or after its
  deadline; and the revert probe reports a revert only on evidence of one.
\<close>

subsection \<open>The wait for a receipt\<close>

text \<open>
  A clock that does not run back: a reading lies between the time before and after it, a request
  takes no negative time, and a sleep lasts at least what was asked for.
\<close>

definition steady :: "'w net \<Rightarrow> ('w \<Rightarrow> rat) \<Rightarrow> bool" where
  "steady nt now \<longleftrightarrow>
     (\<forall>w. now w \<le> snd (nt_time nt w) \<and> snd (nt_time nt w) \<le> now (fst (nt_time nt w))) \<and>
     (\<forall>w url body. now w \<le> now (fst (nt_post nt w url body))) \<and>
     (\<forall>w s. now w + s \<le> now (nt_sleep nt w s))"

lemma steadyD:
  assumes "steady nt now"
  shows "nt_time nt w = (w1, x) \<Longrightarrow> now w \<le> x \<and> x \<le> now w1"
    and "rpc_call nt url w1 method params = (w2, r) \<Longrightarrow> now w1 \<le> now w2"
    and "now w2 + s \<le> now (nt_sleep nt w2 s)"
  using assms by (auto simp: steady_def rpc_call_def split_beta Let_def; metis fst_conv snd_conv)+

lemma receipt_loop_enough:
  assumes "steady nt now" and "0 < poll"
    and "deadline \<le> now w + of_nat k * poll" and "deadline \<le> now w + of_nat m * poll"
  shows "receipt_loop (Suc k) nt url tx deadline poll w = receipt_loop (Suc m) nt url tx deadline poll w"
  using assms(3,4)
proof (induction k arbitrary: m w)
  case 0
  obtain w1 x where t: "nt_time nt w = (w1, x)" by fastforce
  have "deadline \<le> x" using 0 steadyD(1) [OF assms(1) t] by simp
  then show ?case by (simp add: t)
next
  case (Suc k)
  obtain w1 x where t: "nt_time nt w = (w1, x)" by fastforce
  obtain w2 r where c: "rpc_call nt url w1 ''eth_getTransactionReceipt'' [tx] = (w2, r)" by fastforce
  show ?case
  proof (cases m)
    case 0
    then have "deadline \<le> x" using Suc.prems steadyD(1) [OF assms(1) t] by simp
    then show ?thesis by (simp add: t 0)
  next
    case (Suc m')
    let ?v = "nt_sleep nt w2 poll"
    have "now w + poll \<le> now ?v"
      using steadyD(1) [OF assms(1) t] steadyD(2) [OF assms(1) c] steadyD(3) [OF assms(1), of w2 poll] by simp
    then have "deadline \<le> now ?v + of_nat k * poll" "deadline \<le> now ?v + of_nat m' * poll"
      using Suc.prems Suc by (simp_all add: algebra_simps)
    from Suc.IH [OF this] show ?thesis
      by (subst (1 2) receipt_loop.simps) (simp add: Suc t c del: receipt_loop.simps split: sum.split)
  qed
qed

lemma receipt_loop_outcome:
  assumes "steady nt now" and "0 < poll" and "deadline \<le> now w + of_nat k * poll"
    and "receipt_loop (Suc k) nt url tx deadline poll w = (w', r)"
  shows "(case r of
      Inr v \<Rightarrow> v \<noteq> JNull \<and> (\<exists>u. rpc_call nt url u ''eth_getTransactionReceipt'' [tx] = (w', Inr v))
    | Inl e \<Rightarrow> e = TimeoutError ''receipt not seen'' \<and> deadline \<le> now w' \<or>
               (\<exists>u. rpc_call nt url u ''eth_getTransactionReceipt'' [tx] = (w', Inl e)))"
  using assms(3,4)
proof (induction k arbitrary: w)
  case 0
  obtain w1 x where t: "nt_time nt w = (w1, x)" by fastforce
  have "deadline \<le> x" "x \<le> now w1" using 0 steadyD(1) [OF assms(1) t] by simp_all
  with 0 show ?case by (auto simp: t)
next
  case (Suc k)
  obtain w1 x where t: "nt_time nt w = (w1, x)" by fastforce
  obtain w2 q where c: "rpc_call nt url w1 ''eth_getTransactionReceipt'' [tx] = (w2, q)" by fastforce
  let ?v = "nt_sleep nt w2 poll"
  consider "deadline \<le> x" | e where "x < deadline" "q = Inl e" | v where "x < deadline" "q = Inr v" "v \<noteq> JNull"
    | "x < deadline" "q = Inr JNull"
    by (cases q) force+
  then show ?case
  proof cases
    case 1
    with Suc.prems(2) have "w' = w1" "r = Inl (TimeoutError ''receipt not seen'')" by (simp_all add: t)
    then show ?thesis using 1 steadyD(1) [OF assms(1) t] by simp
  next
    case 4
    have "now w + poll \<le> now ?v"
      using steadyD(1) [OF assms(1) t] steadyD(2) [OF assms(1) c] steadyD(3) [OF assms(1), of w2 poll] by simp
    then have "deadline \<le> now ?v + of_nat k * poll" using Suc.prems by (simp add: algebra_simps)
    moreover have "receipt_loop (Suc k) nt url tx deadline poll ?v = (w', r)"
      using Suc.prems(2) 4 by (subst (asm) receipt_loop.simps) (simp add: t c del: receipt_loop.simps)
    ultimately show ?thesis by (rule Suc.IH)
  qed (use Suc.prems(2) c in \<open>auto simp: t\<close>)
qed

lemma receipt_fuel_enough:
  assumes "steady nt now" and "0 < poll" and "nt_time nt w = (w1, start)" and "receipt_fuel tmo poll \<le> Suc n"
  shows "start + tmo \<le> now w1 + of_nat n * poll"
proof -
  have "tmo / poll \<le> of_int \<lceil>tmo / poll\<rceil>" by simp
  also have "\<dots> \<le> of_nat (nat \<lceil>tmo / poll\<rceil>)" by simp
  also have "\<dots> \<le> of_nat n" using assms(4) by (simp add: receipt_fuel_def)
  finally have "tmo \<le> of_nat n * poll" using assms(2) by (simp add: pos_divide_le_eq)
  then show ?thesis using steadyD(1) [OF assms(1,3)] by simp
qed

text \<open>C31: (termination) The wait for a receipt returns: no amount of fuel above \<open>receipt_fuel\<close> changes its
  result, so the model's bound is never what ends it. It returns either a receipt that the node gave
  for this transaction, or the node's own exception, or the timeout, and the timeout only once the
  clock has passed the deadline.\<close>

theorem receipt_wait_ends:
  assumes "steady nt now" and "0 < poll" and "nt_time nt w = (w1, start)"
    and "wait_for_receipt nt url tx tmo poll w = (w', r)"
  shows "(\<forall>n \<ge> receipt_fuel tmo poll. receipt_loop n nt url tx (start + tmo) poll w1 = (w', r)) \<and>
    (case r of
       Inr v \<Rightarrow> v \<noteq> JNull \<and> (\<exists>u. rpc_call nt url u ''eth_getTransactionReceipt'' [tx] = (w', Inr v))
     | Inl e \<Rightarrow> e = TimeoutError ''receipt not seen'' \<and> start + tmo \<le> now w' \<or>
                (\<exists>u. rpc_call nt url u ''eth_getTransactionReceipt'' [tx] = (w', Inl e)))"
proof -
  define k where "k = nat \<lceil>tmo / poll\<rceil>"
  have f: "receipt_fuel tmo poll = Suc k" by (simp add: receipt_fuel_def k_def)
  have run: "receipt_loop (Suc k) nt url tx (start + tmo) poll w1 = (w', r)"
    using assms(3,4) by (simp add: wait_for_receipt_def f del: receipt_loop.simps)
  have enough: "start + tmo \<le> now w1 + of_nat m * poll" if "k \<le> m" for m
    using receipt_fuel_enough [OF assms(1-3), of tmo m] that by (simp add: f)
  have "receipt_loop n nt url tx (start + tmo) poll w1 = (w', r)" if n: "receipt_fuel tmo poll \<le> n" for n
  proof -
    obtain m where m: "n = Suc m" "k \<le> m" using n f by (cases n) auto
    show ?thesis
      using receipt_loop_enough [OF assms(1,2) enough [OF m(2)] enough [OF order_refl]] run m(1) by simp
  qed
  then show ?thesis using receipt_loop_outcome [OF assms(1,2) enough [OF order_refl] run] by blast
qed

text \<open>A node whose state is the time: it knows the receipt from second 1 on.\<close>

definition timed_net :: "rat net" where
  "timed_net =
     \<lparr>nt_post = (\<lambda>t url body. (t + 1 / 10, Inr \<lparr>rp_status = 200,
        rp_json = Some (JObj [(''result'', if t < 1 then JNull else JObj [(''status'', JStr ''0x1'')])])\<rparr>)),
      nt_time = (\<lambda>t. (t, t)), nt_sleep = (\<lambda>t s. t + s), nt_cast = (\<lambda>t args. (t, Inr (0, [], []))),
      nt_float_repr = ratio_repr\<rparr>"

lemma timed_net_steady: "steady timed_net (\<lambda>t. t)"
  by (simp add: steady_def timed_net_def)

lemma timed_net_rpc:
  "rpc_call timed_net url t method params =
     (t + 1 / 10, Inr (if t < 1 then JNull else JObj [(''status'', JStr ''0x1'')]))"
  by (simp add: rpc_call_def timed_net_def raise_for_status_def reply_json_def rpc_result_def dict_get_def)

theorem receipt_wait_ends_witness:
  "wait_for_receipt timed_net ''rpc'' (JStr ''0xab'') 2 (1 / 2) 0 = (13 / 10, Inr (JObj [(''status'', JStr ''0x1'')])) \<and>
   receipt_loop 9 timed_net ''rpc'' (JStr ''0xab'') 2 (1 / 2) 0 = (13 / 10, Inr (JObj [(''status'', JStr ''0x1'')]))"
proof -
  have f: "receipt_fuel 2 (1 / 2) = 5" by (simp add: receipt_fuel_def)
  have t: "nt_time timed_net 0 = (0, 0)" "nt_time timed_net t = (t, t)" "nt_sleep timed_net t s = t + s" for t s
    by (simp_all add: timed_net_def)
  have w: "wait_for_receipt timed_net ''rpc'' (JStr ''0xab'') 2 (1 / 2) 0 = (13 / 10, Inr (JObj [(''status'', JStr ''0x1'')]))"
    by (simp add: wait_for_receipt_def f t timed_net_rpc eval_nat_numeral)
  from receipt_wait_ends [OF timed_net_steady _ t(1) w] f w show ?thesis by simp
qed

subsection \<open>The revert probe\<close>

definition signals_revert :: "'a res \<Rightarrow> bool" where
  "signals_revert r = (case r of Inr _ \<Rightarrow> False
     | Inl e \<Rightarrow> (case runtime_text e of None \<Rightarrow> False | Some msg \<Rightarrow> is_runtime_revert msg))"

lemma signals_revert_simps [simp]:
  "\<not> signals_revert (Inr x)"
  "runtime_text e = None \<Longrightarrow> \<not> signals_revert (Inl e)"
  "runtime_text e = Some msg \<Longrightarrow> signals_revert (Inl e) = is_runtime_revert msg"
  by (simp_all add: signals_revert_def)

lemma probe_outcome_Inr:
  "probe_outcome r = Inr (seen, reason) \<Longrightarrow> seen = signals_revert r \<and> (seen \<or> (\<exists>v. r = Inr v))"
  by (cases r) (auto simp: probe_outcome_def split: option.splits if_splits)

lemma judge_broadcast_Inr:
  "judge_broadcast (seen, reason) b r = Inr (seen', reason') \<Longrightarrow>
   seen' = (seen \<or> signals_revert r \<or> r = Inr () \<and> br_status b = Some 0) \<and> (seen' \<or> r = Inr ())"
  by (cases r) (auto simp: judge_broadcast_def split: option.splits if_splits)

lemma live_broadcast_Inr: "live_broadcast nt kt url pk hook data w = (w', b, Inr u) \<Longrightarrow> br_status b \<noteq> None"
  by (auto simp: live_broadcast_def Let_def split: prod.splits sum.splits)

definition probe_call :: "string \<Rightarrow> string \<Rightarrow> string \<Rightarrow> json list" where
  "probe_call sender hook data =
     [JObj [(''from'', JStr sender), (''to'', JStr hook), (''data'', JStr data)], JStr ''latest'']"

text \<open>C32: (safety) The demo's claim that the constitution hook reverted is backed by evidence: a revert is
  reported exactly when the node's error for the dry run, or for the broadcast, carries a revert
  signature, or the mined receipt has status 0; no revert is reported only when the dry run was
  answered and the transaction was mined with another status. An error of the dry run that is not a
  \<open>RuntimeError\<close> (any failure of the HTTP client) is raised as it is, before anything is broadcast.\<close>

theorem revert_report_is_honest:
  assumes "call_validate_user_op_expect_revert nt kt ab url hook sender call_data pk w = (w', r)"
    and "encode_validate_user_op ab (user_op sender bs) (replicate 32 0) = Inr data"
    and "fromhex (removeprefix call_data ''0x'') = Some bs"
    and "rpc_call nt url w ''eth_call'' (probe_call sender hook data) = (w1, probe)"
    and "live_broadcast nt kt url pk hook data w1 = (w2, b, sent)"
  shows "(\<forall>seen ev. r = Inr (seen, ev) \<longrightarrow> w' = w2 \<and>
      seen = (signals_revert probe \<or> signals_revert sent \<or> sent = Inr () \<and> br_status b = Some 0) \<and>
      (\<not> seen \<longrightarrow> (\<exists>v. probe = Inr v) \<and> sent = Inr () \<and> br_status b \<notin> {None, Some 0}) \<and>
      ev_tx_hash ev = br_tx_hash b \<and> ev_receipt_status ev = br_status b) \<and>
    (\<forall>e. probe = Inl e \<longrightarrow> runtime_text e = None \<longrightarrow> w' = w1 \<and> r = Inl e)"
proof -
  note call = assms(1) [unfolded call_validate_user_op_expect_revert_def assms(3) of_opt_simps res_bind_simps assms(2)
      sum.case assms(4) [unfolded probe_call_def] Let_def prod.case]
  show ?thesis
  proof (cases "probe_outcome probe")
    case (Inl e)
    then have "w' = w1" "r = Inl e" using call by simp_all
    moreover have "e = e'" if "probe = Inl e'" "runtime_text e' = None" for e'
      using Inl that by (simp add: probe_outcome_def)
    ultimately show ?thesis by auto
  next
    case (Inr sr)
    obtain s0 r0 where sr: "sr = (s0, r0)" by fastforce
    note p = probe_outcome_Inr [OF Inr [unfolded sr]]
    have np: "runtime_text e \<noteq> None" if "probe = Inl e" for e
      using Inr that by (auto simp: probe_outcome_def split: option.splits)
    have w: "w' = w2" and r: "r = map_sum id (\<lambda>(seen, reason).
        (seen, \<lparr>ev_hook_address = hook, ev_sender = sender, ev_tx_hash = br_tx_hash b,
                ev_receipt_status = br_status b, ev_block_number = br_block b,
                ev_revert_reason = take 300 reason\<rparr>)) (judge_broadcast sr b sent)"
      using call by (simp_all add: Inr assms(5))
    have "seen = (signals_revert probe \<or> signals_revert sent \<or> sent = Inr () \<and> br_status b = Some 0) \<and>
        (\<not> seen \<longrightarrow> (\<exists>v. probe = Inr v) \<and> sent = Inr () \<and> br_status b \<notin> {None, Some 0}) \<and>
        ev_tx_hash ev = br_tx_hash b \<and> ev_receipt_status ev = br_status b"
      if h: "r = Inr (seen, ev)" for seen ev
    proof -
      obtain reason where j: "judge_broadcast (s0, r0) b sent = Inr (seen, reason)"
        and ev: "ev_tx_hash ev = br_tx_hash b" "ev_receipt_status ev = br_status b"
        using h r by (auto simp: map_sum_eq_Inr sr)
      note q = judge_broadcast_Inr [OF j]
      have "br_status b \<noteq> None" if "sent = Inr ()"
        using live_broadcast_Inr assms(5) that by metis
      then show ?thesis using p q ev by auto
    qed
    then show ?thesis using w np by blast
  qed
qed

lemma is_hex_digit [simp]: "d < 16 \<Longrightarrow> is_hex (hex_digit d)"
  by (simp add: is_hex_def hex_val_digit)

lemma to_hex_is_hex: "list_all is_hex (to_hex bs)"
proof (induction bs)
  case (Cons b bs)
  have "unat b div 16 < 16" "unat b mod 16 < 16" using unat_byte_lt [of b] by simp_all
  with Cons show ?case by (simp add: to_hex_def)
qed (simp add: to_hex_def)

lemma raw_call_bytes_hex [simp]: "raw_call_bytes (''0x'' @ to_hex bs) = Inr bs"
  using to_hex_is_hex [of bs] removeprefix_append [of "''0x''" "to_hex bs"]
  by (simp add: raw_call_bytes_def fromhex_to_hex)

lemma hex_data_bytes [simp]: "raw_call_bytes (hex_data bs) = Inr bs"
  using raw_call_bytes_hex [of bs] raw_call_bytes_hex [of "[]"] by (auto simp: hex_data_def to_hex_def)

text \<open>A node on which every call reverts.\<close>

definition reverting_net :: "nat net" where
  "reverting_net =
     \<lparr>nt_post = (\<lambda>n url body. (Suc n, Inr \<lparr>rp_status = 200,
        rp_json = Some (JObj [(''error'', JStr ''execution reverted'')])\<rparr>)),
      nt_time = (\<lambda>n. (n, of_nat n)), nt_sleep = (\<lambda>n s. n), nt_cast = (\<lambda>n args. (n, Inr (0, [], []))),
      nt_float_repr = ratio_repr\<rparr>"

definition plain_keys :: key_tools where
  "plain_keys = \<lparr>kt_address = (\<lambda>pk. Inr ''0xa''), kt_sign = (\<lambda>pk tx. Inr []), kt_checksum = (\<lambda>a. Inr a)\<rparr>"

definition flat_abi :: abi_tools where
  "flat_abi =
     \<lparr>at_keccak = (\<lambda>bs. replicate 32 0), at_encode = (\<lambda>types args. Inr []), at_decode = (\<lambda>types bs. Inr []),
      at_canonical = (\<lambda>a. Inr (replicate 20 0))\<rparr>"

lemma reverting_net_rpc:
  "rpc_call reverting_net url n method params =
     (Suc n, Inl (RuntimeError (''rpc '' @ method @ '' error: execution reverted'')))"
  by (simp add: rpc_call_def reverting_net_def raise_for_status_def reply_json_def rpc_result_def dict_item_def
      rpc_error_text_def)

lemma revert_text: "is_runtime_revert (''rpc '' @ method @ '' error: execution reverted'')"
proof -
  have "contains (lower (''rpc '' @ method @ '' error: execution reverted'')) ''revert''"
    unfolding contains_iff
    by (rule exI [of _ "lower (''rpc '' @ method @ '' error: execution '')"], rule exI [of _ "''ed''"])
      (simp add: lower_append, simp add: lower_eval)
  then show ?thesis by (simp add: is_runtime_revert_def REVERT_SIGNATURES_def)
qed

theorem revert_report_is_honest_witness:
  "\<exists>w' ev. call_validate_user_op_expect_revert reverting_net plain_keys flat_abi ''rpc'' ''0xb'' ''0xa'' ''0x'' ''pk'' 0 =
     (w', Inr (True, ev)) \<and> ev_tx_hash ev = JNull"
proof -
  let ?data = "''0x'' @ to_hex (replicate 4 0)"
  have enc: "encode_validate_user_op flat_abi (user_op ''0xa'' []) (replicate 32 0) = Inr ?data"
    by (simp add: encode_validate_user_op_def calldata_def selector_of_def flat_abi_def)
  have hx: "fromhex (removeprefix ''0x'' ''0x'') = Some []" by (simp add: removeprefix_def startswith_def)
  obtain w' r where call: "call_validate_user_op_expect_revert reverting_net plain_keys flat_abi ''rpc'' ''0xb'' ''0xa'' ''0x'' ''pk'' 0 = (w', r)"
    by fastforce
  obtain w2 b sent where live: "live_broadcast reverting_net plain_keys ''rpc'' ''pk'' ''0xb'' ?data 1 = (w2, b, sent)"
    by (metis prod_cases3)
  have probe: "rpc_call reverting_net ''rpc'' 0 ''eth_call'' (probe_call ''0xa'' ''0xb'' ?data) =
      (1, Inl (RuntimeError (''rpc '' @ ''eth_call'' @ '' error: execution reverted'')))"
    by (simp only: reverting_net_rpc One_nat_def)
  have live_end: "b = \<lparr>br_tx_hash = JNull, br_status = None, br_block = None\<rparr> \<and>
      sent = Inl (RuntimeError (''rpc '' @ ''eth_getTransactionCount'' @ '' error: execution reverted''))"
    using live raw_call_bytes_hex [of "replicate 4 0"]
    by (simp add: live_broadcast_def cast_send_def call_bytes_def sign_and_broadcast_def plain_keys_def fetch_tx_params_def
        get_nonce_def rpc_int_def reverting_net_rpc del: append_Cons)
  note texts = revert_text [of "''eth_call''", simplified] revert_text [of "''eth_getTransactionCount''", simplified]
  have "\<exists>ev. r = Inr (True, ev)"
    using call enc live live_end probe [unfolded probe_call_def]
    by (auto simp: call_validate_user_op_expect_revert_def hx probe_outcome_def judge_broadcast_def texts)
  then obtain ev where "r = Inr (True, ev)" by blast
  then show ?thesis
    using revert_report_is_honest [OF call enc hx probe live] call live_end by auto
qed

end
