(* ===== verification/Registry.thy ===== *)
theory Registry
  imports Resolve_Bond Keys
begin

text \<open>
  The registry service of \<open>agents/registry_api.py\<close>: calldata and receipts of the on-chain registry, the
  directory with its reputations, and the four write paths over the memory the service shares with
  its dark pool.

  The service holds the memory and, composed over it, the pool; \<open>rg_shared\<close> says whether the two are
  one object. The operations of a write that may fail after it changed the memory return the service
  beside the result.
\<close>

subsection \<open>Calldata\<close>

definition KIND_ADVICE_PUBLISHED :: int where "KIND_ADVICE_PUBLISHED = 0"
definition KIND_QUERY_PAID :: int where "KIND_QUERY_PAID = 1"
definition KIND_CONSTITUTION_REVERT :: int where "KIND_CONSTITUTION_REVERT = 2"
definition KIND_BOND_SLASHED :: int where "KIND_BOND_SLASHED = 3"
definition KIND_BOND_RELEASED :: int where "KIND_BOND_RELEASED = 4"

definition AGENT_ACTION_EVENT :: string where
  "AGENT_ACTION_EVENT = ''AgentAction(uint256,uint8,bytes,uint256)''"

definition AGENT_REGISTERED_EVENT :: string where
  "AGENT_REGISTERED_EVENT = ''AgentRegistered(uint256,uint256,address,bytes32)''"

definition encode_register :: "abi_tools \<Rightarrow> int \<Rightarrow> byte list \<Rightarrow> string \<Rightarrow> string \<Rightarrow> string res" where
  "encode_register ab identity_id constitution_hash bond_vault dark_pool_url =
     (if length constitution_hash \<noteq> 32 then Inl (ValueError ''constitution_hash must be 32 bytes'')
      else res_bind (at_canonical ab bond_vault) (\<lambda>vault.
             calldata ab ''register(uint256,bytes32,address,string)'' [''uint256'', ''bytes32'', ''address'', ''string'']
               [AInt identity_id, ABytes constitution_hash, ABytes vault, AJson (JStr dark_pool_url)]))"

definition encode_record_action :: "abi_tools \<Rightarrow> int \<Rightarrow> int \<Rightarrow> byte list \<Rightarrow> string res" where
  "encode_record_action ab agent_id kind payload =
     (if \<not> (0 \<le> kind \<and> kind \<le> 255) then Inl (ValueError ''kind must fit in uint8'')
      else calldata ab ''recordAction(uint256,uint8,bytes)'' [''uint256'', ''uint8'', ''bytes'']
             [AInt agent_id, AInt kind, ABytes payload])"

definition ADVICE_PAYLOAD_TYPES :: "string list" where
  "ADVICE_PAYLOAD_TYPES = [''string'', ''string'', ''string'', ''bytes32'']"

definition ADVICE_STANCES :: "string list" where
  "ADVICE_STANCES = [''long'', ''exit'', ''vol'', ''reduce'', ''neutral'']"

definition checked_stance :: "string \<Rightarrow> string" where
  "checked_stance stance = (if stance \<in> set ADVICE_STANCES then stance else ''neutral'')"

definition encode_advice_payload :: "abi_tools \<Rightarrow> string \<Rightarrow> string \<Rightarrow> string \<Rightarrow> byte list res" where
  "encode_advice_payload ab reasoning symbol stance =
     at_encode ab ADVICE_PAYLOAD_TYPES
       [AJson (JStr reasoning), AJson (JStr (upper symbol)), AJson (JStr (checked_stance stance)),
        ABytes (at_keccak ab (encode_utf8 reasoning))]"

record advice_trace =
  tr_reasoning :: string
  tr_symbol :: string
  tr_stance :: string
  tr_advice_hash :: string

definition decode_advice_bytes :: "abi_tools \<Rightarrow> byte list \<Rightarrow> advice_trace option" where
  "decode_advice_bytes ab raw =
     (if length raw \<le> 32 then None
      else (case at_decode ab ADVICE_PAYLOAD_TYPES raw of
          Inr [AJson (JStr reasoning), AJson (JStr symbol), AJson (JStr stance), ABytes advice_hash] \<Rightarrow>
            Some \<lparr>tr_reasoning = reasoning, tr_symbol = symbol, tr_stance = stance,
                  tr_advice_hash = ''0x'' @ to_hex advice_hash\<rparr>
        | _ \<Rightarrow> None))"

text \<open>The payload as bytes, or as text in hex.\<close>

definition decode_advice_payload :: "abi_tools \<Rightarrow> signature \<Rightarrow> advice_trace option res" where
  "decode_advice_payload ab payload =
     (case payload of
        SigBytes raw \<Rightarrow> Inr (decode_advice_bytes ab raw)
      | SigText s \<Rightarrow>
          map_sum id (decode_advice_bytes ab)
            (of_opt (ValueError ''non-hexadecimal number found in fromhex() arg'') (fromhex (removeprefix s ''0x''))))"

definition encode_agent_count :: "abi_tools \<Rightarrow> string" where
  "encode_agent_count ab = ''0x'' @ to_hex (selector_of ab ''agentCount()'')"

definition encode_get_agent :: "abi_tools \<Rightarrow> int \<Rightarrow> string res" where
  "encode_get_agent ab agent_id = calldata ab ''getAgent(uint256)'' [''uint256''] [AInt agent_id]"

definition AGENT_TUPLE :: string where
  "AGENT_TUPLE = ''(uint256,bytes32,address,string,address,uint64,bool)''"

record agent_row =
  aw_identity_id :: int
  aw_constitution_hash :: string
  aw_bond_vault :: string
  aw_dark_pool_url :: string
  aw_operator :: string
  aw_registered_at :: int
  aw_active :: bool

definition decode_agent_tuple :: "abi_tools \<Rightarrow> string \<Rightarrow> agent_row res" where
  "decode_agent_tuple ab return_hex =
     res_bind (of_opt (ValueError ''non-hexadecimal number found in fromhex() arg'') (fromhex (removeprefix return_hex ''0x''))) (\<lambda>raw.
     res_bind (at_decode ab [AGENT_TUPLE] raw) (\<lambda>vals.
       case vals of
         [ATuple [AInt identity_id, ABytes ch, AJson (JStr vault), AJson (JStr url), AJson (JStr operator), AInt at_secs, AJson (JBool active)]] \<Rightarrow>
           res_bind (at_canonical ab vault) (\<lambda>v.
           res_bind (at_canonical ab operator) (\<lambda>o_addr.
             Inr \<lparr>aw_identity_id = identity_id, aw_constitution_hash = ''0x'' @ to_hex ch, aw_bond_vault = ''0x'' @ to_hex v,
                  aw_dark_pool_url = url, aw_operator = ''0x'' @ to_hex o_addr, aw_registered_at = at_secs, aw_active = active\<rparr>))
       | _ \<Rightarrow> Inl (LibraryError ''eth_abi.decode'')))"

definition find_agent_id_in_receipt :: "abi_tools \<Rightarrow> dict \<Rightarrow> string \<Rightarrow> int option res" where
  "find_agent_id_in_receipt ab receipt registry_addr = first_indexed_topic ab receipt registry_addr AGENT_REGISTERED_EVENT"

record action_event =
  ae_agent_id :: "int option"
  ae_kind :: "int option"
  ae_payload :: string
  ae_timestamp :: int

definition topic_int :: "json \<Rightarrow> nat \<Rightarrow> int option res" where
  "topic_int topics i =
     res_bind (json_len topics) (\<lambda>n. if i < n then res_bind (json_index topics i) (\<lambda>t. map_sum id Some (int16 t)) else Inr None)"

definition event_of_log :: "abi_tools \<Rightarrow> json \<Rightarrow> dict \<Rightarrow> action_event res" where
  "event_of_log ab topics lg =
     res_bind (topic_int topics 1) (\<lambda>agent_id.
     res_bind (topic_int topics 2) (\<lambda>kind.
     res_bind (as_str (py_or (dict_get lg ''data'') (JStr ''0x''))) (\<lambda>data.
     res_bind (of_opt (ValueError ''non-hexadecimal number found in fromhex() arg'') (fromhex (removeprefix data ''0x''))) (\<lambda>bs.
     res_bind (at_decode ab [''bytes'', ''uint256''] bs) (\<lambda>vals.
       case vals of
         [ABytes payload, AInt timestamp] \<Rightarrow>
           Inr \<lparr>ae_agent_id = agent_id, ae_kind = kind, ae_payload = ''0x'' @ to_hex payload, ae_timestamp = timestamp\<rparr>
       | _ \<Rightarrow> Inl (LibraryError ''eth_abi.decode''))))))"

definition action_here :: "abi_tools \<Rightarrow> string \<Rightarrow> json \<Rightarrow> dict \<Rightarrow> bool res" where
  "action_here ab registry_addr topics lg =
     res_bind (lower_or_empty (dict_get lg ''address'')) (\<lambda>addr.
       if addr \<noteq> lower registry_addr \<or> \<not> truthy topics then Inr False
       else res_bind (json_index topics 0) (\<lambda>t0. res_bind (as_str t0) (\<lambda>s0.
              Inr (lower s0 = lower (event_topic ab AGENT_ACTION_EVENT)))))"

fun scan_actions :: "abi_tools \<Rightarrow> string \<Rightarrow> json list \<Rightarrow> action_event option res" where
  "scan_actions ab registry_addr [] = Inr None"
| "scan_actions ab registry_addr (lg # lgs) =
     res_bind (as_dict lg) (\<lambda>d.
       let topics = py_or (dict_get d ''topics'') (JList [])
       in res_bind (action_here ab registry_addr topics d) (\<lambda>hit.
            if hit then map_sum id Some (event_of_log ab topics d) else scan_actions ab registry_addr lgs))"

definition find_agent_action_in_receipt :: "abi_tools \<Rightarrow> dict \<Rightarrow> string \<Rightarrow> action_event option res" where
  "find_agent_action_in_receipt ab receipt registry_addr =
     res_bind (json_iter (py_or (dict_get_or receipt ''logs'' (JList [])) (JList []))) (scan_actions ab registry_addr)"

end
