(* ===== verification/Registry_Service.thy ===== *)
theory Registry_Service
  imports Registry
begin

text \<open>
  The service object of \<open>agents/registry_api.py\<close>: its construction over a memory and a dark pool, the
  reads of the directory, the write paths, the routes with their status codes, and the entry point
  that reads the environment.
\<close>

subsection \<open>State\<close>

record registry_config =
  rc_rpc_url :: string
  rc_registry_addr :: string
  rc_deployer_pk :: "string option"
  rc_deployer_account :: "string option"
  rc_chain_id :: int
  rc_payment_recipient :: "string option"
  rc_usdc_address :: string
  rc_price_per_query_usdc :: string
  rc_performance_oracle :: "string option"
  rc_pyth_addr :: "string option"
  rc_embedding_model :: "string option"
  rc_embedding_dim :: nat

definition default_registry_config :: "string \<Rightarrow> string \<Rightarrow> registry_config" where
  "default_registry_config rpc_url registry_addr =
     \<lparr>rc_rpc_url = rpc_url, rc_registry_addr = registry_addr, rc_deployer_pk = None, rc_deployer_account = None,
      rc_chain_id = 5042002, rc_payment_recipient = None,
      rc_usdc_address = ''0x3600000000000000000000000000000000000000'', rc_price_per_query_usdc = ''0.001'',
      rc_performance_oracle = None, rc_pyth_addr = None, rc_embedding_model = Some EMBEDDER_MODEL,
      rc_embedding_dim = EMBEDDER_DIM\<rparr>"

record registry =
  rg_config :: registry_config
  rg_memory :: memory
  rg_embedder :: embedder
  rg_dark_pool :: "dark_pool option"
  rg_shared :: bool

text \<open>The truth value of an optional string, and of an optional memory, whose \<open>__len__\<close> decides.\<close>

definition given :: "string option \<Rightarrow> string option" where
  "given s = (case s of None \<Rightarrow> None | Some t \<Rightarrow> if t = [] then None else Some t)"

definition memory_or_new :: "(nat \<Rightarrow> int \<Rightarrow> vec list) \<Rightarrow> registry_config \<Rightarrow> memory option \<Rightarrow> memory \<times> bool" where
  "memory_or_new build_rotation cfg mem =
     (case mem of
        Some m \<Rightarrow> if memory_len m \<noteq> 0 then (m, True) else (mk_memory build_rotation (rc_embedding_dim cfg) None 0, False)
      | None \<Rightarrow> (mk_memory build_rotation (rc_embedding_dim cfg) None 0, False))"

definition composed_pool ::
  "(string \<Rightarrow> rat option) \<Rightarrow> registry_config \<Rightarrow> string \<Rightarrow> disk \<Rightarrow> memory \<Rightarrow> dark_pool res" where
  "composed_pool decimal cfg recipient nonce_db m =
     res_bind (of_opt (LibraryError ''decimal.InvalidOperation'') (decimal (rc_price_per_query_usdc cfg))) (\<lambda>price.
       mk_dark_pool m ((default_options recipient)\<lparr>po_price_per_query_usdc := price,
         po_arc_chain_id := rc_chain_id cfg, po_usdc_address := rc_usdc_address cfg\<rparr>) nonce_db)"

text \<open>
  A pool that is handed in may have been built over the memory that is handed in beside it (\<open>same\<close>); one
  that the constructor composes is built over the service's memory.
\<close>

definition mk_registry ::
  "(nat \<Rightarrow> int \<Rightarrow> vec list) \<Rightarrow> (string \<Rightarrow> rat option) \<Rightarrow> registry_config \<Rightarrow> memory option \<Rightarrow> dark_pool option \<Rightarrow> bool \<Rightarrow>
   disk \<Rightarrow> registry res" where
  "mk_registry build_rotation decimal cfg mem pool same nonce_db =
     (let (m, taken) = memory_or_new build_rotation cfg mem;
          rg = \<lparr>rg_config = cfg, rg_memory = m,
                rg_embedder = \<lparr>eb_model_name = rc_embedding_model cfg, eb_dim = rc_embedding_dim cfg, eb_seed = 0\<rparr>,
                rg_dark_pool = pool, rg_shared = (taken \<and> same)\<rparr>
      in case (pool, given (rc_payment_recipient cfg)) of
           (None, Some recipient) \<Rightarrow>
             map_sum id (\<lambda>dp. rg\<lparr>rg_dark_pool := Some dp, rg_shared := True\<rparr>)
               (composed_pool decimal cfg recipient nonce_db m)
         | _ \<Rightarrow> Inr rg)"

definition put_memory :: "memory \<Rightarrow> registry \<Rightarrow> registry" where
  "put_memory m rg =
     rg\<lparr>rg_memory := m,
        rg_dark_pool := (if rg_shared rg then map_option (\<lambda>dp. dp\<lparr>dp_memory := m\<rparr>) (rg_dark_pool rg) else rg_dark_pool rg)\<rparr>"

text \<open>A request under \<open>/pool\<close>, handled by the mounted application.\<close>

definition pool_request :: "(dark_pool \<Rightarrow> dark_pool \<times> 'a) \<Rightarrow> registry \<Rightarrow> registry \<times> 'a option" where
  "pool_request handler rg =
     (case rg_dark_pool rg of
        None \<Rightarrow> (rg, None)
      | Some dp \<Rightarrow>
          (let (dp', a) = handler dp
           in (rg\<lparr>rg_dark_pool := Some dp', rg_memory := (if rg_shared rg then dp_memory dp' else rg_memory rg)\<rparr>, Some a)))"

subsection \<open>The world of the service\<close>

record 'w outside =
  rt_net :: "'w net"
  rt_keys :: key_tools
  rt_abi :: abi_tools
  rt_hermes :: "'w hermes"
  rt_embed :: duel_tools
  rt_crypto :: crypto
  rt_environ :: environ
  rt_keystores :: dir
  rt_typed :: "string option"  \<comment> \<open>answer of the password prompt\<close>

definition resolve_pk :: "'w outside \<Rightarrow> registry_config \<Rightarrow> string res" where
  "resolve_pk rt cfg =
     (case given (rc_deployer_pk cfg) of
        Some pk \<Rightarrow> Inr pk
      | None \<Rightarrow>
          resolve_deployer_key (rt_crypto rt) (rt_environ rt) (rt_keystores rt) (rc_deployer_account cfg) True (rt_typed rt))"

definition registry_send :: "'w outside \<Rightarrow> registry_config \<Rightarrow> string \<Rightarrow> string \<Rightarrow> 'w \<Rightarrow> 'w \<times> json res" where
  "registry_send rt cfg to_addr data w =
     (case resolve_pk rt cfg of
        Inl e \<Rightarrow> (w, Inl e)
      | Inr pk \<Rightarrow> cast_send (rt_net rt) (rt_keys rt) (rc_rpc_url cfg) pk to_addr None [] 0 (Some data) None w)"

definition registry_eth_call :: "'w outside \<Rightarrow> registry_config \<Rightarrow> string \<Rightarrow> string \<Rightarrow> 'w \<Rightarrow> 'w \<times> json res" where
  "registry_eth_call rt cfg to_addr data w =
     rpc_call (rt_net rt) (rc_rpc_url cfg) w ''eth_call''
       [JObj [(''to'', JStr to_addr), (''data'', JStr data)], JStr ''latest'']"

subsection \<open>Reads\<close>

definition registry_addr_or :: "string option \<Rightarrow> registry_config \<Rightarrow> string" where
  "registry_addr_or addr cfg = (case given addr of Some a \<Rightarrow> a | None \<Rightarrow> rc_registry_addr cfg)"

definition agent_count :: "'w outside \<Rightarrow> registry_config \<Rightarrow> string option \<Rightarrow> 'w \<Rightarrow> 'w \<times> int res" where
  "agent_count rt cfg addr w =
     (let (w', r) = registry_eth_call rt cfg (registry_addr_or addr cfg) (encode_agent_count (rt_abi rt)) w
      in (w', res_bind r (\<lambda>out. if truthy out \<and> out \<noteq> JStr ''0x'' then int16 out else Inr 0)))"

definition history_query :: "abi_tools \<Rightarrow> string \<Rightarrow> string \<Rightarrow> json" where
  "history_query ab oracle operator =
     JObj [(''fromBlock'', JStr ''0x0''), (''toBlock'', JStr ''latest''), (''address'', JStr oracle),
           (''topics'', JList [JStr (event_topic ab ADVICE_RESOLVED_EVENT),
                               JStr (''0x'' @ replicate 24 CHR ''0'' @ removeprefix (lower operator) ''0x'')])]"

text \<open>Wins and losses; a log that does not decode is skipped.\<close>

fun count_verdicts :: "abi_tools \<Rightarrow> json list \<Rightarrow> int \<times> int \<Rightarrow> (int \<times> int) res" where
  "count_verdicts ab [] acc = Inr acc"
| "count_verdicts ab (lg # lgs) (wins, losses) =
     res_bind (as_dict lg) (\<lambda>d.
     res_bind (as_str (py_or (dict_get d ''data'') (JStr ''0x''))) (\<lambda>data.
       case resolved_data ab (removeprefix data ''0x'') of
         Inl e \<Rightarrow> count_verdicts ab lgs (wins, losses)
       | Inr (p0, p1, r, slashed) \<Rightarrow>
           count_verdicts ab lgs (if slashed then (wins, losses + 1) else (wins + 1, losses))))"

definition scan_resolve_history ::
  "'w outside \<Rightarrow> registry_config \<Rightarrow> string \<Rightarrow> string \<Rightarrow> 'w \<Rightarrow> 'w \<times> (int \<times> int) res" where
  "scan_resolve_history rt cfg oracle operator w =
     (let (w', r) = rpc_call (rt_net rt) (rc_rpc_url cfg) w ''eth_getLogs'' [history_query (rt_abi rt) oracle operator]
      in (w', res_bind r (\<lambda>logs. res_bind (json_iter (py_or logs (JList []))) (\<lambda>lgs. count_verdicts (rt_abi rt) lgs (0, 0)))))"

definition reputation_for :: "'w outside \<Rightarrow> registry_config \<Rightarrow> agent_row \<Rightarrow> 'w \<Rightarrow> 'w \<times> int \<times> int" where
  "reputation_for rt cfg agent w =
     (case given (rc_performance_oracle cfg) of
        None \<Rightarrow> (w, 0, 0)
      | Some oracle \<Rightarrow>
          (case scan_resolve_history rt cfg oracle (aw_operator agent) w of
             (w', Inl e) \<Rightarrow> (w', 0, 0)
           | (w', Inr (wins, losses)) \<Rightarrow> (w', wins, losses)))"

record directory_row =
  dr_agent :: agent_row
  dr_agent_id :: int
  dr_wins :: int
  dr_losses :: int

definition get_agent :: "'w outside \<Rightarrow> registry_config \<Rightarrow> int \<Rightarrow> string option \<Rightarrow> 'w \<Rightarrow> 'w \<times> directory_row res" where
  "get_agent rt cfg agent_id addr w =
     (case encode_get_agent (rt_abi rt) agent_id of
        Inl e \<Rightarrow> (w, Inl e)
      | Inr data \<Rightarrow>
          (let (w1, r) = registry_eth_call rt cfg (registry_addr_or addr cfg) data w
           in case res_bind r (\<lambda>out. res_bind (as_str out) (decode_agent_tuple (rt_abi rt))) of
                Inl e \<Rightarrow> (w1, Inl e)
              | Inr agent \<Rightarrow>
                  (let (w2, wins, losses) = reputation_for rt cfg agent w1
                   in (w2, Inr \<lparr>dr_agent = agent, dr_agent_id = agent_id, dr_wins = wins, dr_losses = losses\<rparr>))))"

fun get_agents :: "'w outside \<Rightarrow> registry_config \<Rightarrow> int list \<Rightarrow> string option \<Rightarrow> 'w \<Rightarrow> 'w \<times> directory_row list res" where
  "get_agents rt cfg [] addr w = (w, Inr [])"
| "get_agents rt cfg (i # is) addr w =
     (case get_agent rt cfg i addr w of
        (w1, Inl e) \<Rightarrow> (w1, Inl e)
      | (w1, Inr row) \<Rightarrow> (let (w2, r) = get_agents rt cfg is addr w1 in (w2, map_sum id ((#) row) r)))"

definition list_agents :: "'w outside \<Rightarrow> registry_config \<Rightarrow> string option \<Rightarrow> 'w \<Rightarrow> 'w \<times> directory_row list res" where
  "list_agents rt cfg addr w =
     (let a = Some (registry_addr_or addr cfg)
      in case agent_count rt cfg a w of
           (w1, Inl e) \<Rightarrow> (w1, Inl e)
         | (w1, Inr n) \<Rightarrow> get_agents rt cfg [1..n] a w1)"

subsection \<open>Writes\<close>

text \<open>Send, wait, and read the receipt as a dict.\<close>

definition send_and_wait :: "'w outside \<Rightarrow> registry_config \<Rightarrow> string \<Rightarrow> string \<Rightarrow> 'w \<Rightarrow> 'w \<times> (json \<times> dict) res" where
  "send_and_wait rt cfg to_addr data w =
     (case registry_send rt cfg to_addr data w of
        (w1, Inl e) \<Rightarrow> (w1, Inl e)
      | (w1, Inr tx) \<Rightarrow>
          (let (w2, r) = wait_for_receipt (rt_net rt) (rc_rpc_url cfg) tx 90 DEFAULT_POLL w1
           in (w2, res_bind r (\<lambda>receipt. map_sum id (\<lambda>d. (tx, d)) (as_dict receipt)))))"

record register_body =
  rb_identity_id :: int
  rb_constitution_hash :: string
  rb_dark_pool_url :: string
  rb_bond_vault :: string
  rb_registry_addr :: "string option"

definition register_agent :: "'w outside \<Rightarrow> registry_config \<Rightarrow> register_body \<Rightarrow> 'w \<Rightarrow> 'w \<times> (int option \<times> json) res" where
  "register_agent rt cfg body w =
     (let addr = registry_addr_or (rb_registry_addr body) cfg
      in case res_bind (of_opt (ValueError ''non-hexadecimal number found in fromhex() arg'')
                          (fromhex (removeprefix (rb_constitution_hash body) ''0x'')))
                (\<lambda>ch. encode_register (rt_abi rt) (rb_identity_id body) ch (rb_bond_vault body) (rb_dark_pool_url body)) of
           Inl e \<Rightarrow> (w, Inl e)
         | Inr data \<Rightarrow>
             (let (w', r) = send_and_wait rt cfg addr data w
              in (w', res_bind r (\<lambda>(tx, receipt).
                    res_bind (check_status receipt ''register reverted'') (\<lambda>_.
                    res_bind (find_agent_id_in_receipt (rt_abi rt) receipt addr) (\<lambda>aid. Inr (aid, tx)))))))"

text \<open>One \<open>recordAction\<close>, confirmed by its status or not.\<close>

definition record_action ::
  "'w outside \<Rightarrow> registry_config \<Rightarrow> string option \<Rightarrow> int \<Rightarrow> int \<Rightarrow> byte list \<Rightarrow> 'w \<Rightarrow> 'w \<times> (json \<times> action_event option) res" where
  "record_action rt cfg revert_msg agent_id kind payload w =
     (case encode_record_action (rt_abi rt) agent_id kind payload of
        Inl e \<Rightarrow> (w, Inl e)
      | Inr data \<Rightarrow>
          (let (w', r) = send_and_wait rt cfg (rc_registry_addr cfg) data w
           in (w', res_bind r (\<lambda>(tx, receipt).
                 res_bind (case revert_msg of None \<Rightarrow> Inr () | Some msg \<Rightarrow> check_status receipt msg) (\<lambda>_.
                 res_bind (find_agent_action_in_receipt (rt_abi rt) receipt (rc_registry_addr cfg)) (\<lambda>event. Inr (tx, event)))))))"

record advice_body =
  av_trace :: string
  av_vec :: "vec option"
  av_payload :: "string option"
  av_trace_id :: "string option"
  av_kind :: string
  av_symbol :: "string option"
  av_stance :: "string option"

definition advice_vec :: "'w outside \<Rightarrow> registry \<Rightarrow> advice_body \<Rightarrow> vec res" where
  "advice_vec rt rg body =
     (case av_vec body of
        Some v \<Rightarrow> if length v \<noteq> ms_dim (rg_memory rg) then Inl (ValueError ''vec must be length dim'') else Inr v
      | None \<Rightarrow> embed (rt_embed rt) (rg_embedder rg) (av_trace body))"

definition advice_id :: "abi_tools \<Rightarrow> advice_body \<Rightarrow> string" where
  "advice_id ab body =
     (case given (av_trace_id body) of
        Some t \<Rightarrow> t
      | None \<Rightarrow> ''advice-'' @ take 16 (to_hex (at_keccak ab (encode_utf8 (av_trace body)))))"

definition advice_payload :: "abi_tools \<Rightarrow> advice_body \<Rightarrow> byte list res" where
  "advice_payload ab body =
     (case av_payload body of
        Some p \<Rightarrow> of_opt (ValueError ''non-hexadecimal number found in fromhex() arg'') (fromhex (removeprefix p ''0x''))
      | None \<Rightarrow>
          encode_advice_payload ab (av_trace body) (case given (av_symbol body) of None \<Rightarrow> [] | Some s \<Rightarrow> s)
            (case given (av_stance body) of None \<Rightarrow> ''neutral'' | Some s \<Rightarrow> s))"

record published =
  pu_tx_hash :: json
  pu_trace_id :: string
  pu_memory_entries :: int
  pu_event :: "action_event option"

text \<open>The first two steps: embed and add to the memory.\<close>

definition store_advice :: "'w outside \<Rightarrow> int \<Rightarrow> advice_body \<Rightarrow> real \<Rightarrow> registry \<Rightarrow> registry res" where
  "store_advice rt agent_id body now rg =
     res_bind (advice_vec rt rg body) (\<lambda>v.
     res_bind (add (rg_memory rg) (advice_id (rt_abi rt) body) v (av_kind body) False
                 (Some [(''agent_id'', JInt agent_id), (''trace'', JStr (av_trace body))]) now) (\<lambda>m.
       Inr (put_memory m rg)))"

definition publish_advice ::
  "'w outside \<Rightarrow> int \<Rightarrow> advice_body \<Rightarrow> real \<Rightarrow> registry \<Rightarrow> 'w \<Rightarrow> 'w \<times> registry \<times> published res" where
  "publish_advice rt agent_id body now rg w =
     (case store_advice rt agent_id body now rg of
        Inl e \<Rightarrow> (w, rg, Inl e)
      | Inr rg' \<Rightarrow>
          (case advice_payload (rt_abi rt) body of
             Inl e \<Rightarrow> (w, rg', Inl e)
           | Inr payload \<Rightarrow>
               (let (w', r) = record_action rt (rg_config rg) (Some ''recordAction reverted'') agent_id
                      KIND_ADVICE_PUBLISHED payload w
                in (w', rg', map_sum id (\<lambda>(tx, event).
                      \<lparr>pu_tx_hash = tx, pu_trace_id = advice_id (rt_abi rt) body,
                       pu_memory_entries = memory_len (rg_memory rg'), pu_event = event\<rparr>) r))))"

definition record_query_paid ::
  "'w outside \<Rightarrow> registry_config \<Rightarrow> int \<Rightarrow> byte list \<Rightarrow> 'w \<Rightarrow> 'w \<times> (json \<times> action_event option) res" where
  "record_query_paid rt cfg agent_id payload w =
     record_action rt cfg (Some ''recordAction(QUERY_PAID) reverted'') agent_id KIND_QUERY_PAID payload w"

record resolve_body =
  sb_oracle_addr :: "string option"
  sb_agent_addr :: "string option"
  sb_feed_id :: "string option"

definition or_given :: "string option \<Rightarrow> string option \<Rightarrow> string option" where
  "or_given a b = (case given a of Some s \<Rightarrow> Some s | None \<Rightarrow> given b)"

text \<open>The oracle's verdict, as the kind and the payload of the action: without an event, a release at zero.\<close>

definition verdict_kind :: "verdict option \<Rightarrow> int" where
  "verdict_kind v = (case v of Some x \<Rightarrow> if ve_slashed x then KIND_BOND_SLASHED else KIND_BOND_RELEASED | None \<Rightarrow> KIND_BOND_RELEASED)"

definition verdict_bps :: "verdict option \<Rightarrow> int" where
  "verdict_bps v = (case v of Some x \<Rightarrow> ve_r_bps x | None \<Rightarrow> 0)"

definition run_resolve_bond ::
  "'w outside \<Rightarrow> registry_config \<Rightarrow> resolve_body \<Rightarrow> 'w \<Rightarrow> 'w \<times> bond_result res" where
  "run_resolve_bond rt cfg body w =
     (case or_given (sb_oracle_addr body) (rc_performance_oracle cfg) of
        None \<Rightarrow> (w, Inl (ValueError ''no PerformanceOracle configured''))
      | Some oracle \<Rightarrow>
          (case given (sb_agent_addr body) of
             None \<Rightarrow> (w, Inl (ValueError ''agent_addr (on-chain advice owner) is required''))
           | Some agent_addr \<Rightarrow>
               (case resolve_pk rt cfg of
                  Inl e \<Rightarrow> (w, Inl e)
                | Inr pk \<Rightarrow>
                    resolve_bond (rt_net rt) (rt_keys rt) (rt_abi rt) (rt_hermes rt) (rc_rpc_url cfg) pk oracle agent_addr
                      (case given (rc_pyth_addr cfg) of Some p \<Rightarrow> p | None \<Rightarrow> ARC_PYTH_DEFAULT)
                      (case given (sb_feed_id body) of Some f \<Rightarrow> f | None \<Rightarrow> SOL_USD_FEED) 0 DEFAULT_RESOLVE_GAS w)))"

record resolution =
  re_bond :: bond_result
  re_kind :: int
  re_tx_hash :: json
  re_event :: "action_event option"

definition resolve_agent :: "'w outside \<Rightarrow> registry_config \<Rightarrow> int \<Rightarrow> resolve_body \<Rightarrow> 'w \<Rightarrow> 'w \<times> resolution res" where
  "resolve_agent rt cfg agent_id body w =
     (case run_resolve_bond rt cfg body w of
        (w1, Inl e) \<Rightarrow> (w1, Inl e)
      | (w1, Inr bond) \<Rightarrow>
          (let kind = verdict_kind (bo_advice_resolved bond)
           in case at_encode (rt_abi rt) [''int256''] [AInt (verdict_bps (bo_advice_resolved bond))] of
                Inl e \<Rightarrow> (w1, Inl e)
              | Inr payload \<Rightarrow>
                  (let (w2, r) = record_action rt cfg None agent_id kind payload w1
                   in (w2, map_sum id (\<lambda>(tx, event). \<lparr>re_bond = bond, re_kind = kind, re_tx_hash = tx, re_event = event\<rparr>) r))))"

subsection \<open>Routes\<close>

record registry_health =
  rh_ok :: bool
  rh_registry_addr :: string
  rh_chain_id :: int
  rh_memory_entries :: int
  rh_memory :: mem_stats
  rh_dark_pool_mounted :: bool

definition service_health :: "registry \<Rightarrow> registry_health" where
  "service_health rg =
     \<lparr>rh_ok = True, rh_registry_addr = rc_registry_addr (rg_config rg), rh_chain_id = rc_chain_id (rg_config rg),
      rh_memory_entries = memory_len (rg_memory rg), rh_memory = memory_stats (rg_memory rg),
      rh_dark_pool_mounted = (rg_dark_pool rg \<noteq> None)\<rparr>"

text \<open>What a route answers: 200 with the content, or the route's error code.\<close>

definition answer :: "int \<Rightarrow> 'a res \<Rightarrow> int \<times> 'a res" where
  "answer code r = (case r of Inr x \<Rightarrow> (200, Inr x) | Inl e \<Rightarrow> (code, Inl e))"

definition register_route where
  "register_route rt rg body w = (let (w', r) = register_agent rt (rg_config rg) body w in (w', answer 400 r))"

definition agents_route where
  "agents_route rt rg w = (let (w', r) = list_agents rt (rg_config rg) None w in (w', answer 502 r))"

definition advice_route where
  "advice_route rt agent_id body now rg w =
     (let (w', rg', r) = publish_advice rt agent_id body now rg w in (w', rg', answer 400 r))"

definition resolve_route where
  "resolve_route rt rg agent_id body w = (let (w', r) = resolve_agent rt (rg_config rg) agent_id body w in (w', answer 400 r))"

subsection \<open>The entry point\<close>

definition config_from_env :: "environ \<Rightarrow> string \<Rightarrow> string \<Rightarrow> int \<Rightarrow> registry_config" where
  "config_from_env environ rpc_url registry_addr cid =
     (default_registry_config rpc_url registry_addr)
       \<lparr>rc_deployer_pk := given (map_of environ ''DEPLOYER_PK''),
        rc_deployer_account := given (map_of environ ''DEPLOYER_ACCOUNT''),
        rc_chain_id := cid,
        rc_payment_recipient := given (map_of environ ''DARKPOOL_RECIPIENT''),
        rc_usdc_address := environ_get environ ''DARKPOOL_USDC_ADDRESS'' ''0x3600000000000000000000000000000000000000'',
        rc_price_per_query_usdc := environ_get environ ''DARKPOOL_PRICE_USDC'' ''0.001'',
        rc_performance_oracle := given (map_of environ ''ARENA_PERFORMANCE_ORACLE''),
        rc_pyth_addr := given (map_of environ ''ARENA_PYTH_ADDR'')\<rparr>"

definition build_service_from_env ::
  "(nat \<Rightarrow> int \<Rightarrow> vec list) \<Rightarrow> (string \<Rightarrow> rat option) \<Rightarrow> environ \<Rightarrow> disk \<Rightarrow> registry res" where
  "build_service_from_env build_rotation decimal environ nonce_db =
     (let rpc_url = strip (env_or environ ''ARENA_RPC_URL''); registry_addr = strip (env_or environ ''ARENA_REGISTRY_ADDR'')
      in if rpc_url = [] \<or> registry_addr = []
         then Inl (RuntimeError ''ARENA_RPC_URL and ARENA_REGISTRY_ADDR are required to build the registry service.'')
         else res_bind (of_opt (ValueError ''invalid literal for int() with base 10'')
                (parse_int (environ_get environ ''ARENA_CHAIN_ID'' ''5042002''))) (\<lambda>cid.
              mk_registry build_rotation decimal (config_from_env environ rpc_url registry_addr cid) None None False nonce_db))"

end
