(* ===== verification/Registry_Safety.thy ===== *)
theory Registry_Safety
  imports Registry_Service
begin

text \<open>
  Facts about the service: the memory it shares with its pool over any run of requests, what each
  write stores and sends, and the counting of verdicts.
\<close>

subsection \<open>One memory\<close>

definition coherent :: "registry \<Rightarrow> bool" where
  "coherent rg \<longleftrightarrow> (rg_shared rg \<longrightarrow> (case rg_dark_pool rg of None \<Rightarrow> True | Some dp \<Rightarrow> dp_memory dp = rg_memory rg))"

lemma mk_dark_pool_memory: "mk_dark_pool m po db = Inr dp \<Longrightarrow> dp_memory dp = m"
  by (auto simp: mk_dark_pool_def Let_def res_bind_eq_Inr split: if_splits)

lemma mk_registry_frame:
  assumes "mk_registry rot decimal cfg mem pool same db = Inr rg"
  shows "rg_config rg = cfg \<and> rg_memory rg = fst (memory_or_new rot cfg mem) \<and>
    (\<forall>dp. pool = Some dp \<longrightarrow> rg_dark_pool rg = Some dp \<and> rg_shared rg = (snd (memory_or_new rot cfg mem) \<and> same)) \<and>
    (pool = None \<longrightarrow> given (rc_payment_recipient cfg) \<noteq> None \<longrightarrow>
       rg_shared rg \<and> (\<exists>dp. rg_dark_pool rg = Some dp \<and> dp_memory dp = rg_memory rg))"
proof (cases "memory_or_new rot cfg mem")
  case (Pair m taken)
  show ?thesis
  proof (cases "pool = None \<and> given (rc_payment_recipient cfg) \<noteq> None")
    case True
    then obtain recipient where g: "given (rc_payment_recipient cfg) = Some recipient" by blast
    with assms True Pair obtain dp where
      "composed_pool decimal cfg recipient db m = Inr dp" and
      "rg = \<lparr>rg_config = cfg, rg_memory = m,
             rg_embedder = \<lparr>eb_model_name = rc_embedding_model cfg, eb_dim = rc_embedding_dim cfg, eb_seed = 0\<rparr>,
             rg_dark_pool = Some dp, rg_shared = True\<rparr>"
      by (auto simp: mk_registry_def Let_def map_sum_eq_Inr)
    moreover from this(1) have "dp_memory dp = m"
      by (auto simp: composed_pool_def res_bind_eq_Inr dest: mk_dark_pool_memory)
    ultimately show ?thesis using True Pair by simp
  next
    case False
    with assms Pair show ?thesis by (auto simp: mk_registry_def Let_def split: option.splits)
  qed
qed

lemma put_memory_simps [simp]:
  "rg_memory (put_memory m rg) = m" "rg_config (put_memory m rg) = rg_config rg"
  "rg_shared (put_memory m rg) = rg_shared rg" "rg_embedder (put_memory m rg) = rg_embedder rg"
  by (simp_all add: put_memory_def)

lemma coherent_put_memory: "coherent (put_memory m rg)"
  by (auto simp: coherent_def put_memory_def split: option.splits)

text \<open>What can happen to a service: a publication, a paid request, a purge of expired nonces.\<close>

inductive service_step :: "'w outside \<Rightarrow> environment \<Rightarrow> registry \<Rightarrow> registry \<Rightarrow> bool" for rt ev where
  publish: "publish_advice rt agent_id body now rg w = (w', rg', r) \<Longrightarrow> service_step rt ev rg rg'"
| pool_query: "pool_request (\<lambda>dp. handle_query ev ck dp rq) rg = (rg', a) \<Longrightarrow> service_step rt ev rg rg'"
| pool_add: "pool_request (\<lambda>dp. handle_add ev ck dp rq) rg = (rg', a) \<Longrightarrow> service_step rt ev rg rg'"
| pool_purge: "pool_request (\<lambda>dp. (purge_tick dp now, ())) rg = (rg', u) \<Longrightarrow> service_step rt ev rg rg'"

lemma pool_request_frame:
  "pool_request f rg = (rg', a) \<Longrightarrow> rg_config rg' = rg_config rg \<and> rg_shared rg' = rg_shared rg \<and>
     (rg_dark_pool rg' = None) = (rg_dark_pool rg = None)"
  by (auto simp: pool_request_def Let_def split: option.splits prod.splits)

lemma pool_request_coherent: "pool_request f rg = (rg', a) \<Longrightarrow> coherent rg \<Longrightarrow> coherent rg'"
  by (auto simp: pool_request_def coherent_def Let_def split: option.splits prod.splits)

text \<open>What a publication leaves behind, whatever happens on the chain.\<close>

lemma publish_registry:
  "publish_advice rt agent_id body now rg w = (w', rg', r) \<Longrightarrow>
     rg' = (case store_advice rt agent_id body now rg of Inl e \<Rightarrow> rg | Inr s \<Rightarrow> s)"
  by (auto simp: publish_advice_def Let_def split: sum.splits prod.splits)

lemma store_advice_Inr:
  "store_advice rt agent_id body now rg = Inr rg' \<longleftrightarrow>
     (\<exists>v m. advice_vec rt rg body = Inr v \<and>
        add (rg_memory rg) (advice_id (rt_abi rt) body) v (av_kind body) False
          (Some [(''agent_id'', JInt agent_id), (''trace'', JStr (av_trace body))]) now = Inr m \<and>
        rg' = put_memory m rg)"
  by (auto simp: store_advice_def res_bind_eq_Inr)

lemma publish_frame:
  assumes "publish_advice rt agent_id body now rg w = (w', rg', r)"
  shows "rg_config rg' = rg_config rg \<and> rg_shared rg' = rg_shared rg \<and> (rg_dark_pool rg' = None) = (rg_dark_pool rg = None)"
  using publish_registry [OF assms]
  by (auto simp: store_advice_Inr put_memory_def split: sum.splits)

lemma publish_coherent:
  assumes "publish_advice rt agent_id body now rg w = (w', rg', r)" and "coherent rg"
  shows "coherent rg'"
  using publish_registry [OF assms(1)] assms(2) coherent_put_memory
  by (auto simp: store_advice_Inr split: sum.splits)

lemma service_step_frame:
  "service_step rt ev rg rg' \<Longrightarrow>
     (coherent rg \<longrightarrow> coherent rg') \<and> rg_config rg' = rg_config rg \<and> rg_shared rg' = rg_shared rg \<and>
     (rg_dark_pool rg' = None) = (rg_dark_pool rg = None)"
proof (induction rule: service_step.induct)
  case (publish agent_id body now rg w w' rg' r)
  show ?case using publish_frame [OF publish] publish_coherent [OF publish] by simp
next
  case (pool_query ck rq rg rg' a)
  show ?case using pool_request_frame [OF pool_query] pool_request_coherent [OF pool_query] by simp
next
  case (pool_add ck rq rg rg' a)
  show ?case using pool_request_frame [OF pool_add] pool_request_coherent [OF pool_add] by simp
next
  case (pool_purge now rg rg' u)
  show ?case using pool_request_frame [OF pool_purge] pool_request_coherent [OF pool_purge] by simp
qed

lemma service_run_frame:
  "(service_step rt ev)\<^sup>*\<^sup>* rg rg' \<Longrightarrow>
     (coherent rg \<longrightarrow> coherent rg') \<and> rg_config rg' = rg_config rg \<and> rg_shared rg' = rg_shared rg \<and>
     (rg_dark_pool rg' = None) = (rg_dark_pool rg = None)"
  by (induction rule: rtranclp_induct) (auto dest: service_step_frame)

text \<open>The entry that a stored advice becomes.\<close>

lemma stored_entry:
  assumes "store_advice rt agent_id body now rg = Inr rg'"
  shows "\<exists>e. map_of (ms_entries (rg_memory rg')) (advice_id (rt_abi rt) body) = Some e \<and>
    e_payload e = [(''agent_id'', JInt agent_id), (''trace'', JStr (av_trace body))] \<and>
    e_pinned e = (av_kind body = ''pinned'') \<and> av_kind body \<in> set VALID_KINDS"
  using assms
  by (fastforce simp: store_advice_Inr add_eq update_conv' new_entry_def Let_def split: if_splits)

lemma store_other_entries:
  assumes "store_advice rt agent_id body now rg = Inr rg'" and "t \<noteq> advice_id (rt_abi rt) body"
  shows "map_of (ms_entries (rg_memory rg')) t = map_of (ms_entries (rg_memory rg)) t"
  using assms by (auto simp: store_advice_Inr add_eq update_conv' split: if_splits)

subsection \<open>What reaches the chain\<close>

lemma record_action_Inr:
  assumes "record_action rt cfg msg agent_id kind payload w = (w', Inr (tx, event))"
  shows "\<exists>data receipt. encode_record_action (rt_abi rt) agent_id kind payload = Inr data \<and>
    send_and_wait rt cfg (rc_registry_addr cfg) data w = (w', Inr (tx, receipt)) \<and>
    (msg \<noteq> None \<longrightarrow> receipt_status receipt = Inr 1) \<and>
    find_agent_action_in_receipt (rt_abi rt) receipt (rc_registry_addr cfg) = Inr event"
proof (cases "encode_record_action (rt_abi rt) agent_id kind payload")
  case (Inr data)
  obtain w2 r where s: "send_and_wait rt cfg (rc_registry_addr cfg) data w = (w2, r)" by fastforce
  from assms Inr s obtain tx' receipt where
    r: "r = Inr (tx', receipt)" and c: "(case msg of None \<Rightarrow> Inr () | Some m \<Rightarrow> check_status receipt m) = Inr ()"
    and f: "find_agent_action_in_receipt (rt_abi rt) receipt (rc_registry_addr cfg) = Inr event"
    and e: "tx' = tx" "w2 = w'"
    by (auto simp: record_action_def res_bind_eq_Inr)
  have "receipt_status receipt = Inr 1" if "msg \<noteq> None"
    using c that by (auto simp: check_status_def res_bind_eq_Inr split: if_splits)
  then show ?thesis using Inr s r f e by auto
qed (use assms in \<open>simp add: record_action_def\<close>)

lemma publish_Inr:
  assumes "publish_advice rt agent_id body now rg w = (w', rg', Inr p)"
  shows "\<exists>payload event. store_advice rt agent_id body now rg = Inr rg' \<and>
    advice_payload (rt_abi rt) body = Inr payload \<and>
    record_action rt (rg_config rg) (Some ''recordAction reverted'') agent_id KIND_ADVICE_PUBLISHED payload w =
      (w', Inr (pu_tx_hash p, event)) \<and>
    pu_trace_id p = advice_id (rt_abi rt) body \<and> pu_memory_entries p = memory_len (rg_memory rg') \<and> pu_event p = event"
  using assms
  by (auto simp: publish_advice_def Let_def map_sum_eq_Inr split: sum.splits prod.splits)

subsection \<open>Verdicts\<close>

definition slashed_of :: "abi_tools \<Rightarrow> json \<Rightarrow> bool option" where
  "slashed_of ab lg =
     (case lg of
        JObj d \<Rightarrow>
          (case as_str (py_or (dict_get d ''data'') (JStr ''0x'')) of
             Inl e \<Rightarrow> None
           | Inr data \<Rightarrow> (case resolved_data ab (removeprefix data ''0x'') of Inl e \<Rightarrow> None | Inr (p0, p1, r, s) \<Rightarrow> Some s))
      | _ \<Rightarrow> None)"

definition tally_of :: "abi_tools \<Rightarrow> bool \<Rightarrow> json list \<Rightarrow> int" where
  "tally_of ab s lgs = int (length (filter (\<lambda>lg. slashed_of ab lg = Some s) lgs))"

lemma count_verdicts_tally:
  "count_verdicts ab lgs (wins, losses) = Inr (a, b) \<Longrightarrow> a = wins + tally_of ab False lgs \<and> b = losses + tally_of ab True lgs"
proof (induction lgs arbitrary: wins losses)
  case (Cons lg lgs)
  from Cons.prems obtain d data where d: "lg = JObj d" "as_str (py_or (dict_get d ''data'') (JStr ''0x'')) = Inr data"
    by (cases lg) (auto simp: res_bind_eq_Inr)
  show ?case
  proof (cases "resolved_data ab (removeprefix data ''0x'')")
    case (Inl e)
    with Cons d show ?thesis by (auto simp: slashed_of_def tally_of_def)
  next
    case (Inr q)
    obtain p0 p1 r s where q: "q = (p0, p1, r, s)" by (metis prod_cases4)
    have "count_verdicts ab lgs (if s then (wins, losses + 1) else (wins + 1, losses)) = Inr (a, b)"
      using Cons.prems d Inr q by simp
    then show ?thesis using Cons.IH d Inr q
      by (cases s) (fastforce simp: slashed_of_def tally_of_def)+
  qed
qed (simp add: tally_of_def)

lemma reputation_source:
  assumes "reputation_for rt cfg agent w = (w', wins, losses)"
  shows "(wins, losses) = (0, 0) \<or>
    (\<exists>oracle logs lgs. given (rc_performance_oracle cfg) = Some oracle \<and>
       rpc_call (rt_net rt) (rc_rpc_url cfg) w ''eth_getLogs'' [history_query (rt_abi rt) oracle (aw_operator agent)] = (w', Inr logs) \<and>
       json_iter (py_or logs (JList [])) = Inr lgs \<and>
       wins = tally_of (rt_abi rt) False lgs \<and> losses = tally_of (rt_abi rt) True lgs)"
proof (cases "given (rc_performance_oracle cfg)")
  case (Some orc)
  obtain w1 q where c: "rpc_call (rt_net rt) (rc_rpc_url cfg) w ''eth_getLogs''
      [history_query (rt_abi rt) orc (aw_operator agent)] = (w1, q)" by fastforce
  show ?thesis
  proof (cases "scan_resolve_history rt cfg orc (aw_operator agent) w")
    case (Pair u r)
    show ?thesis
    proof (cases r)
      case (Inr wl)
      obtain a b where wl: "wl = (a, b)" by fastforce
      from Pair Inr c wl obtain logs lgs where "q = Inr logs" "u = w1" "json_iter (py_or logs (JList [])) = Inr lgs"
        "count_verdicts (rt_abi rt) lgs (0, 0) = Inr (a, b)"
        by (auto simp: scan_resolve_history_def res_bind_eq_Inr)
      moreover from this(4) have "a = tally_of (rt_abi rt) False lgs" "b = tally_of (rt_abi rt) True lgs"
        by (auto dest!: count_verdicts_tally)
      moreover have "w' = u" "wins = a" "losses = b" using assms Some Pair Inr wl by (auto simp: reputation_for_def)
      ultimately show ?thesis using Some c by auto
    qed (use assms Some Pair in \<open>auto simp: reputation_for_def\<close>)
  qed
qed (use assms in \<open>simp add: reputation_for_def\<close>)

lemma get_agents_rows:
  assumes "get_agents rt cfg ids addr w = (w', Inr rows)"
  shows "map dr_agent_id rows = ids \<and> (\<forall>row \<in> set rows. \<exists>u u'. get_agent rt cfg (dr_agent_id row) addr u = (u', Inr row))"
  using assms
proof (induction ids arbitrary: w w' rows)
  case (Cons i ids)
  from Cons.prems obtain w1 row w2 rest where
    g: "get_agent rt cfg i addr w = (w1, Inr row)" "get_agents rt cfg ids addr w1 = (w2, Inr rest)" "rows = row # rest"
    by (auto simp: map_sum_eq_Inr split: prod.splits sum.splits)
  have "dr_agent_id row = i" using g(1) by (auto simp: get_agent_def Let_def split: sum.splits prod.splits)
  then show ?case using g Cons.IH [OF g(2)] by auto
qed simp

lemma get_agent_Inr:
  assumes "get_agent rt cfg i addr w = (w', Inr row)"
  shows "\<exists>data w1 out hx. encode_get_agent (rt_abi rt) i = Inr data \<and>
    registry_eth_call rt cfg (registry_addr_or addr cfg) data w = (w1, Inr out) \<and> as_str out = Inr hx \<and>
    decode_agent_tuple (rt_abi rt) hx = Inr (dr_agent row) \<and>
    reputation_for rt cfg (dr_agent row) w1 = (w', dr_wins row, dr_losses row)"
  using assms
  by (fastforce simp: get_agent_def Let_def res_bind_eq_Inr split: sum.splits prod.splits)

end
