(* ===== verification/Registry_Example.thy ===== *)
theory Registry_Example
  imports Registry_Safety Chain_Properties Pool_Example
begin

text \<open>
  A small concrete service in front of an obliging node: the instance on which the properties of the
  registry service and of the agent runner are exercised.
\<close>

subsection \<open>A node that accepts every transaction\<close>

definition node_answer :: "string \<Rightarrow> json" where
  "node_answer method =
     (if method = ''eth_getTransactionReceipt'' then JObj [(''status'', JStr ''0x1'')]
      else if method = ''eth_getLogs'' then JList [JObj [(''data'', JStr ''0x01'')]] else JStr ''0x01'')"

definition method_of :: "json \<Rightarrow> string" where
  "method_of body = (case body of JObj d \<Rightarrow> (case map_of d ''method'' of Some (JStr s) \<Rightarrow> s | _ \<Rightarrow> []) | _ \<Rightarrow> [])"

definition honest_net :: "nat net" where
  "honest_net =
     \<lparr>nt_post = (\<lambda>n url body. (Suc n, Inr \<lparr>rp_status = 200,
        rp_json = Some (JObj [(''result'', node_answer (method_of body))])\<rparr>)),
      nt_time = (\<lambda>n. (n, of_nat n)), nt_sleep = (\<lambda>n s. n), nt_cast = (\<lambda>n args. (n, Inr (0, [], []))),
      nt_float_repr = ratio_repr\<rparr>"

lemma honest_rpc: "rpc_call honest_net url n method params = (Suc n, Inr (node_answer method))"
  by (simp add: rpc_call_def honest_net_def raise_for_status_def reply_json_def rpc_result_def rpc_body_def
      method_of_def dict_get_def)

lemma hex_one: "parse_hex ''0x01'' = Some 1"
  by code_simp

lemma honest_send:
  assumes "raw_call_bytes data = Inr bs" and "\<not> startswith to_addr ''0x''"
  shows "cast_send honest_net plain_keys url pk to_addr None [] 0 (Some data) None n = (n + 6, Inr (JStr ''0x01''))"
  using assms
  by (simp add: cast_send_def call_bytes_def sign_and_broadcast_def plain_keys_def fetch_tx_params_def get_nonce_def
      chain_id_def gas_price_def rpc_int_def honest_rpc node_answer_def hex_one checked_to_def gas_for_def)

lemma honest_wait:
  "wait_for_receipt honest_net url tx 90 DEFAULT_POLL n = (Suc n, Inr (JObj [(''status'', JStr ''0x1'')]))"
proof -
  have t: "nt_time honest_net n = (n, of_nat n)" by (simp add: honest_net_def)
  have f: "receipt_fuel 90 DEFAULT_POLL = 301" by (simp add: receipt_fuel_def DEFAULT_POLL_def)
  have "receipt_loop (Suc k) honest_net url tx (of_nat n + 90) DEFAULT_POLL n =
      (Suc n, Inr (JObj [(''status'', JStr ''0x1'')]))" for k
    by (simp add: t honest_rpc node_answer_def)
  from this [of 300] show ?thesis by (simp add: wait_for_receipt_def t f)
qed

subsection \<open>The service\<close>

definition sample_outside :: "abi_tools \<Rightarrow> nat outside" where
  "sample_outside ab =
     \<lparr>rt_net = honest_net, rt_keys = plain_keys, rt_abi = ab, rt_hermes = (\<lambda>n url. (n, Inl (LibraryError ''httpx''))),
      rt_embed = \<lparr>dt_sha256 = (\<lambda>bs. replicate 32 0), dt_normal = (\<lambda>s n. replicate n 1), dt_encode = (\<lambda>model s. Inr [1]),
        dt_argpartition = (\<lambda>xs k. [0 ..< length xs]), dt_argsort = (\<lambda>xs. [0 ..< length xs]), dt_float_repr = ratio_repr\<rparr>,
      rt_crypto = \<lparr>cr_decrypt = (\<lambda>j s. Inr []), cr_address = (\<lambda>s. s)\<rparr>, rt_environ = [], rt_keystores = [],
      rt_typed = None\<rparr>"

definition sample_registry_config :: registry_config where
  "sample_registry_config =
     (default_registry_config ''rpc'' ''a1'')\<lparr>rc_deployer_pk := Some ''pk'', rc_payment_recipient := Some ''0xb2'',
        rc_embedding_dim := 1\<rparr>"

definition sample_rotation :: "nat \<Rightarrow> int \<Rightarrow> vec list" where
  "sample_rotation d seed = replicate d [1]"

definition sample_decimal :: "string \<Rightarrow> rat option" where
  "sample_decimal s = Some (1 / 1000)"

definition sample_registry :: registry where
  "sample_registry = projr (mk_registry sample_rotation sample_decimal sample_registry_config None None False Absent)"

definition sample_advice :: advice_body where
  "sample_advice =
     \<lparr>av_trace = ''go'', av_vec = Some [1], av_payload = None, av_trace_id = Some ''t'', av_kind = ''working'',
      av_symbol = Some ''sol'', av_stance = Some ''long''\<rparr>"

lemma sample_mk_registry:
  "mk_registry sample_rotation sample_decimal sample_registry_config None None False Absent = Inr sample_registry"
proof -
  have "isl (mk_registry sample_rotation sample_decimal sample_registry_config None None False Absent) = False"
    by (simp add: mk_registry_def memory_or_new_def given_def sample_registry_config_def default_registry_config_def
        composed_pool_def sample_decimal_def mk_dark_pool_def default_options_def sqlite_open_def
        maybe_migrate_legacy_file_def mk_limiter_def DEFAULT_RATE_CAPACITY_def DEFAULT_RATE_REFILL_PER_SECOND_def)
  then show ?thesis by (cases "mk_registry sample_rotation sample_decimal sample_registry_config None None False Absent")
      (simp_all add: sample_registry_def)
qed

lemma sample_registry_facts:
  "rg_config sample_registry = sample_registry_config" "ms_dim (rg_memory sample_registry) = 1"
  "ms_entries (rg_memory sample_registry) = []" "memory_len (rg_memory sample_registry) = 0"
  "given (rc_payment_recipient sample_registry_config) = Some ''0xb2''"
  "length (sample_rotation d seed) = d"
  using mk_registry_frame [OF sample_mk_registry]
  by (simp_all add: memory_or_new_def mk_memory_def sample_registry_config_def default_registry_config_def given_def
      sample_rotation_def memory_len_def)


lemma sample_outside_simps [simp]:
  "rt_net (sample_outside ab) = honest_net" "rt_keys (sample_outside ab) = plain_keys" "rt_abi (sample_outside ab) = ab"
  by (simp_all add: sample_outside_def)

lemma sample_config_simps [simp]:
  "rc_rpc_url sample_registry_config = ''rpc''" "rc_registry_addr sample_registry_config = ''a1''"
  "resolve_pk rt sample_registry_config = Inr ''pk''" "rc_performance_oracle sample_registry_config = None"
  by (simp_all add: sample_registry_config_def default_registry_config_def resolve_pk_def given_def)

lemma reverting_send:
  assumes "raw_call_bytes data = Inr bs"
  shows "\<exists>n' e. cast_send reverting_net plain_keys url pk to_addr None [] 0 (Some data) None n = (n', Inl e)"
  using assms
  by (simp add: cast_send_def call_bytes_def sign_and_broadcast_def plain_keys_def fetch_tx_params_def get_nonce_def
      rpc_int_def reverting_net_rpc)


text \<open>A coder that answers for the one trace, the one agent and the one verdict of the example.\<close>

definition sample_trace_args :: "abi_arg list" where
  "sample_trace_args = [AJson (JStr ''go''), AJson (JStr (upper ''sol'')), AJson (JStr ''long''), ABytes (replicate 32 0)]"

definition sample_abi :: abi_tools where
  "sample_abi =
     \<lparr>at_keccak = (\<lambda>bs. replicate 32 0),
      at_encode = (\<lambda>types args. if types \<noteq> ADVICE_PAYLOAD_TYPES then Inr []
        else if args = sample_trace_args then Inr (replicate 33 0) else Inl (LibraryError ''eth_abi.encode'')),
      at_decode = (\<lambda>types bs.
        if types = ADVICE_PAYLOAD_TYPES then Inr sample_trace_args
        else if types = [AGENT_TUPLE]
        then Inr [ATuple [AInt 7, ABytes [], AJson (JStr ''v''), AJson (JStr ''url''), AJson (JStr ''op''), AInt 5, AJson (JBool True)]]
        else Inr [AInt 1, AInt 2, AInt 3, AJson (JBool True)]),
      at_canonical = (\<lambda>a. Inr (replicate 20 0))\<rparr>"


lemma honest_send_and_wait:
  assumes "raw_call_bytes data = Inr bs"
  shows "send_and_wait (sample_outside ab) sample_registry_config ''a1'' data n =
    (n + 7, Inr (JStr ''0x01'', [(''status'', JStr ''0x1'')]))"
  using honest_send [OF assms, of "''a1''" "''rpc''" "''pk''" n]
  by (simp add: send_and_wait_def registry_send_def honest_wait startswith_def)

lemma honest_record:
  assumes "encode_record_action ab agent_id kind payload = Inr data"
  shows "record_action (sample_outside ab) sample_registry_config msg agent_id kind payload n =
    (n + 7, Inr (JStr ''0x01'', None))"
proof -
  obtain bs where d: "data = ''0x'' @ to_hex bs"
    using assms by (auto simp: encode_record_action_def calldata_def map_sum_eq_Inr split: if_splits)
  have "parse_hex ''0x1'' = Some 1" by code_simp
  then have "check_status [(''status'', JStr ''0x1'')] m = Inr ()" for m
    by (simp add: check_status_def receipt_status_def dict_get_or_def)
  then show ?thesis
    using honest_send_and_wait [OF raw_call_bytes_hex, of ab bs n, folded d] assms
    by (simp add: record_action_def find_agent_action_in_receipt_def dict_get_or_def py_or_def split: option.split)
qed

end
