(* ===== verification/Registry_Properties.thy ===== *)
theory Registry_Properties
  imports Registry_Example Pool_Runs
begin

text \<open>
  What the registry service promises: its state is well formed over any run, published advice is for
  sale whatever the chain says, what was published can be verified by a reader of the chain, the
  directory is what the chain answers, and a resolution records the oracle's verdict.
\<close>

subsection \<open>Well-formed services\<close>

definition disk_wf :: "disk \<Rightarrow> bool" where
  "disk_wf db \<longleftrightarrow> (\<forall>f. db = Database f \<longrightarrow> distinct (map row_key (file_rows f)))"

definition service_wf :: "registry \<Rightarrow> bool" where
  "service_wf rg \<longleftrightarrow> coherent rg \<and> memory_wf (rg_memory rg) \<and> (\<forall>dp. rg_dark_pool rg = Some dp \<longrightarrow> pool_wf dp)"

lemma migrated_file: "maybe_migrate_legacy_file d = Inr d' \<Longrightarrow> d' = d \<or> d' = Absent"
  by (auto simp: maybe_migrate_legacy_file_def drop_legacy_file_def Let_def split: disk.splits if_splits option.splits)

lemma sqlite_open_wf:
  assumes "sqlite_open db = Inr st" and "disk_wf db"
  shows "sqlite_wf st"
proof -
  from assms(1) obtain d' where d: "maybe_migrate_legacy_file db = Inr d'" by (auto simp: sqlite_open_def res_bind_eq_Inr)
  with assms migrated_file [OF d] show ?thesis
    by (cases d') (auto simp: sqlite_open_def sqlite_wf_def disk_wf_def)
qed

lemma mk_dark_pool_wf:
  "mk_dark_pool m po db = Inr dp \<Longrightarrow> memory_wf m \<Longrightarrow> po_nonce_store po = None \<Longrightarrow> disk_wf db \<Longrightarrow> pool_wf dp"
  by (auto simp: mk_dark_pool_def Let_def res_bind_eq_Inr map_sum_eq_Inr pool_wf_def sqlite_open_wf split: if_splits)

lemma composed_pool_wf:
  "composed_pool decimal cfg recipient db m = Inr dp \<Longrightarrow> memory_wf m \<Longrightarrow> disk_wf db \<Longrightarrow> pool_wf dp"
  by (auto simp: composed_pool_def res_bind_eq_Inr default_options_def elim!: mk_dark_pool_wf)

lemma memory_or_new_wf:
  assumes "memory_or_new rot cfg mem = (m, taken)" and "length (rot (rc_embedding_dim cfg) 0) = rc_embedding_dim cfg"
    and "\<forall>m. mem = Some m \<longrightarrow> memory_wf m"
  shows "memory_wf m \<and> (taken \<longrightarrow> mem = Some m)"
  using assms memory_wf_init by (auto simp: memory_or_new_def split: option.splits if_splits)

lemma mk_registry_wf:
  assumes "mk_registry rot decimal cfg mem pool same db = Inr rg"
    and "length (rot (rc_embedding_dim cfg) 0) = rc_embedding_dim cfg"
    and "\<forall>m. mem = Some m \<longrightarrow> memory_wf m"
    and "\<forall>dp. pool = Some dp \<longrightarrow> pool_wf dp \<and> (same \<longrightarrow> mem = Some (dp_memory dp))" and "disk_wf db"
  shows "service_wf rg"
proof -
  obtain m taken where mn: "memory_or_new rot cfg mem = (m, taken)" by fastforce
  note m = memory_or_new_wf [OF mn assms(2,3)]
  show ?thesis
  proof (cases pool)
    case None
    show ?thesis
    proof (cases "given (rc_payment_recipient cfg)")
      case (Some recipient)
      with None assms(1) mn obtain dp where dp: "composed_pool decimal cfg recipient db m = Inr dp"
        and rg: "rg_dark_pool rg = Some dp" "rg_memory rg = m"
        by (auto simp: mk_registry_def Let_def map_sum_eq_Inr)
      show ?thesis
        using mk_registry_frame [OF assms(1)] None Some rg m composed_pool_wf [OF dp _ assms(5)]
        by (auto simp: service_wf_def coherent_def)
    qed (use None assms(1) mn m in \<open>auto simp: mk_registry_def Let_def service_wf_def coherent_def\<close>)
  next
    case (Some dp)
    then show ?thesis
      using assms(1,4) mn m by (auto simp: mk_registry_def Let_def service_wf_def coherent_def)
  qed
qed

lemma pool_request_wf:
  assumes "pool_request f rg = (rg', a)" and "service_wf rg" and "\<And>dp dp' x. pool_wf dp \<Longrightarrow> f dp = (dp', x) \<Longrightarrow> pool_wf dp'"
  shows "service_wf rg'"
proof (cases "rg_dark_pool rg")
  case (Some dp)
  obtain dp' x where f: "f dp = (dp', x)" by fastforce
  then have "pool_wf dp'" using assms(2,3) Some by (auto simp: service_wf_def)
  then show ?thesis
    using assms(1,2) pool_request_coherent [OF assms(1)] Some f by (auto simp: pool_request_def service_wf_def pool_wf_def)
qed (use assms in \<open>auto simp: pool_request_def\<close>)

lemma put_memory_wf: "service_wf rg \<Longrightarrow> memory_wf m \<Longrightarrow> service_wf (put_memory m rg)"
  by (auto simp: service_wf_def coherent_put_memory) (auto simp: put_memory_def pool_wf_def split: if_splits)

lemma publish_wf:
  assumes "publish_advice rt agent_id body now rg w = (w', rg', r)" and "service_wf rg"
  shows "service_wf rg'"
  using publish_registry [OF assms(1)] assms(2) add_wf [of "rg_memory rg"]
  by (auto simp: store_advice_Inr put_memory_wf service_wf_def [of rg] split: sum.splits)

lemma service_step_wf:
  assumes "service_step rt ev rg rg'" and "environment_ok ev" and "service_wf rg"
  shows "service_wf rg'"
  using assms(1)
proof cases
  case (publish agent_id body now w w' r)
  show ?thesis by (rule publish_wf [OF publish assms(3)])
next
  case (pool_query ck rq a)
  show ?thesis
    by (rule pool_request_wf [OF pool_query assms(3)])
      (use step_wf [OF _ assms(2), of _ "EvQuery ck rq"] in \<open>fastforce\<close>)
next
  case (pool_add ck rq a)
  show ?thesis
    by (rule pool_request_wf [OF pool_add assms(3)])
      (use step_wf [OF _ assms(2), of _ "EvAdd ck rq"] in \<open>fastforce\<close>)
next
  case (pool_purge now u)
  show ?thesis by (rule pool_request_wf [OF pool_purge assms(3)]) (auto dest: purge_tick_wf)
qed

text \<open>C33: (type) A service that its constructor accepts is well formed, and stays so over any run of
  publications, paid requests and purges, whatever the chain, the library code and the callers answer:
  the entries of its memory have distinct ids and codes of the memory's dimension, the payment rows of
  its pool have distinct keys, and where the two share a memory they hold the same one.\<close>

theorem service_stays_well_formed:
  assumes "mk_registry rot decimal cfg mem pool same db = Inr rg0"
    and "length (rot (rc_embedding_dim cfg) 0) = rc_embedding_dim cfg"
    and "\<forall>m. mem = Some m \<longrightarrow> memory_wf m"
    and "\<forall>dp. pool = Some dp \<longrightarrow> pool_wf dp \<and> (same \<longrightarrow> mem = Some (dp_memory dp))" and "disk_wf db"
    and "environment_ok ev" and "(service_step rt ev)\<^sup>*\<^sup>* rg0 rg"
  shows "memory_wf (rg_memory rg) \<and> rg_config rg = cfg \<and>
    (\<forall>dp. rg_dark_pool rg = Some dp \<longrightarrow> pool_wf dp \<and> (rg_shared rg \<longrightarrow> dp_memory dp = rg_memory rg))"
proof -
  from assms(7) mk_registry_wf [OF assms(1-5)] have "service_wf rg"
    by (induction rule: rtranclp_induct) (auto intro: service_step_wf [OF _ assms(6)])
  then show ?thesis
    using service_run_frame [OF assms(7)] mk_registry_frame [OF assms(1)] by (auto simp: service_wf_def coherent_def)
qed

lemma service_stays_well_formed_witness:
  "\<exists>rg. service_step (sample_outside flat_abi) sample_env sample_registry rg \<and>
     memory_wf (rg_memory rg) \<and> rg_config rg = sample_registry_config"
proof -
  obtain w' rg r where "publish_advice (sample_outside flat_abi) 1 sample_advice 0 sample_registry 0 = (w', rg, r)"
    by (metis prod_cases3)
  then have s: "service_step (sample_outside flat_abi) sample_env sample_registry rg" by (rule service_step.publish)
  have d: "disk_wf Absent" by (simp add: disk_wf_def)
  from service_stays_well_formed [OF sample_mk_registry _ _ _ d sample_facts(2) r_into_rtranclp [where r = "service_step (sample_outside flat_abi) sample_env", OF s]]
  show ?thesis using s by (auto simp: sample_registry_facts)
qed

subsection \<open>Published advice\<close>

definition advice_accepted :: "'w outside \<Rightarrow> registry \<Rightarrow> advice_body \<Rightarrow> bool" where
  "advice_accepted rt rg body \<longleftrightarrow>
     (\<exists>v. advice_vec rt rg body = Inr v \<and> length v = ms_dim (rg_memory rg)) \<and> av_kind body \<in> set VALID_KINDS"

lemma store_advice_accepted: "advice_accepted rt rg body \<longleftrightarrow> (\<exists>rg'. store_advice rt agent_id body now rg = Inr rg')"
  by (auto simp: advice_accepted_def store_advice_Inr add_eq)

lemma advice_route_stores:
  assumes "advice_route rt agent_id body now rg w = (w', rg', code, r)"
  shows "(advice_accepted rt rg body \<longrightarrow> store_advice rt agent_id body now rg = Inr rg') \<and>
    (\<not> advice_accepted rt rg body \<longrightarrow> rg' = rg \<and> w' = w \<and> code = 400) \<and> (code = 400 \<or> code = 200 \<and> (\<exists>p. r = Inr p))"
proof -
  obtain u g q where p: "publish_advice rt agent_id body now rg w = (u, g, q)" by (metis prod_cases3)
  have e: "u = w'" "g = rg'" "(code, r) = answer 400 q" using assms p by (auto simp: advice_route_def)
  have "code = 400 \<or> code = 200 \<and> (\<exists>p. r = Inr p)" using e(3) by (auto simp: answer_def split: sum.splits)
  moreover have "store_advice rt agent_id body now rg = Inr rg'" if "advice_accepted rt rg body"
    using that publish_registry [OF p] e(2) store_advice_accepted [of rt rg body agent_id now] by (auto split: sum.splits)
  moreover have "rg' = rg \<and> w' = w \<and> code = 400" if n: "\<not> advice_accepted rt rg body"
  proof -
    obtain x where "store_advice rt agent_id body now rg = Inl x"
      using n store_advice_accepted [of rt rg body agent_id now] by (cases "store_advice rt agent_id body now rg") auto
    with p e show ?thesis by (auto simp: publish_advice_def answer_def)
  qed
  ultimately show ?thesis by blast
qed

text \<open>C34: (invariant) What is published is for sale, in the memory the paid queries read: in a service that
  composed its pool, after any run, an advice with an acceptable vector and kind is in the pool's memory
  with its agent and its text, and no other entry is changed. This holds for every answer of the chain:
  where the action cannot be recorded the route answers 400 and the entry stays. An unacceptable one
  changes nothing and sends nothing.\<close>

theorem advice_is_for_sale:
  assumes "mk_registry rot decimal cfg mem None same db = Inr rg0" and "given (rc_payment_recipient cfg) \<noteq> None"
    and "(service_step rt ev)\<^sup>*\<^sup>* rg0 rg" and "advice_route rt agent_id body now rg w = (w', rg', code, r)"
  shows "\<exists>dp. rg_dark_pool rg' = Some dp \<and>
    (if advice_accepted rt rg body
     then (\<exists>e. map_of (ms_entries (dp_memory dp)) (advice_id (rt_abi rt) body) = Some e \<and>
             e_payload e = [(''agent_id'', JInt agent_id), (''trace'', JStr (av_trace body))] \<and>
             e_pinned e = (av_kind body = ''pinned'')) \<and>
          (\<forall>t. t \<noteq> advice_id (rt_abi rt) body \<longrightarrow>
             map_of (ms_entries (dp_memory dp)) t = map_of (ms_entries (rg_memory rg)) t)
     else rg' = rg \<and> w' = w \<and> code = 400)"
proof -
  note st = advice_route_stores [OF assms(4)]
  have rg: "coherent rg" "rg_shared rg" "rg_dark_pool rg \<noteq> None"
    using service_run_frame [OF assms(3)] mk_registry_frame [OF assms(1)] assms(2) by (auto simp: coherent_def)
  show ?thesis
  proof (cases "advice_accepted rt rg body")
    case True
    then have s: "store_advice rt agent_id body now rg = Inr rg'" using st by blast
    then obtain dp where "rg_dark_pool rg' = Some dp" "dp_memory dp = rg_memory rg'"
      using rg by (auto simp: store_advice_Inr put_memory_def)
    then show ?thesis using True stored_entry [OF s] store_other_entries [OF s] by auto
  next
    case False
    then show ?thesis using st rg(3) by auto
  qed
qed

lemma advice_is_for_sale_witness:
  "\<exists>w' rg' r dp e. advice_route ((sample_outside flat_abi)\<lparr>rt_net := reverting_net\<rparr>) 1 sample_advice 0 sample_registry 0 =
       (w', rg', 400, r) \<and>
     rg_dark_pool rg' = Some dp \<and> map_of (ms_entries (dp_memory dp)) ''t'' = Some e \<and>
     e_payload e = [(''agent_id'', JInt 1), (''trace'', JStr ''go'')]"
proof -
  let ?rt = "(sample_outside flat_abi)\<lparr>rt_net := reverting_net\<rparr>"
  obtain w' rg' code r where a: "advice_route ?rt 1 sample_advice 0 sample_registry 0 = (w', rg', code, r)"
    by (metis prod_cases4)
  have ok: "advice_accepted ?rt sample_registry sample_advice"
    by (simp add: advice_accepted_def advice_vec_def sample_advice_def sample_registry_facts VALID_KINDS_def)
  have i: "advice_id (rt_abi ?rt) sample_advice = ''t''" by (simp add: advice_id_def sample_advice_def given_def)
  have "\<exists>u e. record_action ?rt sample_registry_config msg 1 KIND_ADVICE_PUBLISHED [] 0 = (u, Inl e)" for msg
    using reverting_send [OF raw_call_bytes_hex [of "replicate 4 0"], of "''rpc''" "''pk''" "''a1''" 0]
    by (auto simp: record_action_def encode_record_action_def KIND_ADVICE_PUBLISHED_def calldata_def selector_of_def
        flat_abi_def send_and_wait_def registry_send_def)
  then obtain u e where rec: "record_action ?rt sample_registry_config (Some ''recordAction reverted'') 1
      KIND_ADVICE_PUBLISHED [] 0 = (u, Inl e)" by blast
  have pay: "advice_payload (rt_abi ?rt) sample_advice = Inr []"
    by (simp add: advice_payload_def sample_advice_def encode_advice_payload_def flat_abi_def)
  obtain g where "store_advice ?rt 1 sample_advice 0 sample_registry = Inr g"
    using ok store_advice_accepted [of ?rt sample_registry sample_advice 1 0] by blast
  with a rec pay have "code = 400"
    by (auto simp: advice_route_def publish_advice_def sample_registry_facts(1) answer_def)
  then show ?thesis
    using advice_is_for_sale [OF sample_mk_registry _ rtranclp.rtrancl_refl a] ok i a
    by (auto simp: sample_registry_facts sample_advice_def)
qed


text \<open>C35: (error) The advice route can rewrite the constitution, which the paid routes cannot: an advice that
  names a pinned entry replaces it in the pinned set by its own payload when its kind is \<open>pinned\<close> and
  removes it for any other kind, for every answer of the chain, so also where the request is answered
  by an error; the rest of the pinned set stays.\<close>

theorem advice_rewrites_the_constitution:
  assumes "advice_route rt agent_id body now rg w = (w', rg', code, r)" and "advice_accepted rt rg body"
    and "av_trace_id body = Some t" and "t \<noteq> []"
  shows "\<exists>code_bytes. pinned_view (rg_memory rg') = (pinned_view (rg_memory rg))(t :=
     if av_kind body = ''pinned''
     then Some (code_bytes, [(''agent_id'', JInt agent_id), (''trace'', JStr (av_trace body))]) else None)"
proof -
  have i: "advice_id (rt_abi rt) body = t" using assms(3,4) by (simp add: advice_id_def given_def)
  from advice_route_stores [OF assms(1)] assms(2) i obtain v m where
    a: "add (rg_memory rg) t v (av_kind body) False
          (Some [(''agent_id'', JInt agent_id), (''trace'', JStr (av_trace body))]) now = Inr m"
    and "rg' = put_memory m rg"
    by (auto simp: store_advice_Inr)
  with add_view [OF a] show ?thesis by auto
qed

lemma advice_rewrites_the_constitution_witness:
  "\<exists>rg w' rg' code r. pinned_view (rg_memory rg) ''t'' \<noteq> None \<and>
     advice_route (sample_outside flat_abi) 1 sample_advice 0 rg 0 = (w', rg', code, r) \<and>
     pinned_view (rg_memory rg') ''t'' = None"
proof -
  let ?pin = "sample_advice\<lparr>av_kind := ''pinned''\<rparr>" and ?rt = "sample_outside flat_abi"
  obtain w1 rg code r where a: "advice_route ?rt 1 ?pin 0 sample_registry 0 = (w1, rg, code, r)" by (metis prod_cases4)
  have ok: "advice_accepted ?rt sample_registry ?pin"
    by (simp add: advice_accepted_def advice_vec_def sample_advice_def sample_registry_facts VALID_KINDS_def)
  have t: "av_trace_id sample_advice = Some ''t''" "av_kind sample_advice \<noteq> ''pinned''"
    by (simp_all add: sample_advice_def)
  from advice_rewrites_the_constitution [OF a ok, of "''t''"] t have p: "pinned_view (rg_memory rg) ''t'' \<noteq> None" by auto
  obtain m where "rg = put_memory m sample_registry" "ms_dim m = 1"
    using advice_route_stores [OF a] ok sample_registry_facts(2)
    by (fastforce simp: store_advice_Inr add_eq split: if_splits)
  then have ok': "advice_accepted ?rt rg sample_advice"
    by (simp add: advice_accepted_def advice_vec_def sample_advice_def VALID_KINDS_def)
  obtain w' rg' code' r' where b: "advice_route ?rt 1 sample_advice 0 rg 0 = (w', rg', code', r')" by (metis prod_cases4)
  from advice_rewrites_the_constitution [OF b ok', of "''t''"] t have "pinned_view (rg_memory rg') ''t'' = None" by auto
  with p b show ?thesis by blast
qed

text \<open>The documented behaviour of the ABI coder on the types of a trace: decoding undoes encoding, and four
  head words are more than 32 bytes.\<close>

definition trace_coder :: "abi_tools \<Rightarrow> bool" where
  "trace_coder ab \<longleftrightarrow>
     (\<forall>args bs. at_encode ab ADVICE_PAYLOAD_TYPES args = Inr bs \<longrightarrow>
        at_decode ab ADVICE_PAYLOAD_TYPES bs = Inr args \<and> 32 < length bs)"

lemma advice_payload_decodes:
  assumes "trace_coder ab" and "encode_advice_payload ab reasoning symbol stance = Inr bs"
  shows "decode_advice_payload ab (SigText (''0x'' @ to_hex bs)) =
    Inr (Some \<lparr>tr_reasoning = reasoning, tr_symbol = upper symbol, tr_stance = checked_stance stance,
               tr_advice_hash = ''0x'' @ to_hex (at_keccak ab (encode_utf8 reasoning))\<rparr>)"
proof -
  have r: "removeprefix (''0x'' @ to_hex bs) ''0x'' = to_hex bs" by (rule removeprefix_append)
  have "at_decode ab ADVICE_PAYLOAD_TYPES bs = Inr [AJson (JStr reasoning), AJson (JStr (upper symbol)),
      AJson (JStr (checked_stance stance)), ABytes (at_keccak ab (encode_utf8 reasoning))] \<and> 32 < length bs"
    using assms unfolding trace_coder_def encode_advice_payload_def by blast
  then show ?thesis
    unfolding decode_advice_payload_def by (simp only: signature.case r) (simp add: fromhex_to_hex decode_advice_bytes_def)
qed



subsection \<open>The directory\<close>

text \<open>The directory is what the chain answers: where listing succeeds, the rows are numbered
  one to the count that \<open>agentCount()\<close> returned (no row for an empty or false answer), each row's agent
  is decoded from the registry's answer for that number, and its reputation is either zero and zero
  or the numbers of decodable \<open>AdviceResolved\<close> logs of that agent's operator at the configured oracle
  without and with a slash.\<close>

theorem directory_is_the_chain:
  assumes "list_agents rt cfg addr w = (w', Inr rows)"
  shows "\<exists>w1 out n. registry_eth_call rt cfg (registry_addr_or addr cfg) (encode_agent_count (rt_abi rt)) w = (w1, Inr out) \<and>
      (if truthy out \<and> out \<noteq> JStr ''0x'' then int16 out = Inr n else n = 0) \<and> map dr_agent_id rows = [1..n] \<and>
      (\<forall>row \<in> set rows. \<exists>u u1 u2 data hx. encode_get_agent (rt_abi rt) (dr_agent_id row) = Inr data \<and>
         registry_eth_call rt cfg (registry_addr_or addr cfg) data u = (u1, Inr (JStr hx)) \<and>
         decode_agent_tuple (rt_abi rt) hx = Inr (dr_agent row) \<and>
         (dr_wins row = 0 \<and> dr_losses row = 0 \<or>
          (\<exists>oracle_addr logs lgs. given (rc_performance_oracle cfg) = Some oracle_addr \<and>
             rpc_call (rt_net rt) (rc_rpc_url cfg) u1 ''eth_getLogs''
               [history_query (rt_abi rt) oracle_addr (aw_operator (dr_agent row))] = (u2, Inr logs) \<and>
             json_iter (py_or logs (JList [])) = Inr lgs \<and>
             dr_wins row = tally_of (rt_abi rt) False lgs \<and> dr_losses row = tally_of (rt_abi rt) True lgs)))"
proof -
  let ?a = "registry_addr_or addr cfg"
  have aa: "registry_addr_or (Some ?a) cfg = ?a"
    by (auto simp: registry_addr_or_def given_def split: option.splits if_splits)
  from assms obtain w1 n where c: "agent_count rt cfg (Some ?a) w = (w1, Inr n)"
    and g: "get_agents rt cfg [1..n] (Some ?a) w1 = (w', Inr rows)"
    by (auto simp: list_agents_def Let_def split: prod.splits sum.splits)
  from c aa obtain out where o: "registry_eth_call rt cfg ?a (encode_agent_count (rt_abi rt)) w = (w1, Inr out)"
    "if truthy out \<and> out \<noteq> JStr ''0x'' then int16 out = Inr n else n = 0"
    by (auto simp: agent_count_def Let_def res_bind_eq_Inr split: prod.splits if_splits)
  note rows = get_agents_rows [OF g]
  have "\<exists>u u1 u2 data hx. encode_get_agent (rt_abi rt) (dr_agent_id row) = Inr data \<and>
         registry_eth_call rt cfg ?a data u = (u1, Inr (JStr hx)) \<and>
         decode_agent_tuple (rt_abi rt) hx = Inr (dr_agent row) \<and>
         (dr_wins row = 0 \<and> dr_losses row = 0 \<or>
          (\<exists>oracle_addr logs lgs. given (rc_performance_oracle cfg) = Some oracle_addr \<and>
             rpc_call (rt_net rt) (rc_rpc_url cfg) u1 ''eth_getLogs''
               [history_query (rt_abi rt) oracle_addr (aw_operator (dr_agent row))] = (u2, Inr logs) \<and>
             json_iter (py_or logs (JList [])) = Inr lgs \<and>
             dr_wins row = tally_of (rt_abi rt) False lgs \<and> dr_losses row = tally_of (rt_abi rt) True lgs))"
    if r: "row \<in> set rows" for row
  proof -
    from r rows obtain u u' where "get_agent rt cfg (dr_agent_id row) (Some ?a) u = (u', Inr row)" by blast
    from get_agent_Inr [OF this] aa obtain data u1 out' hx where e: "encode_get_agent (rt_abi rt) (dr_agent_id row) = Inr data"
      "registry_eth_call rt cfg ?a data u = (u1, Inr out')" "as_str out' = Inr hx"
      "decode_agent_tuple (rt_abi rt) hx = Inr (dr_agent row)"
      and rep: "reputation_for rt cfg (dr_agent row) u1 = (u', dr_wins row, dr_losses row)" by auto
    have "out' = JStr hx" using e(3) by (cases out') auto
    with e reputation_source [OF rep] show ?thesis by blast
  qed
  then show ?thesis using o rows by blast
qed

lemma directory_is_the_chain_witness:
  "\<exists>w' row. list_agents (sample_outside sample_abi) (sample_registry_config\<lparr>rc_performance_oracle := Some ''o''\<rparr>) None 0 = (w', Inr [row]) \<and>
     dr_agent_id row = 1 \<and> dr_losses row = 1"
proof -
  let ?cfg = "sample_registry_config\<lparr>rc_performance_oracle := Some ''o''\<rparr>" and ?rt = "sample_outside sample_abi"
  have hx: "fromhex ''01'' = Some [1]" "removeprefix ''0x01'' ''0x'' = ''01''" by code_simp+
  have dec: "resolved_data sample_abi ''01'' = Inr (1, 2, 3, True)"
    unfolding resolved_data_def hx of_opt_simps res_bind_simps
    by (simp add: sample_abi_def ADVICE_PAYLOAD_TYPES_def AGENT_TUPLE_def)
  have rep: "reputation_for ?rt ?cfg agent n = (Suc n, 0, 1)" for agent n
    by (simp add: reputation_for_def given_def scan_resolve_history_def honest_rpc node_answer_def dict_get_def hx dec py_or_def)
  have tuple: "\<exists>agent. decode_agent_tuple sample_abi ''0x01'' = Inr agent"
    unfolding decode_agent_tuple_def hx of_opt_simps res_bind_simps
    by (simp add: sample_abi_def ADVICE_PAYLOAD_TYPES_def AGENT_TUPLE_def)
  have "\<exists>data. encode_get_agent sample_abi 1 = Inr data"
    by (simp add: encode_get_agent_def calldata_def sample_abi_def ADVICE_PAYLOAD_TYPES_def)
  with tuple have row: "\<exists>agent. get_agent ?rt ?cfg 1 a n =
      (n + 2, Inr \<lparr>dr_agent = agent, dr_agent_id = 1, dr_wins = 0, dr_losses = 1\<rparr>)" for a n
    by (auto simp: get_agent_def registry_eth_call_def honest_rpc node_answer_def rep)
  have "agent_count ?rt ?cfg a 0 = (1, Inr 1)" for a
    by (simp add: agent_count_def registry_eth_call_def honest_rpc node_answer_def hex_one)
  with row [of "Some (registry_addr_or None ?cfg)" 1] have "\<exists>w' row. list_agents ?rt ?cfg None 0 = (w', Inr [row]) \<and> dr_losses row = 1"
    by (auto simp: list_agents_def)
  then obtain w' row where l: "list_agents ?rt ?cfg None 0 = (w', Inr [row])" "dr_losses row = 1" by blast
  from directory_is_the_chain [OF l(1)] have "dr_agent_id row = 1"
    by (auto simp: upto.simps split: if_splits)
  with l show ?thesis by blast
qed

end
