(* ===== verification/Agent_Runner.thy ===== *)
theory Agent_Runner
  imports Registry_Service Exchange
begin

text \<open>
  The continuous runner of \<open>agents/agent_runner.py\<close>: the templated advice, one cycle over the agents with
  what it catches, and the bounded and unbounded loops.

  The stop flag can be set by a signal at any moment, so each reading of it is a function on the
  world. The paid query against the mounted pool runs through the client of \<open>X402_Client\<close> with the
  pool as its server; its result is dropped, only an exception matters to the cycle.
\<close>

subsection \<open>Advice\<close>

text \<open>A template is a list of literal pieces and holes, as \<open>str.format\<close> sees it.\<close>

datatype piece = Lit string | Sym | Num

definition REASONING_TEMPLATES :: "piece list list" where
  "REASONING_TEMPLATES =
     [[Lit ''Momentum on '', Sym, Lit '' flipped positive after the '', Num,
       Lit ''-bar breakout; raising conviction and sizing into the '', Sym, Lit '' trend continuation.''],
      [Lit ''Funding on '', Sym, Lit '' perps turned rich while spot stalled; fading the crowded long and rotating risk out of '',
       Sym, Lit '' into cash.''],
      [Lit ''Volatility on '', Sym, Lit '' compressed below the '', Num,
       Lit ''-day band; preparing a straddle ahead of the expected '', Sym, Lit '' expansion move.''],
      [Lit ''Liquidity thinned on the '', Sym, Lit '' book around the '', Num,
       Lit '' level; tightening stops and reducing '', Sym, Lit '' exposure until depth returns.''],
      [Lit ''Cross-venue basis on '', Sym, Lit '' widened past '', Num,
       Lit '' bps; arbing the spread and hedging the '', Sym, Lit '' delta to stay market-neutral.'']]"

definition SYMBOLS :: "string list" where
  "SYMBOLS = [''SOL'', ''ETH'', ''BTC'', ''ARB'', ''JUP'']"

definition TEMPLATE_STANCES :: "string list" where
  "TEMPLATE_STANCES = [''long'', ''exit'', ''vol'', ''reduce'', ''neutral'']"

fun fill :: "string \<Rightarrow> int \<Rightarrow> piece \<Rightarrow> string" where
  "fill symb n (Lit s) = s"
| "fill symb n Sym = symb"
| "fill symb n Num = int_str n"

definition advice_index :: "int \<Rightarrow> int \<Rightarrow> int" where
  "advice_index agent_id cycle = (agent_id + cycle) mod int (length REASONING_TEMPLATES)"

definition advice_symbol :: "int \<Rightarrow> int \<Rightarrow> string" where
  "advice_symbol agent_id cycle = SYMBOLS ! nat ((agent_id * 3 + cycle) mod int (length SYMBOLS))"

definition advice_number :: "int \<Rightarrow> int \<Rightarrow> int" where
  "advice_number agent_id cycle = 8 + (agent_id * 7 + cycle * 5) mod 40"

definition make_advice :: "int \<Rightarrow> int \<Rightarrow> string \<times> string \<times> string" where
  "make_advice agent_id cycle =
     (let idx = nat (advice_index agent_id cycle); symb = advice_symbol agent_id cycle; n = advice_number agent_id cycle
      in (concat (map (fill symb n) (REASONING_TEMPLATES ! idx)), symb, TEMPLATE_STANCES ! idx))"

definition make_advice_trace :: "int \<Rightarrow> int \<Rightarrow> string" where
  "make_advice_trace agent_id cycle = fst (make_advice agent_id cycle)"

subsection \<open>The runner\<close>

record runner_config =
  ru_agent_ids :: "int list"
  ru_resolve_every :: int
  ru_agent_addrs :: "(int \<times> string) list"
  ru_record_query_actions :: bool

record cycle_result =
  cr_cycle :: int
  cr_advice_tx :: "json list"
  cr_query_tx :: "json list"
  cr_resolve_tx :: "json list"
  cr_action_events :: int
  cr_errors :: "(int \<times> string \<times> exn) list"  \<comment> \<open>agent, step, exception\<close>

definition fresh_result :: "int \<Rightarrow> cycle_result" where
  "fresh_result cycle =
     \<lparr>cr_cycle = cycle, cr_advice_tx = [], cr_query_tx = [], cr_resolve_tx = [], cr_action_events = 0, cr_errors = []\<rparr>"

text \<open>The client's clock and random nonce in one paid query, and the server's clocks in its two requests.\<close>

record paying =
  py_now :: int
  py_token :: "byte list"
  py_first :: clock
  py_second :: clock

text \<open>
  The outside of a runner: that of its service, the stop flag, the clock of an insertion, the
  interruptible sleep, and the paid query with what it does to the service's pool.
\<close>

record 'w runner_world =
  rw_outside :: "'w outside"
  rw_stopped :: "'w \<Rightarrow> 'w \<times> bool"
  rw_now :: "'w \<Rightarrow> real"
  rw_wait :: "'w \<Rightarrow> rat \<Rightarrow> 'w"
  rw_account :: "string \<Rightarrow> signer res"
  rw_environment :: environment  \<comment> \<open>of the pool's handlers\<close>
  rw_score_json :: "real \<Rightarrow> json"
  rw_paying :: "'w \<Rightarrow> 'w \<times> paying"
  rw_decimal :: "string \<Rightarrow> rat option"
  rw_vec_json :: "vec \<Rightarrow> json list"

record arena_runner =
  ra_service :: registry
  ra_config :: runner_config
  ra_cycle :: int

definition mk_arena_runner :: "registry \<Rightarrow> runner_config \<Rightarrow> arena_runner" where
  "mk_arena_runner service config = \<lparr>ra_service = service, ra_config = config, ra_cycle = 0\<rparr>"

subsection \<open>The paid query\<close>

definition query_policy :: "registry_config \<Rightarrow> rat \<Rightarrow> dark_pool \<Rightarrow> policy" where
  "query_policy cfg price dp =
     \<lparr>pl_chain_id = rc_chain_id cfg, pl_asset_address = rc_usdc_address cfg, pl_expected_price_usdc = price,
      pl_network = DEFAULT_NETWORK, pl_expected_recipient = Some (pc_payment_recipient (dp_config dp))\<rparr>"

definition put_pool :: "dark_pool \<Rightarrow> registry \<Rightarrow> registry" where
  "put_pool dp rg =
     rg\<lparr>rg_dark_pool := Some dp, rg_memory := (if rg_shared rg then dp_memory dp else rg_memory rg)\<rparr>"

text \<open>The in-process test client over the pool's application: a handler's exception reaches the caller.\<close>

definition test_client :: "(real \<Rightarrow> json) \<Rightarrow> environment \<Rightarrow> (dark_pool \<times> clock list) transport" where
  "test_client sj ev = (\<lambda>(dp, cks) url body headers.
     case cks of
       [] \<Rightarrow> ((dp, []), Inl (TimeoutError ''no answer''))
     | ck # cks' \<Rightarrow>
         (case handle_query ev ck dp
                 \<lparr>rq_path = url, rq_body = Some (JObj body), rq_payment = map_of headers ''X-PAYMENT''\<rparr> of
            (dp', Inl e) \<Rightarrow> ((dp', cks'), Inl e)
          | (dp', Inr resp) \<Rightarrow>
              ((dp', cks'), Inr \<lparr>rp_status = rs_status resp, rp_json = Some (content_json sj (rs_content resp))\<rparr>)))"

definition query_dark_pool :: "'w runner_world \<Rightarrow> string \<Rightarrow> registry \<Rightarrow> 'w \<Rightarrow> 'w \<times> registry \<times> unit res" where
  "query_dark_pool rw trace rg w =
     (case (rg_dark_pool rg, given (map_of (rt_environ (rw_outside rw)) ''ARENA_QUERY_PK'')) of
        (Some dp, Some pk) \<Rightarrow>
          (case res_bind (rw_account rw pk) (\<lambda>sg.
                res_bind (embed (rt_embed (rw_outside rw)) (rg_embedder rg) trace) (\<lambda>v. Inr (sg, v))) of
             Inl e \<Rightarrow> (w, rg, Inl e)
           | Inr (sg, v) \<Rightarrow>
               (case rw_decimal rw (rc_price_per_query_usdc (rg_config rg)) of
                  None \<Rightarrow> (w, rg, Inl (LibraryError ''decimal.InvalidOperation''))
                | Some price \<Rightarrow>
                    (let (w', py) = rw_paying rw w;
                         ((dp', _), r) = x402_query (nt_float_repr (rt_net (rw_outside rw)))
                           (test_client (rw_score_json rw) (rw_environment rw)) sg (query_policy (rg_config rg) price dp)
                           (py_now py) (py_token py) ''/query'' (rw_vec_json rw v) 5 (dp, [py_first py, py_second py])
                     in (w', put_pool dp' rg, map_sum id (\<lambda>_. ()) r))))
      | _ \<Rightarrow> (w, rg, Inr ()))"

subsection \<open>One cycle\<close>

definition count_event :: "action_event option \<Rightarrow> cycle_result \<Rightarrow> cycle_result" where
  "count_event ev res = (if ev \<noteq> None then res\<lparr>cr_action_events := cr_action_events res + 1\<rparr> else res)"

definition note_error :: "int \<Rightarrow> string \<Rightarrow> exn \<Rightarrow> cycle_result \<Rightarrow> cycle_result" where
  "note_error agent_id what e res = res\<lparr>cr_errors := cr_errors res @ [(agent_id, what, e)]\<rparr>"

text \<open>Step 1: whether the heartbeat succeeded.\<close>

definition advice_step ::
  "'w runner_world \<Rightarrow> int \<Rightarrow> int \<Rightarrow> registry \<Rightarrow> cycle_result \<Rightarrow> 'w \<Rightarrow> 'w \<times> registry \<times> cycle_result \<times> bool" where
  "advice_step rw cycle agent_id rg res w =
     (let (trace, symbol, stance) = make_advice agent_id cycle;
          body = \<lparr>av_trace = trace, av_vec = None, av_payload = None, av_trace_id = None, av_kind = ''working'',
                  av_symbol = Some symbol, av_stance = Some stance\<rparr>;
          (w', rg', r) = publish_advice (rw_outside rw) agent_id body (rw_now rw w) rg w
      in case r of
           Inl e \<Rightarrow> (w', rg', note_error agent_id ''advice'' e res, False)
         | Inr p \<Rightarrow> (w', rg', count_event (pu_event p) (res\<lparr>cr_advice_tx := cr_advice_tx res @ [pu_tx_hash p]\<rparr>), True))"

text \<open>Step 2: the query, and its record on the chain.\<close>

definition query_step ::
  "'w runner_world \<Rightarrow> runner_config \<Rightarrow> string \<Rightarrow> int \<Rightarrow> registry \<Rightarrow> cycle_result \<Rightarrow> 'w \<Rightarrow> 'w \<times> registry \<times> cycle_result" where
  "query_step rw cfg trace agent_id rg res w =
     (case query_dark_pool rw trace rg w of
        (w1, rg1, Inl e) \<Rightarrow> (w1, rg1, note_error agent_id ''query'' e res)
      | (w1, rg1, Inr _) \<Rightarrow>
          if \<not> ru_record_query_actions cfg then (w1, rg1, res)
          else (case record_query_paid (rw_outside rw) (rg_config rg1) agent_id [] w1 of
              (w2, Inl e) \<Rightarrow> (w2, rg1, note_error agent_id ''query'' e res)
            | (w2, Inr (tx, ev)) \<Rightarrow> (w2, rg1, count_event ev (res\<lparr>cr_query_tx := cr_query_tx res @ [tx]\<rparr>))))"

definition resolve_due :: "runner_config \<Rightarrow> int \<Rightarrow> registry \<Rightarrow> bool" where
  "resolve_due cfg cycle rg \<longleftrightarrow>
     0 < ru_resolve_every cfg \<and> cycle mod ru_resolve_every cfg = 0 \<and> given (rc_performance_oracle (rg_config rg)) \<noteq> None"

text \<open>Step 3: the periodic resolution.\<close>

definition resolve_step ::
  "'w runner_world \<Rightarrow> runner_config \<Rightarrow> int \<Rightarrow> int \<Rightarrow> registry \<Rightarrow> cycle_result \<Rightarrow> 'w \<Rightarrow> 'w \<times> cycle_result" where
  "resolve_step rw cfg cycle agent_id rg res w =
     (if \<not> resolve_due cfg cycle rg then (w, res)
      else (case resolve_agent (rw_outside rw) (rg_config rg) agent_id
                   \<lparr>sb_oracle_addr = None, sb_agent_addr = map_of (ru_agent_addrs cfg) agent_id, sb_feed_id = None\<rparr> w of
          (w', Inl e) \<Rightarrow> (w', note_error agent_id ''resolve'' e res)
        | (w', Inr ra) \<Rightarrow>
            (w', count_event (re_event ra)
                   (if truthy (re_tx_hash ra) then res\<lparr>cr_resolve_tx := cr_resolve_tx res @ [re_tx_hash ra]\<rparr> else res))))"

text \<open>
  The agents in order. The flag is read before each step; a failed heartbeat skips the rest of its
  agent, a set flag the rest of the cycle.
\<close>

fun run_agents ::
  "'w runner_world \<Rightarrow> runner_config \<Rightarrow> int \<Rightarrow> int list \<Rightarrow> registry \<Rightarrow> cycle_result \<Rightarrow> 'w \<Rightarrow> 'w \<times> registry \<times> cycle_result" where
  "run_agents rw cfg cycle [] rg res w = (w, rg, res)"
| "run_agents rw cfg cycle (agent_id # ids) rg res w =
     (case rw_stopped rw w of
        (w0, True) \<Rightarrow> (w0, rg, res)
      | (w0, False) \<Rightarrow>
          (case advice_step rw cycle agent_id rg res w0 of
             (w1, rg1, res1, False) \<Rightarrow> run_agents rw cfg cycle ids rg1 res1 w1
           | (w1, rg1, res1, True) \<Rightarrow>
               (case rw_stopped rw w1 of
                  (w2, True) \<Rightarrow> (w2, rg1, res1)
                | (w2, False) \<Rightarrow>
                    (case query_step rw cfg (make_advice_trace agent_id cycle) agent_id rg1 res1 w2 of
                       (w3, rg3, res3) \<Rightarrow>
                         (case rw_stopped rw w3 of
                            (w4, True) \<Rightarrow> (w4, rg3, res3)
                          | (w4, False) \<Rightarrow>
                              (case resolve_step rw cfg cycle agent_id rg3 res3 w4 of
                                 (w5, res5) \<Rightarrow> run_agents rw cfg cycle ids rg3 res5 w5))))))"

definition arena_cycle :: "'w runner_world \<Rightarrow> arena_runner \<Rightarrow> 'w \<Rightarrow> 'w \<times> arena_runner \<times> cycle_result" where
  "arena_cycle rw ra w =
     (let cycle = ra_cycle ra + 1;
          (w', rg, res) = run_agents rw (ra_config ra) cycle (ru_agent_ids (ra_config ra)) (ra_service ra) (fresh_result cycle) w
      in (w', ra\<lparr>ra_service := rg, ra_cycle := cycle\<rparr>, res))"

subsection \<open>The loops\<close>

text \<open>The interruptible sleep after a cycle, skipped when the flag is set.\<close>

definition pause :: "'w runner_world \<Rightarrow> rat \<Rightarrow> 'w \<Rightarrow> 'w" where
  "pause rw interval_secs w =
     (case rw_stopped rw w of (w1, True) \<Rightarrow> w1 | (w1, False) \<Rightarrow> rw_wait rw w1 interval_secs)"

fun run_n_cycles ::
  "'w runner_world \<Rightarrow> rat \<Rightarrow> nat \<Rightarrow> arena_runner \<Rightarrow> 'w \<Rightarrow> 'w \<times> arena_runner \<times> cycle_result list" where
  "run_n_cycles rw interval_secs 0 ra w = (w, ra, [])"
| "run_n_cycles rw interval_secs (Suc n) ra w =
     (case rw_stopped rw w of
        (w0, True) \<Rightarrow> (w0, ra, [])
      | (w0, False) \<Rightarrow>
          (case arena_cycle rw ra w0 of
             (w1, ra1, res) \<Rightarrow>
               (case run_n_cycles rw interval_secs n ra1 (if 0 < interval_secs then pause rw interval_secs w1 else w1) of
                  (w2, ra2, results) \<Rightarrow> (w2, ra2, res # results))))"

text \<open>The unbounded loop: \<open>None\<close> when the flag is never seen set.\<close>

partial_function (option) run_forever ::
  "'w runner_world \<Rightarrow> rat \<Rightarrow> arena_runner \<Rightarrow> 'w \<Rightarrow> ('w \<times> arena_runner \<times> cycle_result list) option" where
  "run_forever rw interval_secs ra w =
     (if snd (rw_stopped rw w) then Some (fst (rw_stopped rw w), ra, [])
      else (case arena_cycle rw ra (fst (rw_stopped rw w)) of
          (w1, ra1, res) \<Rightarrow>
            Option.bind (run_forever rw interval_secs ra1 (pause rw interval_secs w1)) (\<lambda>(w2, ra2, results).
              Some (w2, ra2, res # results))))"

fun split_on :: "char \<Rightarrow> string \<Rightarrow> string \<Rightarrow> string list" where
  "split_on sep [] cur = [rev cur]"
| "split_on sep (c # cs) cur = (if c = sep then rev cur # split_on sep cs [] else split_on sep cs (c # cur))"

definition parse_agent_ids :: "string \<Rightarrow> int list res" where
  "parse_agent_ids raw =
     res_map (\<lambda>x. of_opt (ValueError ''invalid literal for int() with base 10'') (parse_int x))
       (filter (\<lambda>x. x \<noteq> []) (split_on CHR '','' (filter (\<lambda>c. c \<noteq> CHR '' '') raw) []))"

end
