(* ===== verification/Runner_Properties.thy ===== *)
theory Runner_Properties
  imports Agent_Runner Registry_Properties
begin

text \<open>
  What the agent runner promises: the text of a heartbeat repeats with a period, a cycle and a bounded
  run are accounted for, a run changes the service only by the service's own steps, and the unbounded
  loop is the bounded one and ends when it is told to.
\<close>

subsection \<open>Heartbeats\<close>

lemma below_five: "(x::int) mod 5 \<in> {0, 1, 2, 3, 4}"
proof -
  have "0 \<le> x mod 5" "x mod 5 < 5" by simp_all
  then show ?thesis by auto
qed

lemma advice_stance_index:
  "snd (snd (make_advice a c)) = snd (snd (make_advice a d)) \<longleftrightarrow> (a + c) mod 5 = (a + d) mod 5"
  using below_five [of "a + c"] below_five [of "a + d"]
  by (auto simp: make_advice_def Let_def advice_index_def REASONING_TEMPLATES_def TEMPLATE_STANCES_def)

lemma same_template_texts:
  assumes "i < 5"
  shows "concat (map (fill symb m) (REASONING_TEMPLATES ! i)) = concat (map (fill symb n) (REASONING_TEMPLATES ! i)) \<longleftrightarrow>
    i = 1 \<or> m = n"
proof -
  from assms have "i = 0 \<or> i = 1 \<or> i = 2 \<or> i = 3 \<or> i = 4" by linarith
  then show ?thesis by (auto simp: REASONING_TEMPLATES_def dest: int_str_inj)
qed

text \<open>The text of an agent's heartbeat is not fresh in every cycle: two cycles give the same
  triple exactly when they agree modulo five and, unless the template is the one without a number,
  also modulo eight. So every text comes back after at most forty cycles, and the second template's
  after five.\<close>

theorem heartbeats_repeat:
  "make_advice a c = make_advice a d \<longleftrightarrow> c mod 5 = d mod 5 \<and> ((a + c) mod 5 = 1 \<or> c mod 8 = d mod 8)"
proof -
  have five: "(a + c) mod 5 = (a + d) mod 5 \<longleftrightarrow> c mod 5 = d mod 5"
    by (simp add: mod_eq_dvd_iff)
  have eight: "(a * 7 + c * 5) mod 40 = (a * 7 + d * 5) mod 40 \<longleftrightarrow> c mod 8 = d mod 8"
  proof -
    have e: "(a * 7 + c * 5) - (a * 7 + d * 5) = (c - d) * 5" by simp
    have "(40::int) dvd (c - d) * 5 \<longleftrightarrow> 8 dvd c - d" using dvd_times_right_cancel_iff [of 5 8 "c - d"] by simp
    then show ?thesis unfolding mod_eq_dvd_iff e .
  qed
  show ?thesis
  proof (cases "c mod 5 = d mod 5")
    case True
    then have "(a * 3 + c) mod 5 = (a * 3 + d) mod 5" by (simp add: mod_eq_dvd_iff)
    then have s: "advice_symbol a c = advice_symbol a d" by (simp add: advice_symbol_def SYMBOLS_def)
    have i: "advice_index a c = advice_index a d" "nat (advice_index a d) < 5" "nat (advice_index a d) = 1 \<longleftrightarrow> (a + c) mod 5 = 1"
      using five True below_five [of "a + d"] by (auto simp: advice_index_def REASONING_TEMPLATES_def)
    have n: "advice_number a c = advice_number a d \<longleftrightarrow> c mod 8 = d mod 8"
      unfolding advice_number_def eight [symmetric] by simp
    show ?thesis
      using same_template_texts [OF i(2), of "advice_symbol a d" "advice_number a c" "advice_number a d"] True
      unfolding make_advice_def Let_def s i(1) by (simp add: i(3) n del: One_nat_def)
  next
    case False
    then show ?thesis using advice_stance_index [of a c d] five by auto
  qed
qed


subsection \<open>The service under the runner\<close>

lemma pay_and_post_keeps:
  assumes "\<And>s url body headers s' r. post s url body headers = (s', r) \<Longrightarrow> P s \<Longrightarrow> P s'" and "P s"
    and "x402_pay_and_post fr post sg pl now token url body s = (s', r)"
  shows "P s'"
  using assms(2,3) unfolding x402_pay_and_post_def
  by (auto split: prod.splits sum.splits if_splits dest: assms(1))

lemma put_pool_same: "coherent rg \<Longrightarrow> rg_dark_pool rg = Some dp \<Longrightarrow> put_pool dp rg = rg"
  by (auto simp: put_pool_def coherent_def)

lemma put_pool_request:
  "f dp = (dp', x) \<Longrightarrow> pool_request f (put_pool dp rg) = (put_pool dp' rg, Some x)"
  by (simp add: pool_request_def put_pool_def)

lemma test_client_steps:
  assumes "test_client sj ev s url body headers = (s', r)" and "(service_step rt ev)\<^sup>*\<^sup>* rg (put_pool (fst s) rg)"
  shows "(service_step rt ev)\<^sup>*\<^sup>* rg (put_pool (fst s') rg)"
proof -
  obtain dp cks where s: "s = (dp, cks)" by fastforce
  show ?thesis
  proof (cases cks)
    case Nil
    then show ?thesis using assms by (simp add: test_client_def s)
  next
    case (Cons ck cks')
    let ?rq = "\<lparr>rq_path = url, rq_body = Some (JObj body), rq_payment = map_of headers ''X-PAYMENT''\<rparr>"
    obtain dp' a where h: "handle_query ev ck dp ?rq = (dp', a)" by fastforce
    have "service_step rt ev (put_pool dp rg) (put_pool dp' rg)"
      by (rule service_step.pool_query [OF put_pool_request [where f = "\<lambda>dp. handle_query ev ck dp ?rq", OF h]])
    moreover have "fst s' = dp'" using assms(1) h by (auto simp: test_client_def s Cons split: sum.splits)
    ultimately show ?thesis using assms(2) by (auto simp: s)
  qed
qed

lemma x402_query_steps:
  assumes "x402_query fr (test_client sj ev) sg pl now token url v k (dp, cks) = ((dp', cks'), q)"
    and "coherent rg" and "rg_dark_pool rg = Some dp"
  shows "(service_step rt ev)\<^sup>*\<^sup>* rg (put_pool dp' rg)"
proof -
  obtain s' q' where p: "x402_pay_and_post fr (test_client sj ev) sg pl now token url
      [(''query_vec'', JList v), (''k'', JInt k)] (dp, cks) = (s', q')" by fastforce
  have "(service_step rt ev)\<^sup>*\<^sup>* rg (put_pool (fst s') rg)"
    by (rule pay_and_post_keeps [OF test_client_steps _ p]) (simp_all add: put_pool_same [OF assms(2,3)])
  moreover have "s' = (dp', cks')" using assms(1) p by (simp add: x402_query_def)
  ultimately show ?thesis by simp
qed

lemma query_dark_pool_steps:
  assumes "query_dark_pool rw trace rg w = (w', rg', r)" and "coherent rg"
  shows "(service_step (rw_outside rw) (rw_environment rw))\<^sup>*\<^sup>* rg rg'"
  using assms(1)
  by (auto simp: query_dark_pool_def Let_def split: option.splits sum.splits prod.splits
      dest!: x402_query_steps [OF _ assms(2)])

lemma advice_step_steps:
  "advice_step rw cycle agent_id rg res w = (w', rg', res', ok) \<Longrightarrow>
     service_step (rw_outside rw) (rw_environment rw) rg rg'"
  by (auto simp: advice_step_def Let_def split: prod.splits sum.splits intro: service_step.publish)

lemma query_step_steps:
  assumes "query_step rw cfg trace agent_id rg res w = (w', rg', res')" and "coherent rg"
  shows "(service_step (rw_outside rw) (rw_environment rw))\<^sup>*\<^sup>* rg rg'"
  using assms(1) query_dark_pool_steps [OF _ assms(2)]
  by (auto simp: query_step_def split: prod.splits sum.splits if_splits)

lemma run_agents_steps:
  "run_agents rw cfg cycle ids rg res w = (w', rg', res') \<Longrightarrow> coherent rg \<Longrightarrow>
     (service_step (rw_outside rw) (rw_environment rw))\<^sup>*\<^sup>* rg rg'"
proof (induction ids arbitrary: rg res w)
  case (Cons agent_id ids)
  let ?S = "service_step (rw_outside rw) (rw_environment rw)"
  obtain w0 b0 where s0: "rw_stopped rw w = (w0, b0)" by fastforce
  obtain w1 rg1 res1 ok where a: "advice_step rw cycle agent_id rg res w0 = (w1, rg1, res1, ok)" by (metis prod_cases4)
  obtain w2 b2 where s2: "rw_stopped rw w1 = (w2, b2)" by fastforce
  obtain w3 rg3 res3 where q: "query_step rw cfg (make_advice_trace agent_id cycle) agent_id rg1 res1 w2 = (w3, rg3, res3)"
    by (metis prod_cases3)
  obtain w4 b4 where s4: "rw_stopped rw w3 = (w4, b4)" by fastforce
  obtain w5 res5 where r: "resolve_step rw cfg cycle agent_id rg3 res3 w4 = (w5, res5)" by fastforce
  note one = advice_step_steps [OF a]
  have c1: "coherent rg1" using service_step_frame [OF one] Cons.prems(2) by blast
  note two = query_step_steps [OF q c1]
  have c3: "coherent rg3" using service_run_frame [OF two] c1 by blast
  have rg3: "?S\<^sup>*\<^sup>* rg rg3" using one two by (rule converse_rtranclp_into_rtranclp)
  consider "rg' = rg" | "rg' = rg1" | "rg' = rg3" | "run_agents rw cfg cycle ids rg1 res1 w1 = (w', rg', res')"
    | "run_agents rw cfg cycle ids rg3 res5 w5 = (w', rg', res')"
    using Cons.prems(1) by (cases b0; cases ok; cases b2; cases b4) (simp_all add: s0 a s2 q s4 r)
  then show ?case
  proof cases
    case 4
    from Cons.IH [OF this c1] one show ?thesis by (rule converse_rtranclp_into_rtranclp [rotated])
  next
    case 5
    from rg3 Cons.IH [OF this c3] show ?thesis by (rule rtranclp_trans)
  qed (use one rg3 in auto)
qed simp

lemma arena_cycle_steps:
  "arena_cycle rw ra w = (w', ra', res) \<Longrightarrow> coherent (ra_service ra) \<Longrightarrow>
     (service_step (rw_outside rw) (rw_environment rw))\<^sup>*\<^sup>* (ra_service ra) (ra_service ra')"
  by (auto simp: arena_cycle_def Let_def split: prod.splits dest: run_agents_steps)



subsection \<open>A runner in front of the obliging node\<close>

text \<open>Its stop flag is set once a hundred things have happened.\<close>

definition sample_runner_world :: "nat runner_world" where
  "sample_runner_world =
     \<lparr>rw_outside = sample_outside flat_abi, rw_stopped = (\<lambda>n. (n, 100 \<le> n)), rw_now = (\<lambda>n. 0), rw_wait = (\<lambda>n s. Suc n),
      rw_account = (\<lambda>pk. Inl (ValueError ''no key'')), rw_environment = sample_env, rw_score_json = (\<lambda>x. JNull),
      rw_paying = (\<lambda>n. (n, \<lparr>py_now = 0, py_token = [], py_first = sample_clock 0, py_second = sample_clock 0\<rparr>)),
      rw_decimal = sample_decimal, rw_vec_json = (\<lambda>v. [])\<rparr>"

definition sample_runner :: arena_runner where
  "sample_runner =
     mk_arena_runner sample_registry
       \<lparr>ru_agent_ids = [1, 2], ru_resolve_every = 0, ru_agent_addrs = [], ru_record_query_actions = True\<rparr>"

lemma sample_runner_coherent: "coherent (ra_service sample_runner)"
  using mk_registry_wf [OF sample_mk_registry] sample_registry_facts(6)
  by (auto simp: sample_runner_def mk_arena_runner_def service_wf_def disk_wf_def)


subsection \<open>Accounts\<close>

definition errors_in :: "string \<Rightarrow> cycle_result \<Rightarrow> nat" where
  "errors_in what res = length (filter (\<lambda>(a, s, e). s = what) (cr_errors res))"

text \<open>
  What a cycle has counted: heartbeats sent and failed, queries recorded and failed, resolutions sent
  and failed, events.
\<close>

definition counts :: "cycle_result \<Rightarrow> nat \<times> nat \<times> nat \<times> nat \<times> nat \<times> nat \<times> int" where
  "counts res =
     (length (cr_advice_tx res), errors_in ''advice'' res, length (cr_query_tx res), errors_in ''query'' res,
      length (cr_resolve_tx res), errors_in ''resolve'' res, cr_action_events res)"

lemma count_event_counts:
  "\<exists>k. (k = 0 \<or> k = 1) \<and> counts (count_event ev res) =
     (case counts res of (a, ea, q, eq, r, er, v) \<Rightarrow> (a, ea, q, eq, r, er, v + k)) \<and> cr_cycle (count_event ev res) = cr_cycle res"
  by (cases ev) (simp_all add: count_event_def counts_def errors_in_def)

lemma advice_step_counts:
  assumes "advice_step rw cycle agent_id rg res w = (w', rg', res', ok)" and "counts res = (a, ea, q, eq, r, er, v)"
  shows "cr_cycle res' = cr_cycle res \<and>
    (if ok then \<exists>k. (k = 0 \<or> k = 1) \<and> counts res' = (a + 1, ea, q, eq, r, er, v + k)
     else counts res' = (a, ea + 1, q, eq, r, er, v))"
proof -
  obtain trace symbol stance where m: "make_advice agent_id cycle = (trace, symbol, stance)" by (metis prod_cases3)
  let ?body = "\<lparr>av_trace = trace, av_vec = None, av_payload = None, av_trace_id = None, av_kind = ''working'',
                  av_symbol = Some symbol, av_stance = Some stance\<rparr>"
  obtain u g p where pub: "publish_advice (rw_outside rw) agent_id ?body (rw_now rw w) rg w = (u, g, p)" by (metis prod_cases3)
  show ?thesis
  proof (cases p)
    case (Inl e)
    then show ?thesis using assms m pub by (auto simp: advice_step_def counts_def errors_in_def note_error_def)
  next
    case (Inr x)
    let ?res = "res\<lparr>cr_advice_tx := cr_advice_tx res @ [pu_tx_hash x]\<rparr>"
    have "counts ?res = (a + 1, ea, q, eq, r, er, v)" using assms(2) by (simp add: counts_def errors_in_def)
    then show ?thesis using assms(1) m pub Inr count_event_counts [of "pu_event x" ?res] by (auto simp: advice_step_def)
  qed
qed

lemma query_step_counts:
  assumes "query_step rw cfg trace agent_id rg res w = (w', rg', res')" and "counts res = (a, ea, q, eq, r, er, v)"
  shows "cr_cycle res' = cr_cycle res \<and>
    (\<exists>dq de k. dq + de \<le> 1 \<and> 0 \<le> k \<and> k \<le> int dq \<and> counts res' = (a, ea, q + dq, eq + de, r, er, v + k))"
proof -
  obtain w1 rg1 x where d: "query_dark_pool rw trace rg w = (w1, rg1, x)" by (metis prod_cases3)
  have err: "counts (note_error agent_id ''query'' e res) = (a, ea, q, eq + 1, r, er, v)" for e
    using assms(2) by (simp add: counts_def errors_in_def note_error_def)
  show ?thesis
  proof (cases "isl x \<or> \<not> ru_record_query_actions cfg")
    case True
    then show ?thesis using assms d err by (auto simp: query_step_def note_error_def split: sum.splits
          intro: exI [of _ 0])
  next
    case False
    obtain w2 y where y: "record_query_paid (rw_outside rw) (rg_config rg1) agent_id [] w1 = (w2, y)" by fastforce
    show ?thesis
    proof (cases y)
      case (Inl e)
      then have "res' = note_error agent_id ''query'' e res" using assms(1) d y False by (auto simp: query_step_def split: sum.splits)
      then show ?thesis using err [of e] by (auto simp: note_error_def intro: exI [of _ 0] exI [of _ 1])
    next
      case (Inr z)
      obtain tx evt where z: "z = (tx, evt)" by fastforce
      let ?res = "res\<lparr>cr_query_tx := cr_query_tx res @ [tx]\<rparr>"
      have "counts ?res = (a, ea, q + 1, eq, r, er, v)" using assms(2) by (simp add: counts_def errors_in_def)
      moreover have "res' = count_event evt ?res" using assms(1) d y False Inr z by (auto simp: query_step_def split: sum.splits)
      ultimately show ?thesis
        using count_event_counts [of evt ?res] by (fastforce intro: exI [of _ "1::nat"] exI [of _ "0::nat"])
    qed
  qed
qed

lemma resolve_step_counts:
  assumes "resolve_step rw cfg cycle agent_id rg res w = (w', res')" and "counts res = (a, ea, q, eq, r, er, v)"
  shows "cr_cycle res' = cr_cycle res \<and>
    (\<exists>dr de k. dr + de \<le> 1 \<and> 0 \<le> k \<and> k \<le> 1 \<and> counts res' = (a, ea, q, eq, r + dr, er + de, v + k))"
proof (cases "resolve_due cfg cycle rg")
  case True
  let ?body = "\<lparr>sb_oracle_addr = None, sb_agent_addr = map_of (ru_agent_addrs cfg) agent_id, sb_feed_id = None\<rparr>"
  obtain w1 x where x: "resolve_agent (rw_outside rw) (rg_config rg) agent_id ?body w = (w1, x)" by fastforce
  show ?thesis
  proof (cases x)
    case (Inl e)
    then have "res' = note_error agent_id ''resolve'' e res" using assms(1) True x by (simp add: resolve_step_def)
    then show ?thesis using assms(2)
      by (auto simp: counts_def errors_in_def note_error_def intro: exI [of _ "0::nat"] exI [of _ "1::nat"] exI [of _ "0::int"])
  next
    case (Inr y)
    let ?res = "if truthy (re_tx_hash y) then res\<lparr>cr_resolve_tx := cr_resolve_tx res @ [re_tx_hash y]\<rparr> else res"
    have "\<exists>dr. dr \<le> 1 \<and> counts ?res = (a, ea, q, eq, r + dr, er, v) \<and> cr_cycle ?res = cr_cycle res"
      using assms(2) by (auto simp: counts_def errors_in_def intro: exI [of _ "0::nat"] exI [of _ "1::nat"])
    moreover have "res' = count_event (re_event y) ?res" using assms(1) True x Inr by (simp add: resolve_step_def)
    ultimately show ?thesis
      using count_event_counts [of "re_event y" ?res] by (fastforce intro: exI [of _ "0::nat"])
  qed
qed (use assms in \<open>auto simp: resolve_step_def intro: exI [of _ "0::nat"] exI [of _ "0::int"]\<close>)


definition grew :: "nat \<Rightarrow> bool \<Rightarrow> cycle_result \<Rightarrow> cycle_result \<Rightarrow> bool" where
  "grew agents all_run res res' \<longleftrightarrow>
     (case (counts res, counts res') of
        ((a, ea, q, eq, r, er, v), (a', ea', q', eq', r', er', v')) \<Rightarrow>
          a \<le> a' \<and> ea \<le> ea' \<and> a' + ea' \<le> a + ea + agents \<and> (all_run \<longrightarrow> a' + ea' = a + ea + agents) \<and>
          q' + eq' + a \<le> q + eq + a' \<and> r' + er' + a \<le> r + er + a' \<and>
          v \<le> v' \<and> v' \<le> v + 3 * (int a' - int a)) \<and> cr_cycle res' = cr_cycle res"

lemma grew_refl: "\<not> all_run \<or> k = 0 \<Longrightarrow> grew k all_run res res"
  by (auto simp: grew_def split: prod.splits)

lemma grew_trans: "grew k x res1 res2 \<Longrightarrow> grew m x res2 res3 \<Longrightarrow> grew (k + m) x res1 res3"
  by (auto simp: grew_def split: prod.splits)

lemma grew_agent:
  assumes "advice_step rw cycle i rg res w = (w1, rg1, res1, ok)"
  shows "grew 1 x res res1"
    and "ok \<Longrightarrow> query_step rw cfg t i rg2 res1 w2 = (w3, rg3, res3) \<Longrightarrow> grew 1 x res res3"
    and "ok \<Longrightarrow> query_step rw cfg t i rg2 res1 w2 = (w3, rg3, res3) \<Longrightarrow>
      resolve_step rw cfg cycle i rg4 res3 w4 = (w5, res5) \<Longrightarrow> grew 1 x res res5"
proof -
  obtain a ea q eq r er v where c: "counts res = (a, ea, q, eq, r, er, v)" by (metis prod_cases7)
  note one = advice_step_counts [OF assms c]
  show "grew 1 x res res1" using one by (cases ok) (auto simp: grew_def c)
  assume ok and q: "query_step rw cfg t i rg2 res1 w2 = (w3, rg3, res3)"
  then obtain k where c1: "counts res1 = (a + 1, ea, q, eq, r, er, v + k)" "k = 0 \<or> k = 1" using one by auto
  from query_step_counts [OF q c1(1)] obtain dq de k' where
    two: "dq + de \<le> 1" "0 \<le> k'" "k' \<le> int dq" "counts res3 = (a + 1, ea, q + dq, eq + de, r, er, v + k + k')"
    and cy: "cr_cycle res3 = cr_cycle res1" by auto
  show "grew 1 x res res3" using one c1(2) two cy \<open>ok\<close> by (auto simp: grew_def c)
  assume r: "resolve_step rw cfg cycle i rg4 res3 w4 = (w5, res5)"
  from resolve_step_counts [OF r two(4)] obtain dr de' k'' where
    "dr + de' \<le> 1" "0 \<le> k''" "k'' \<le> 1" "counts res5 = (a + 1, ea, q + dq, eq + de, r + dr, er + de', v + k + k' + k'')"
    "cr_cycle res5 = cr_cycle res3" by auto
  then show "grew 1 x res res5" using one c1(2) two cy \<open>ok\<close> by (auto simp: grew_def c)
qed

lemma run_agents_grew:
  "run_agents rw cfg cycle ids rg res w = (w', rg', res') \<Longrightarrow>
     grew (length ids) (\<forall>w. \<not> snd (rw_stopped rw w)) res res'"
proof (induction ids arbitrary: rg res w)
  case (Cons i ids)
  let ?all = "\<forall>w. \<not> snd (rw_stopped rw w)"
  obtain w0 b0 where s0: "rw_stopped rw w = (w0, b0)" by fastforce
  obtain w1 rg1 res1 ok where a: "advice_step rw cycle i rg res w0 = (w1, rg1, res1, ok)" by (metis prod_cases4)
  obtain w2 b2 where s2: "rw_stopped rw w1 = (w2, b2)" by fastforce
  obtain w3 rg3 res3 where q: "query_step rw cfg (make_advice_trace i cycle) i rg1 res1 w2 = (w3, rg3, res3)"
    by (metis prod_cases3)
  obtain w4 b4 where s4: "rw_stopped rw w3 = (w4, b4)" by fastforce
  obtain w5 res5 where r: "resolve_step rw cfg cycle i rg3 res3 w4 = (w5, res5)" by fastforce
  note ag = grew_agent [OF a]
  have stop: "\<not> ?all" if "b0 \<or> b2 \<or> b4" using that s0 s2 s4 by (metis snd_conv)
  have short: "grew (Suc (length ids)) ?all res res2" if "grew 1 ?all res res2" "\<not> ?all" for res2
    using grew_trans [OF that(1) grew_refl [OF disjI1 [OF that(2)], of "length ids"]] by (simp only: plus_1_eq_Suc)
  show ?case
  proof (cases b0)
    case True
    then show ?thesis using Cons.prems s0 stop grew_refl [of ?all "Suc (length ids)" res] by auto
  next
    case n0: False
    show ?thesis
    proof (cases ok)
      case False
      then have "run_agents rw cfg cycle ids rg1 res1 w1 = (w', rg', res')" using Cons.prems n0 by (simp add: s0 a)
      from grew_trans [OF ag(1) Cons.IH [OF this]] show ?thesis by simp
    next
      case True
      then have cont: "(case b2 of True \<Rightarrow> (w2, rg1, res1) | False \<Rightarrow> (case b4 of True \<Rightarrow> (w4, rg3, res3)
          | False \<Rightarrow> run_agents rw cfg cycle ids rg3 res5 w5)) = (w', rg', res')"
        using Cons.prems n0 by (auto simp: s0 a s2 q s4 r split: bool.splits)
      show ?thesis
      proof (cases "b2 \<or> b4")
        case True
        then have "res' = res1 \<or> res' = res3" using cont by (auto split: bool.splits)
        moreover have n: "\<not> ?all" using True stop by blast
        ultimately show ?thesis
          unfolding length_Cons using short [OF ag(1) n] short [OF ag(2) [OF \<open>ok\<close> q] n] by metis
      next
        case False
        then have "run_agents rw cfg cycle ids rg3 res5 w5 = (w', rg', res')" using cont by simp
        from grew_trans [OF ag(3) [OF \<open>ok\<close> q r] Cons.IH [OF this]] show ?thesis by simp
      qed
    qed
  qed
qed (auto intro: grew_refl)

lemma arena_cycle_counts:
  assumes "arena_cycle rw ra w = (w', ra', res)"
  shows "cr_cycle res = ra_cycle ra + 1 \<and> ra_cycle ra' = ra_cycle ra + 1 \<and> ra_config ra' = ra_config ra \<and>
    grew (length (ru_agent_ids (ra_config ra))) (\<forall>w. \<not> snd (rw_stopped rw w)) (fresh_result (ra_cycle ra + 1)) res"
  using assms run_agents_grew
  by (auto simp: arena_cycle_def Let_def grew_def fresh_result_def split: prod.splits) fastforce+

text \<open>C38: (bounds) A bounded run is accounted for: it has at most the cycles asked for, numbered on from the
  last, and in each cycle the heartbeats sent and failed are at most one per agent, the recorded and
  failed queries, and the sent and failed resolutions, at most one per heartbeat sent, the events at
  most three. If the stop flag is never set, all cycles run, and every agent has its heartbeat sent or
  its failure noted in each, whatever fails for the others.\<close>

theorem runs_are_accounted:
  assumes "run_n_cycles rw interval_secs n ra w = (w', ra', results)"
  shows "length results \<le> n \<and> map cr_cycle results = [ra_cycle ra + 1 .. ra_cycle ra + int (length results)] \<and>
    ra_cycle ra' = ra_cycle ra + int (length results) \<and> ra_config ra' = ra_config ra \<and>
    (\<forall>res \<in> set results.
       length (cr_advice_tx res) + errors_in ''advice'' res \<le> length (ru_agent_ids (ra_config ra)) \<and>
       length (cr_query_tx res) + errors_in ''query'' res \<le> length (cr_advice_tx res) \<and>
       length (cr_resolve_tx res) + errors_in ''resolve'' res \<le> length (cr_advice_tx res) \<and>
       0 \<le> cr_action_events res \<and> cr_action_events res \<le> 3 * int (length (cr_advice_tx res))) \<and>
    ((\<forall>w. \<not> snd (rw_stopped rw w)) \<longrightarrow> length results = n \<and>
       (\<forall>res \<in> set results.
          length (cr_advice_tx res) + errors_in ''advice'' res = length (ru_agent_ids (ra_config ra))))"
  using assms
proof (induction n arbitrary: ra w results)
  case (Suc n)
  obtain w0 b where s: "rw_stopped rw w = (w0, b)" by fastforce
  show ?case
  proof (cases b)
    case False
    obtain w1 ra1 res where a: "arena_cycle rw ra w0 = (w1, ra1, res)" by (metis prod_cases3)
    let ?w2 = "if 0 < interval_secs then pause rw interval_secs w1 else w1"
    obtain w3 ra3 rest where r: "run_n_cycles rw interval_secs n ra1 ?w2 = (w3, ra3, rest)" by (metis prod_cases3)
    have e: "w' = w3" "ra' = ra3" "results = res # rest" using Suc.prems by (auto simp: s False a r)
    have one: "cr_cycle res = ra_cycle ra + 1" "ra_cycle ra1 = ra_cycle ra + 1" "ra_config ra1 = ra_config ra"
      "grew (length (ru_agent_ids (ra_config ra))) (\<forall>w. \<not> snd (rw_stopped rw w)) (fresh_result (ra_cycle ra + 1)) res"
      using arena_cycle_counts [OF a] by blast+
    have "counts (fresh_result c) = (0, 0, 0, 0, 0, 0, 0)" for c by (simp add: counts_def fresh_result_def errors_in_def)
    with one(4) have g: "length (cr_advice_tx res) + errors_in ''advice'' res \<le> length (ru_agent_ids (ra_config ra))"
      "length (cr_query_tx res) + errors_in ''query'' res \<le> length (cr_advice_tx res)"
      "length (cr_resolve_tx res) + errors_in ''resolve'' res \<le> length (cr_advice_tx res)"
      "0 \<le> cr_action_events res" "cr_action_events res \<le> 3 * int (length (cr_advice_tx res))"
      "(\<forall>w. \<not> snd (rw_stopped rw w)) \<longrightarrow>
         length (cr_advice_tx res) + errors_in ''advice'' res = length (ru_agent_ids (ra_config ra))"
      by (auto simp: grew_def counts_def)
    have cy: "map cr_cycle (res # rest) = [ra_cycle ra + 1 .. ra_cycle ra + int (length (res # rest))]"
      using Suc.IH r [unfolded e(1,2) [symmetric]] one(1,2) upto_rec1 [of "ra_cycle ra + 1" "ra_cycle ra + 1 + int (length rest)"]
      by (auto simp: add.commute add.left_commute)
    show ?thesis
      using Suc.IH [OF r [folded e(1,2)]] one(2,3) g cy unfolding e(3) by auto
  next
    case True
    then show ?thesis using Suc.prems s by auto (metis snd_conv)+
  qed
qed simp

lemma runs_are_accounted_witness:
  "\<exists>w' ra' res. run_n_cycles sample_runner_world 0 1 sample_runner 0 = (w', ra', [res]) \<and> cr_cycle res = 1 \<and>
     length (cr_query_tx res) \<le> length (cr_advice_tx res)"
proof -
  obtain w' ra' results where r: "run_n_cycles sample_runner_world 0 1 sample_runner 0 = (w', ra', results)"
    by (metis prod_cases3)
  obtain res where "results = [res]"
    using r by (auto simp: sample_runner_world_def split: prod.splits)
  with runs_are_accounted [OF r] r show ?thesis by (auto simp: sample_runner_def mk_arena_runner_def)
qed

subsection \<open>The unbounded loop\<close>

text \<open>With a positive interval the unbounded loop returns exactly what a bounded run
  returns that was allowed one cycle more than it made, that is, one that the stop flag ended.\<close>

theorem forever_is_the_bounded_run:
  assumes "0 < interval_secs"
  shows "run_forever rw interval_secs ra w = Some (w', ra', results) \<longleftrightarrow>
    run_n_cycles rw interval_secs (Suc (length results)) ra w = (w', ra', results)"
proof (induction results arbitrary: ra w)
  case Nil
  obtain w0 b where s: "rw_stopped rw w = (w0, b)" by fastforce
  obtain w1 ra1 res where a: "arena_cycle rw ra w0 = (w1, ra1, res)" by (metis prod_cases3)
  show ?case
    by (subst run_forever.simps) (auto simp: s a split: bool.splits bind_splits)
next
  case (Cons res' results)
  obtain w0 b where s: "rw_stopped rw w = (w0, b)" by fastforce
  obtain w1 ra1 res where a: "arena_cycle rw ra w0 = (w1, ra1, res)" by (metis prod_cases3)
  let ?w2 = "pause rw interval_secs w1"
  show ?case
  proof (cases b)
    case False
    have "run_forever rw interval_secs ra w = Some (w', ra', res' # results) \<longleftrightarrow>
        res = res' \<and> run_forever rw interval_secs ra1 ?w2 = Some (w', ra', results)"
      by (subst run_forever.simps) (auto simp: s a False split: bind_splits)
    also have "\<dots> \<longleftrightarrow> res = res' \<and> run_n_cycles rw interval_secs (Suc (length results)) ra1 ?w2 = (w', ra', results)"
      by (simp only: Cons.IH)
    also have "\<dots> \<longleftrightarrow> run_n_cycles rw interval_secs (Suc (length (res' # results))) ra w = (w', ra', res' # results)"
      using assms by (auto simp: s a False simp del: run_n_cycles.simps(2) split: prod.splits)
        (auto simp: run_n_cycles.simps(2) [of rw interval_secs "Suc (length results)"] s a False
          simp del: run_n_cycles.simps(2) split: prod.splits)
    finally show ?thesis .
  qed (subst run_forever.simps, simp add: s)
qed

text \<open>A world in which time does not run back, a sleep takes time, and the stop flag is set from \<open>limit\<close> on.\<close>

definition net_forward :: "'w net \<Rightarrow> ('w \<Rightarrow> nat) \<Rightarrow> bool" where
  "net_forward nt age \<longleftrightarrow>
     (\<forall>w url body. age w \<le> age (fst (nt_post nt w url body))) \<and> (\<forall>w. age w \<le> age (fst (nt_time nt w))) \<and>
     (\<forall>w s. age w \<le> age (nt_sleep nt w s)) \<and> (\<forall>w args. age w \<le> age (fst (nt_cast nt w args)))"

definition stops_at :: "nat \<Rightarrow> ('w \<Rightarrow> nat) \<Rightarrow> 'w runner_world \<Rightarrow> bool" where
  "stops_at limit age rw \<longleftrightarrow>
     net_forward (rt_net (rw_outside rw)) age \<and>
     (\<forall>w url. age w \<le> age (fst (rt_hermes (rw_outside rw) w url))) \<and> (\<forall>w. age w \<le> age (fst (rw_paying rw w))) \<and>
     (\<forall>w s. age w < age (rw_wait rw w s)) \<and>
     (\<forall>w. age w \<le> age (fst (rw_stopped rw w)) \<and> (limit \<le> age w \<longrightarrow> snd (rw_stopped rw w)) \<and>
          (snd (rw_stopped rw w) \<longrightarrow> snd (rw_stopped rw (fst (rw_stopped rw w)))))"

lemma net_forwardD:
  assumes "net_forward nt age"
  shows "nt_post nt w url body = (w1, x1) \<Longrightarrow> age w \<le> age w1" "nt_time nt w = (w2, x2) \<Longrightarrow> age w \<le> age w2"
    "age w \<le> age (nt_sleep nt w s)" "nt_cast nt w args = (w3, x3) \<Longrightarrow> age w \<le> age w3"
  using assms by (auto simp: net_forward_def) (metis fst_conv)+

lemma rpc_forward:
  assumes "net_forward nt age" and "rpc_call nt url w m ps = (w', r)"
  shows "age w \<le> age w'"
  using assms(2)
  by (auto simp: rpc_call_def Let_def split: prod.splits dest: net_forwardD(1) [OF assms(1)])

lemma rpc_int_forward:
  assumes "net_forward nt age" and "rpc_int nt url w m ps = (w', r)"
  shows "age w \<le> age w'"
  using assms(2)
  by (auto simp: rpc_int_def Let_def split: prod.splits dest: rpc_forward [OF assms(1)])

lemma fetch_forward:
  assumes "net_forward nt age" and "fetch_tx_params nt url a w = (w', r)"
  shows "age w \<le> age w'"
  using assms(2)
  by (auto simp: fetch_tx_params_def get_nonce_def chain_id_def gas_price_def Let_def split: prod.splits sum.splits
      dest!: rpc_forward [OF assms(1)] rpc_int_forward [OF assms(1)])

lemma gas_forward:
  assumes "net_forward nt age" and "gas_for nt url a b v bs g w = (w', r)"
  shows "age w \<le> age w'"
  using assms(2)
  by (auto simp: gas_for_def Let_def split: prod.splits option.splits dest!: rpc_forward [OF assms(1)])

lemma sign_forward:
  assumes "net_forward nt age" and "sign_and_broadcast nt kt url pk a v bs g w = (w', r)"
  shows "age w \<le> age w'"
  using assms(2)
  by (auto simp: sign_and_broadcast_def Let_def split: prod.splits sum.splits
      dest!: rpc_forward [OF assms(1)] fetch_forward [OF assms(1)] gas_forward [OF assms(1)])

lemma cast_forward:
  assumes "net_forward nt age" and "cast_run nt args pk w = (w', r)"
  shows "age w \<le> age w'"
  using assms(2)
  by (auto simp: cast_run_def Let_def split: prod.splits if_splits dest!: net_forwardD(4) [OF assms(1)])

lemma call_bytes_forward:
  assumes "net_forward nt age" and "call_bytes nt sig args data w = (w', r)"
  shows "age w \<le> age w'"
  using assms(2)
  by (auto simp: call_bytes_def encode_call_data_def Let_def split: prod.splits option.splits dest!: cast_forward [OF assms(1)])

lemma send_forward:
  assumes "net_forward nt age" and "cast_send nt kt url pk a sig args v data g w = (w', r)"
  shows "age w \<le> age w'"
  using assms(2)
  by (auto simp: cast_send_def split: prod.splits sum.splits dest!: call_bytes_forward [OF assms(1)] sign_forward [OF assms(1)])

lemma receipt_forward:
  assumes "net_forward nt age" and "receipt_loop n nt url tx d p w = (w', r)"
  shows "age w \<le> age w'"
  using assms(2)
proof (induction n arbitrary: w)
  case (Suc n)
  obtain w1 now where t: "nt_time nt w = (w1, now)" by fastforce
  obtain w2 q where c: "rpc_call nt url w1 ''eth_getTransactionReceipt'' [tx] = (w2, q)" by fastforce
  have "w' = w1 \<or> w' = w2 \<or> receipt_loop n nt url tx d p (nt_sleep nt w2 p) = (w', r)"
    using Suc.prems by (auto simp: t c split: if_splits sum.splits)
  then show ?case
    using Suc.IH net_forwardD(2) [OF assms(1) t] rpc_forward [OF assms(1) c] net_forwardD(3) [OF assms(1), of w2 p]
    by (meson le_trans)
qed simp

lemma wait_forward:
  assumes "net_forward nt age" and "wait_for_receipt nt url tx t p w = (w', r)"
  shows "age w \<le> age w'"
  using assms(2)
  by (auto simp: wait_for_receipt_def split: prod.splits
      dest!: net_forwardD(2) [OF assms(1)] receipt_forward [OF assms(1)])

lemma send_and_wait_forward:
  assumes "net_forward (rt_net rt) age" and "send_and_wait rt cfg a data w = (w', r)"
  shows "age w \<le> age w'"
  using assms(2)
  by (auto simp: send_and_wait_def registry_send_def Let_def split: prod.splits sum.splits dest!: send_forward [OF assms(1)] wait_forward [OF assms(1)])

lemma record_forward:
  assumes "net_forward (rt_net rt) age" and "record_action rt cfg msg i k payload w = (w', r)"
  shows "age w \<le> age w'"
  using assms(2)
  by (auto simp: record_action_def Let_def split: prod.splits sum.splits dest!: send_and_wait_forward [OF assms(1)])

lemma resolve_bond_forward:
  assumes "net_forward nt age" and "\<forall>w url. age w \<le> age (fst (get w url))"
    and "resolve_bond nt kt ab get url pk orc a p f fb g w = (w', r)"
  shows "age w \<le> age w'"
proof -
  have h: "age w1 \<le> age w2" if "fetch_hermes_vaa get f w1 = (w2, x)" for w1 w2 x
    using that assms(2) by (auto simp: fetch_hermes_vaa_def split: prod.splits) (metis fst_conv)
  have c: "age w1 \<le> age w2" if "get_update_fee nt url p v w1 = (w2, x)" for v w1 w2 x
    using that assms(1) by (auto simp: get_update_fee_def cast_call_def split: prod.splits dest!: cast_forward)
  show ?thesis
    using assms(1,3)
    by (auto simp: resolve_bond_def Let_def split: prod.splits sum.splits dest!: h c send_forward [OF assms(1)] wait_forward [OF assms(1)])
qed

lemma resolve_agent_forward:
  assumes "net_forward (rt_net rt) age" and "\<forall>w url. age w \<le> age (fst (rt_hermes rt w url))"
    and "resolve_agent rt cfg i body w = (w', r)"
  shows "age w \<le> age w'"
proof -
  have "age w1 \<le> age w2" if "run_resolve_bond rt cfg body w1 = (w2, x)" for w1 w2 x
    using that by (auto simp: run_resolve_bond_def split: option.splits sum.splits dest: resolve_bond_forward [OF assms(1,2)])
  then show ?thesis
    using assms(1,3) by (fastforce simp: resolve_agent_def Let_def split: prod.splits sum.splits dest: record_forward [OF assms(1)])
qed

lemma stops_atD:
  assumes "stops_at limit age rw"
  shows "net_forward (rt_net (rw_outside rw)) age" and "\<forall>w url. age w \<le> age (fst (rt_hermes (rw_outside rw) w url))"
    and "rw_paying rw w = (w1, py) \<Longrightarrow> age w \<le> age w1" and "age w < age (rw_wait rw w s)"
    and "rw_stopped rw w = (w2, b) \<Longrightarrow> age w \<le> age w2" and "rw_stopped rw w = (w2, False) \<Longrightarrow> age w < limit"
    and "rw_stopped rw w = (w2, True) \<Longrightarrow> \<exists>w3. rw_stopped rw w2 = (w3, True)"
  using assms by (auto simp: stops_at_def; metis fst_conv snd_conv not_le prod.collapse)+

lemma steps_forward:
  assumes "stops_at limit age rw"
  shows "advice_step rw cycle i rg res w = (w1, rg1, res1, ok) \<Longrightarrow> age w \<le> age w1"
    and "query_step rw cfg t i rg res w = (w2, rg2, res2) \<Longrightarrow> age w \<le> age w2"
    and "resolve_step rw cfg cycle i rg res w = (w3, res3) \<Longrightarrow> age w \<le> age w3"
proof -
  note fw = record_forward [OF stops_atD(1) [OF assms]]
  have pub: "age u \<le> age u'" if "publish_advice (rw_outside rw) i body now rg u = (u', rg', r)" for body now rg' u u' r
    using that by (auto simp: publish_advice_def Let_def split: prod.splits sum.splits dest!: fw)
  show "advice_step rw cycle i rg res w = (w1, rg1, res1, ok) \<Longrightarrow> age w \<le> age w1"
    by (auto simp: advice_step_def Let_def split: prod.splits sum.splits dest!: pub)
  have "age u \<le> age u'" if "query_dark_pool rw t rg u = (u', rg', r)" for u u' rg' r
    using that by (auto simp: query_dark_pool_def Let_def split: prod.splits sum.splits option.splits
        dest!: stops_atD(3) [OF assms])
  then show "query_step rw cfg t i rg res w = (w2, rg2, res2) \<Longrightarrow> age w \<le> age w2"
    by (fastforce simp: query_step_def record_query_paid_def split: prod.splits sum.splits if_splits dest: fw)
  show "resolve_step rw cfg cycle i rg res w = (w3, res3) \<Longrightarrow> age w \<le> age w3"
    by (auto simp: resolve_step_def split: prod.splits sum.splits if_splits
        dest!: resolve_agent_forward [OF stops_atD(1,2) [OF assms]])
qed

lemma run_agents_forward:
  assumes "stops_at limit age rw" and "run_agents rw cfg cycle ids rg res w = (w', rg', res')"
  shows "age w \<le> age w'"
  using assms(2)
proof (induction ids arbitrary: rg res w)
  case (Cons i ids)
  obtain w0 b0 where s0: "rw_stopped rw w = (w0, b0)" by fastforce
  obtain w1 rg1 res1 ok where a: "advice_step rw cycle i rg res w0 = (w1, rg1, res1, ok)" by (metis prod_cases4)
  obtain w2 b2 where s2: "rw_stopped rw w1 = (w2, b2)" by fastforce
  obtain w3 rg3 res3 where q: "query_step rw cfg (make_advice_trace i cycle) i rg1 res1 w2 = (w3, rg3, res3)"
    by (metis prod_cases3)
  obtain w4 b4 where s4: "rw_stopped rw w3 = (w4, b4)" by fastforce
  obtain w5 res5 where r: "resolve_step rw cfg cycle i rg3 res3 w4 = (w5, res5)" by fastforce
  have "age w \<le> age w0" "age w0 \<le> age w1" "age w1 \<le> age w2" "age w2 \<le> age w3" "age w3 \<le> age w4" "age w4 \<le> age w5"
    using stops_atD(5) [OF assms(1)] s0 s2 s4 steps_forward(1) [OF assms(1) a] steps_forward(2) [OF assms(1) q]
      steps_forward(3) [OF assms(1) r] by blast+
  moreover have "w' \<in> {w0, w2, w4} \<or> run_agents rw cfg cycle ids rg1 res1 w1 = (w', rg', res') \<or>
      run_agents rw cfg cycle ids rg3 res5 w5 = (w', rg', res')"
    using Cons.prems by (cases b0; cases ok; cases b2; cases b4) (simp_all add: s0 a s2 q s4 r)
  ultimately show ?case by (auto dest!: Cons.IH)
qed simp

lemma arena_cycle_forward: "stops_at limit age rw \<Longrightarrow> arena_cycle rw ra w = (w', ra', res) \<Longrightarrow> age w \<le> age w'"
  by (auto simp: arena_cycle_def Let_def split: prod.splits dest: run_agents_forward)

text \<open>C39: (termination) The unbounded loop ends when it is told to: in a world where time does not run
  back, a sleep takes time and the stop flag stays set from some moment on, it returns, after at most
  as many cycles as there were moments left, whatever the chain and the pool answer in between.\<close>

theorem forever_ends_when_told:
  assumes "stops_at limit age rw"
  shows "\<exists>w' ra' results. run_forever rw interval_secs ra w = Some (w', ra', results) \<and>
    length results \<le> limit - age w \<and> ra_cycle ra' = ra_cycle ra + int (length results)"
proof (induction "limit - age w" arbitrary: ra w rule: less_induct)
  case less
  obtain w0 b where s: "rw_stopped rw w = (w0, b)" by fastforce
  show ?case
  proof (cases b)
    case True
    then show ?thesis by (subst run_forever.simps) (simp add: s)
  next
    case False
    obtain w1 ra1 res where a: "arena_cycle rw ra w0 = (w1, ra1, res)" by (metis prod_cases3)
    let ?w2 = "pause rw interval_secs w1"
    have age: "age w \<le> age w0" "age w < limit" "age w0 \<le> age w1"
      using stops_atD(5) [OF assms s] stops_atD(6) [OF assms, of w w0] s False arena_cycle_forward [OF assms a] by auto
    have cyc: "ra_cycle ra1 = ra_cycle ra + 1" using arena_cycle_counts [OF a] by blast
    have step: "run_forever rw interval_secs ra w = Option.bind (run_forever rw interval_secs ra1 ?w2) (\<lambda>(w', ra', results).
        Some (w', ra', res # results))"
      by (subst run_forever.simps) (simp add: s a False)
    obtain wp bp where p: "rw_stopped rw w1 = (wp, bp)" by fastforce
    show ?thesis
    proof (cases bp)
      case True
      then obtain w3 where "rw_stopped rw ?w2 = (w3, True)" using stops_atD(7) [OF assms, of w1 wp] p by (auto simp: pause_def)
      then have "run_forever rw interval_secs ra1 ?w2 = Some (w3, ra1, [])" by (subst run_forever.simps) simp
      then show ?thesis using age cyc by (simp add: step)
    next
      case False
      then have "age w < age ?w2"
        using stops_atD(4) [OF assms, of wp interval_secs] stops_atD(5) [OF assms p] age p by (simp add: pause_def)
      then have less2: "limit - age ?w2 < limit - age w" using age(2) by simp
      from less [OF this, of ra1] obtain w' ra' results where
        "run_forever rw interval_secs ra1 ?w2 = Some (w', ra', results)" "length results \<le> limit - age ?w2"
        "ra_cycle ra' = ra_cycle ra1 + int (length results)" by blast
      then show ?thesis using less2 cyc by (auto simp: step)
    qed
  qed
qed

lemma sample_runner_stops: "stops_at 100 (\<lambda>n. n) sample_runner_world"
  by (simp add: stops_at_def net_forward_def sample_runner_world_def sample_outside_def honest_net_def)

lemma forever_ends_when_told_witness:
  "\<exists>w' ra' results. run_forever sample_runner_world 1 sample_runner 0 = Some (w', ra', results) \<and> length results \<le> 100"
  using forever_ends_when_told [OF sample_runner_stops, of 1 sample_runner 0] by auto

lemma forever_is_the_bounded_run_witness:
  "run_forever sample_runner_world 1 sample_runner 100 = Some (100, sample_runner, [])"
  using forever_is_the_bounded_run [of 1 sample_runner_world sample_runner 100 100 sample_runner "[]"]
  by (simp add: sample_runner_world_def)

end
