(* ===== verification/Wallet_Properties.thy ===== *)
theory Wallet_Properties
  imports Keys "HOL-Library.Multiset"
begin

text \<open>
  What the wallets and the environment file promise: a pool of agents that was spawned and whose
  identities were saved is loaded again as it was, and the file never overrides the environment.
\<close>

subsection \<open>The sidecar is read back\<close>

lemma num_end_newline [simp]: "num_end (CHR 0x0A # r)"
  by (simp add: num_end_def is_digit_def)

abbreviation line_break :: string where
  "line_break \<equiv> [CHR 0x0A, CHR '' '', CHR '' '']"

lemma comma_lines_Cons: "xs \<noteq> [] \<Longrightarrow> comma_lines (x # xs) = x @ '','' @ line_break @ comma_lines xs"
  by (cases xs) simp_all

lemma lines_head: "kvs \<noteq> [] \<Longrightarrow> \<exists>t. comma_lines (map (member_text fr) kvs) = CHR 0x22 # t"
  by (cases kvs; cases "tl kvs") (auto simp: ascii_str_def)

lemma skip_ws_lines [simp]:
  "skip_ws (CHR 0x0A # CHR '' '' # CHR '' '' # CHR 0x22 # t) = CHR 0x22 # t" "skip_ws (CHR 0x0A # CHR ''}'' # r) = CHR ''}'' # r"
  by (simp_all add: skip_ws_def json_space_def)

lemma lines_read_back:
  assumes "kvs \<noteq> []" and "\<forall>kv \<in> set kvs. ascii (fst kv) \<and> wire_ok (snd kv)"
    and "2 * length (comma_lines (map (member_text fr) kvs) @ CHR 0x0A # CHR ''}'' # r) + 2 \<le> n"
  shows "parse_members n (comma_lines (map (member_text fr) kvs) @ CHR 0x0A # CHR ''}'' # r) = Some (kvs, r)"
  using assms
proof (induction kvs arbitrary: n)
  case (Cons kv kvs)
  obtain n' where n: "n = Suc n'" using Cons.prems(3) by (cases n) auto
  obtain k v where kv: "kv = (k, v)" by fastforce
  have h: "ascii k" "wire_ok v" "reads_back fr v" using Cons.prems(2) wire_ok_reads_back by (auto simp: kv)
  show ?case
  proof (cases "kvs = []")
    case True
    with Cons.prems(3) show ?thesis
      using member_reads_back [OF h, of "CHR 0x0A # CHR ''}'' # r" n'] by (simp add: n kv)
  next
    case False
    let ?u = "comma_lines (map (member_text fr) kvs) @ CHR 0x0A # CHR ''}'' # r"
    obtain t where t: "comma_lines (map (member_text fr) kvs) = CHR 0x22 # t" using lines_head [OF False] by blast
    have sw: "skip_ws (line_break @ ?u) = ?u" unfolding t by simp
    have "parse_members n' ?u = Some (kvs, r)"
      using Cons.prems False n by (intro Cons.IH) (auto simp: comma_lines_Cons)
    moreover have "parse_members (Suc n') (member_text fr (k, v) @ '','' @ line_break @ ?u) =
        map_option (map_prod (Cons (k, v)) id) (parse_members n' ?u)"
      using member_reads_back [OF h, of "'','' @ line_break @ ?u" n'] Cons.prems(3) False n
      by (simp add: comma_lines_Cons kv sw [simplified])
    ultimately show ?thesis using False by (simp add: n comma_lines_Cons kv)
  qed
qed simp

lemma object_loads:
  assumes "\<And>k. 2 * length u + 2 \<le> k \<Longrightarrow> parse_members k u = Some (kvs, [])" and "u = CHR 0x22 # t"
    and "dict_of_pairs kvs = kvs"
  shows "json_loads (CHR ''{'' # line_break @ u) = Some (JObj kvs)"
proof -
  have "skip_ws (line_break @ u) = u" by (simp add: assms(2))
  moreover have "\<not> startswith u ''}''" by (simp add: assms(2) startswith_def)
  ultimately have "parse_value (Suc k) (CHR ''{'' # line_break @ u) = Some (JObj kvs, [])" if "2 * length u + 2 \<le> k" for k
    using assms(1) [OF that] assms(3) by simp
  from this [of "2 * length (CHR ''{'' # line_break @ u)"]
  have "parse_value (2 * length (CHR ''{'' # line_break @ u) + 1) (CHR ''{'' # line_break @ u) = Some (JObj kvs, [])"
    by (simp del: parse_value.simps)
  moreover have "skip_ws (CHR ''{'' # line_break @ u) = CHR ''{'' # line_break @ u" by (simp add: skip_ws_def json_space_def)
  ultimately show ?thesis by (simp add: json_loads_def del: parse_value.simps)
qed

abbreviation id_members :: "(string \<times> int) list \<Rightarrow> dict" where
  "id_members m \<equiv> map (\<lambda>kv. (fst kv, JInt (snd kv))) (sort_key fst m)"

lemma identities_read_back:
  assumes "\<forall>kv \<in> set m. ascii (fst kv) \<and> wire_ok (JInt (snd kv))" and "distinct (map fst m)"
  shows "json_loads (identities_text m) = Some (JObj (id_members m))"
proof (cases "m = []")
  case True
  have "json_loads ''{}'' = Some (JObj [])" by code_simp
  with True show ?thesis by (simp add: identities_text_def)
next
  case False
  let ?kvs = "id_members m" and ?fr = "ratio_repr"
  have ne: "?kvs \<noteq> []" using False by (metis length_0_conv length_map length_sort)
  have ok: "\<forall>kv \<in> set ?kvs. ascii (fst kv) \<and> wire_ok (snd kv)" using assms(1) by auto
  have d: "dict_of_pairs ?kvs = ?kvs"
  proof (rule dict_of_pairs_id)
    have "mset (map fst (sort_key fst m)) = mset (map fst m)" by simp
    then have "distinct (map fst (sort_key fst m))" using assms(2) by (metis mset_eq_imp_distinct_iff)
    then show "distinct (map fst ?kvs)" by (simp add: comp_def)
  qed
  let ?u = "comma_lines (map (member_text ?fr) ?kvs) @ [CHR 0x0A, CHR ''}'']"
  obtain t where t: "comma_lines (map (member_text ?fr) ?kvs) = CHR 0x22 # t" using lines_head [OF ne] by blast
  have body: "identities_text m = CHR ''{'' # line_break @ ?u"
    using False by (simp add: identities_text_def comp_def)
  have u: "?u = CHR 0x22 # t @ [CHR 0x0A, CHR ''}'']" unfolding t by simp
  show ?thesis
    unfolding body by (rule object_loads [OF lines_read_back [OF ne ok, of ?fr "[]"] u d])
qed


subsection \<open>Spawning, saving, loading\<close>

text \<open>The documented behaviour of keystores: JSON of the wire, and the password that encrypts decrypts.\<close>

definition keystore_cipher :: "crypto \<Rightarrow> 'w key_source \<Rightarrow> bool" where
  "keystore_cipher cr ks \<longleftrightarrow>
     (\<forall>w key pw. wire_ok (snd (ks_encrypt ks w key pw)) \<and> cr_decrypt cr (snd (ks_encrypt ks w key pw)) pw = Inr key)"

definition keystore_of :: "crypto \<Rightarrow> string \<Rightarrow> string \<times> string \<Rightarrow> wallet \<Rightarrow> bool" where
  "keystore_of cr pw kv x \<longleftrightarrow>
     fst kv = keystore_name (wa_address x) \<and> wa_identity_id x = None \<and>
     (\<forall>ids. open_wallet cr pw ids (snd kv) = Inr (x\<lparr>wa_identity_id := map_of ids (lower (wa_address x))\<rparr>))"

lemma keystore_name_inj [simp]: "keystore_name a = keystore_name b \<longleftrightarrow> a = b"
  by (simp add: keystore_name_def)

lemma update_fresh: "k \<notin> fst ` set m \<Longrightarrow> AList.update k v m = m @ [(k, v)]"
  by (induction m) auto

lemma spawn_one_keystore:
  assumes "keystore_cipher cr ks" and "spawn_one cr ks fr pw d w = (w', d', x)"
  shows "\<exists>content. d' = AList.update (keystore_name (wa_address x)) content d \<and>
    keystore_of cr pw (keystore_name (wa_address x), content) x"
proof -
  obtain w1 key where k: "ks_create ks w = (w1, key)" by fastforce
  obtain w2 js where e: "ks_encrypt ks w1 key pw = (w2, js)" by fastforce
  have "wire_ok js" "cr_decrypt cr js pw = Inr key" using assms(1) e unfolding keystore_cipher_def by (metis snd_conv)+
  moreover have "x = \<lparr>wa_address = cr_address cr (key_hex key), wa_private_key = key_hex key, wa_identity_id = None\<rparr>"
    "d' = AList.update (keystore_name (wa_address x)) (dumps_default fr js) d"
    using assms(2) k e by (auto simp: spawn_one_def Let_def)
  ultimately show ?thesis
    by (intro exI [of _ "dumps_default fr js"]) (simp add: keystore_of_def open_wallet_def loads_dumps Let_def)
qed

lemma spawn_loop_keystores:
  assumes "keystore_cipher cr ks"
  shows "spawn_loop cr ks fr pw n d w = (w', d', xs) \<Longrightarrow> distinct (map wa_address xs) \<Longrightarrow>
    keystore_name ` wa_address ` set xs \<inter> fst ` set d = {} \<Longrightarrow> \<exists>es. d' = d @ es \<and> list_all2 (keystore_of cr pw) es xs"
proof (induction n arbitrary: d w w' d' xs)
  case (Suc n)
  obtain w1 d1 x where o: "spawn_one cr ks fr pw d w = (w1, d1, x)" by (metis prod_cases3)
  obtain w2 d2 ys where l: "spawn_loop cr ks fr pw n d1 w1 = (w2, d2, ys)" by (metis prod_cases3)
  have e: "d' = d2" "xs = x # ys" using Suc.prems(1) o l by auto
  from spawn_one_keystore [OF assms o] obtain content where
    c: "d1 = AList.update (keystore_name (wa_address x)) content d" "keystore_of cr pw (keystore_name (wa_address x), content) x"
    by blast
  have d1: "d1 = d @ [(keystore_name (wa_address x), content)]"
    using Suc.prems(3) e c(1) update_fresh by auto
  have "\<exists>es. d2 = d1 @ es \<and> list_all2 (keystore_of cr pw) es ys"
    using Suc.prems(2,3) e d1 by (intro Suc.IH [OF l]) auto
  then show ?case using c(2) by (auto simp: d1 e)
qed auto

definition minted :: "(wallet \<Rightarrow> int option) \<Rightarrow> wallet \<Rightarrow> wallet" where
  "minted ids x = x\<lparr>wa_identity_id := ids x\<rparr>"

lemma minted_simps [simp]: "wa_address (minted ids x) = wa_address x" "wa_identity_id (minted ids x) = ids x"
  by (simp_all add: minted_def)

definition recorded_ids :: "wallet list \<Rightarrow> (string \<times> int) list" where
  "recorded_ids xs = map (\<lambda>x. (wa_address x, the (wa_identity_id x))) (filter (\<lambda>x. wa_identity_id x \<noteq> None) xs)"

lemma record_identities:
  "distinct (map wa_address xs) \<Longrightarrow> wa_address ` set xs \<inter> fst ` set m = {} \<Longrightarrow>
   foldl record_identity m xs = m @ recorded_ids xs"
proof (induction xs arbitrary: m)
  case (Cons x xs)
  show ?case
  proof (cases "wa_identity_id x")
    case (Some n)
    have "foldl record_identity (m @ [(wa_address x, n)]) xs = (m @ [(wa_address x, n)]) @ recorded_ids xs"
      using Cons.prems by (intro Cons.IH) auto
    then show ?thesis using Cons.prems Some update_fresh [of "wa_address x" m n]
      by (simp add: record_identity_def [of m x] recorded_ids_def)
  qed (use Cons in \<open>simp add: record_identity_def recorded_ids_def\<close>)
qed (simp add: recorded_ids_def)

lemma read_members:
  "distinct (map (lower \<circ> fst) m) \<Longrightarrow> fst ` set acc \<inter> (lower \<circ> fst) ` set m = {} \<Longrightarrow>
   read_lenient (map (\<lambda>kv. (fst kv, JInt (snd kv))) m) acc = Inr (acc @ map (\<lambda>kv. (lower (fst kv), snd kv)) m)"
proof (induction m arbitrary: acc)
  case (Cons kv m)
  have "lower (fst kv) \<notin> fst ` set acc" using Cons.prems(2) by auto
  moreover have "read_lenient (map (\<lambda>kv. (fst kv, JInt (snd kv))) m) (acc @ [(lower (fst kv), snd kv)]) =
      Inr ((acc @ [(lower (fst kv), snd kv)]) @ map (\<lambda>kv. (lower (fst kv), snd kv)) m)"
    using Cons.prems by (intro Cons.IH) auto
  ultimately show ?case by (simp add: update_fresh)
qed simp

lemma map_sort_distinct: "distinct (map f xs) \<Longrightarrow> distinct (map f (sort_key g xs))"
  by (metis mset_eq_imp_distinct_iff mset_map mset_sort)

lemma recorded_ids_facts:
  assumes "distinct (map (\<lambda>x. lower (wa_address x)) xs)"
  shows "distinct (map (lower \<circ> fst) (recorded_ids xs))" "distinct (map fst (recorded_ids xs))"
    and "x \<in> set xs \<Longrightarrow> map_of (map (\<lambda>kv. (lower (fst kv), snd kv)) (sort_key fst (recorded_ids xs))) (lower (wa_address x)) =
      wa_identity_id x"
proof -
  have d: "distinct (map (\<lambda>x. lower (wa_address x)) (filter (\<lambda>x. wa_identity_id x \<noteq> None) xs))"
    using assms by (simp add: distinct_map_filter)
  then show l: "distinct (map (lower \<circ> fst) (recorded_ids xs))" by (simp add: recorded_ids_def comp_def)
  then have "distinct (map lower (map fst (recorded_ids xs)))" by simp
  then show "distinct (map fst (recorded_ids xs))" using distinct_map by blast
  assume x: "x \<in> set xs"
  let ?m = "map (\<lambda>kv. (lower (fst kv), snd kv)) (sort_key fst (recorded_ids xs))"
  have dm: "distinct (map fst ?m)" using map_sort_distinct [OF l, of fst] by (simp add: comp_def)
  have inj: "inj_on (\<lambda>x. lower (wa_address x)) (set xs)" using assms by (simp add: distinct_map)
  have s: "set ?m = (\<lambda>y. (lower (wa_address y), the (wa_identity_id y))) ` {y \<in> set xs. wa_identity_id y \<noteq> None}"
    by (simp add: recorded_ids_def image_image)
  show "map_of ?m (lower (wa_address x)) = wa_identity_id x"
  proof (cases "wa_identity_id x")
    case None
    have "lower (wa_address x) \<notin> fst ` set ?m" unfolding s using x None by (auto dest!: inj_onD [OF inj])
    then show ?thesis using None by (simp add: map_of_eq_None_iff)
  next
    case (Some n)
    then have "(lower (wa_address x), n) \<in> set ?m" unfolding s using x by force
    with dm show ?thesis using Some by (simp add: map_of_is_SomeI)
  qed
qed

lemma res_map_projr: "(\<And>x. x \<in> set xs \<Longrightarrow> \<exists>y. f x = Inr y) \<Longrightarrow> res_map f xs = Inr (map (\<lambda>x. projr (f x)) xs)"
  by (induction xs) (auto, fastforce)

lemma all2_projr:
  assumes "list_all2 (\<lambda>x y. f x = Inr y) xs ys"
  shows "map (\<lambda>x. projr (f x)) xs = ys" and "\<forall>x \<in> set xs. \<exists>y. f x = Inr y"
  using assms by (induction rule: list_all2_induct) auto

lemma mset_map_sort: "map g xs = ys \<Longrightarrow> mset (map g (sort_key f xs)) = mset ys"
  by auto

lemma sort_key_unique:
  assumes "mset xs = mset ys" and "distinct (map f xs)"
  shows "sort_key f xs = sort_key f ys"
proof -
  have s: "map f (sort_key f xs) = map f (sort_key f ys)"
  proof (rule sorted_distinct_set_unique)
    show "distinct (map f (sort_key f xs))" using assms(2) by (rule map_sort_distinct)
    have "distinct (map f ys)" using assms by (metis mset_eq_imp_distinct_iff mset_map)
    then show "distinct (map f (sort_key f ys))" by (rule map_sort_distinct)
    show "set (map f (sort_key f xs)) = set (map f (sort_key f ys))" using mset_eq_setD [OF assms(1)] by simp
  qed simp_all
  have "inj_on f (set (sort_key f xs) \<union> set (sort_key f ys))"
    using assms mset_eq_setD [OF assms(1)] by (simp add: distinct_map)
  then show ?thesis using s by (rule inj_on_map_eq_map [THEN iffD1])
qed

lemma keystore_files_of:
  assumes "list_all2 (keystore_of cr pw) es xs"
  shows "keystore_files (es @ [(IDENTITIES_FILENAME, content)]) = sort_key fst es" "map_of es IDENTITIES_FILENAME = None"
proof -
  have "\<forall>kv \<in> set es. \<exists>a. fst kv = keystore_name a"
    using assms unfolding list_all2_conv_all_nth keystore_of_def by (metis in_set_conv_nth)
  moreover have "endswith (keystore_name a) ''.keystore''" for a
    by (simp add: keystore_name_def endswith_def startswith_def)
  ultimately have e: "\<forall>kv \<in> set es. endswith (fst kv) ''.keystore''" by auto
  have n: "\<not> endswith IDENTITIES_FILENAME ''.keystore''" by code_simp
  show "keystore_files (es @ [(IDENTITIES_FILENAME, content)]) = sort_key fst es"
    using e n by (simp add: keystore_files_def)
  show "map_of es IDENTITIES_FILENAME = None" using e n by (auto simp: map_of_eq_None_iff)
qed

text \<open>C40: (roundtrip) A pool of agents survives a restart: keys spawned into a fresh vault, whose addresses
  differ (case aside) and are given any identities or none, and whose identities are then saved, are
  loaded under the same password as the same wallets with the same keys and identities, sorted by
  lower-cased address.\<close>

theorem pool_is_reloaded:
  assumes "keystore_cipher cr ks" and "spawn_keypairs cr ks fr environ n password None w = (w', vault, Inr xs)"
    and "distinct (map (\<lambda>x. lower (wa_address x)) xs)"
    and "\<forall>x \<in> set xs. ascii (wa_address x) \<and> (\<forall>i. ids x = Some i \<longrightarrow> wire_ok (JInt i))"
    and "save_identities (map (minted ids) xs) vault = (d, r)"
  shows "r = Inr () \<and> load_agent_wallets cr environ password (Some d) =
    Inr (sort_key (\<lambda>x. lower (wa_address x)) (map (minted ids) xs))"
proof -
  let ?ys = "map (minted ids) xs" and ?addr = "\<lambda>x. lower (wa_address x)"
  from assms(2) obtain pw es where pw: "resolve_password environ password = Inr pw"
    and l: "spawn_loop cr ks fr pw (nat n) [] w = (w', es, xs)" and v: "vault = Some es"
    by (auto simp: spawn_keypairs_def mkdir_def split: if_splits sum.splits prod.splits)
  have "distinct (map lower (map wa_address xs))" using assms(3) by (simp add: comp_def)
  then have "distinct (map wa_address xs)" using distinct_map by blast
  with spawn_loop_keystores [OF assms(1) l] have es: "list_all2 (keystore_of cr pw) es xs" by simp
  let ?m = "recorded_ids ?ys"
  have dy: "distinct (map ?addr ?ys)" "distinct (map wa_address ?ys)"
    using assms(3) \<open>distinct (map wa_address xs)\<close> by (simp_all add: comp_def)
  note facts = recorded_ids_facts [OF dy(1)]
  have d: "d = es @ [(IDENTITIES_FILENAME, identities_text ?m)]" and r: "r = Inr ()"
    using assms(5) v keystore_files_of(2) [OF es] record_identities [OF dy(2), of "[]"]
    by (auto simp: save_identities_def mkdir_def existing_identities_def map_of_eq_None_iff update_fresh)
  have "\<forall>kv \<in> set ?m. ascii (fst kv) \<and> wire_ok (JInt (snd kv))" using assms(4) by (auto simp: recorded_ids_def)
  then have "json_loads (identities_text ?m) = Some (JObj (id_members ?m))" using facts(2) by (rule identities_read_back)
  then have ids: "load_identities d = Inr (map (\<lambda>kv. (lower (fst kv), snd kv)) (sort_key fst ?m))" (is "_ = Inr ?ids")
    using d keystore_files_of(2) [OF es] read_members [of "sort_key fst ?m" "[]"] map_sort_distinct [OF facts(1), of fst]
    by (simp add: load_identities_def map_add_def)
  let ?open = "\<lambda>kv. open_wallet cr pw ?ids (snd kv)"
  have got: "map_of ?ids (lower (wa_address x)) = ids x" if "x \<in> set xs" for x
    using facts(3) [of "minted ids x"] that by simp
  have opened: "list_all2 (\<lambda>kv y. ?open kv = Inr y) es ?ys"
    using es got unfolding list_all2_conv_all_nth keystore_of_def
    by (simp add: minted_def del: map_map)
  then have "map (\<lambda>kv. projr (?open kv)) es = ?ys" by (rule all2_projr(1))
  then have ms: "mset (map (\<lambda>kv. projr (?open kv)) (sort_key fst es)) = mset ?ys" by (rule mset_map_sort)
  have "res_map ?open (sort_key fst es) = Inr (map (\<lambda>kv. projr (?open kv)) (sort_key fst es))"
    by (rule res_map_projr) (use all2_projr(2) [OF opened] in \<open>simp only: set_sort\<close>)
  then show ?thesis
    using r pw ids keystore_files_of(1) [OF es, of "identities_text ?m"] sort_key_unique [OF ms [symmetric] dy(1)]
    by (simp add: load_agent_wallets_def d)
qed

text \<open>Keystores that are the key in hex, and keys that count up.\<close>

definition plain_crypto :: crypto where
  "plain_crypto =
     \<lparr>cr_decrypt = (\<lambda>js pw. case js of JStr s \<Rightarrow> of_opt (ValueError ''MAC mismatch'') (fromhex s) | _ \<Rightarrow> Inl (ValueError ''MAC mismatch'')),
      cr_address = (\<lambda>pk. pk)\<rparr>"

definition counting_keys :: "byte key_source" where
  "counting_keys = \<lparr>ks_create = (\<lambda>n. (n + 1, [n])), ks_encrypt = (\<lambda>n key pw. (n, JStr (to_hex key)))\<rparr>"

lemma pool_is_reloaded_witness:
  "\<exists>vault xs d. spawn_keypairs plain_crypto counting_keys ratio_repr [] 2 (Some ''pw'') None 7 = (9, vault, Inr xs) \<and> length xs = 2 \<and>
     save_identities (map (minted (\<lambda>x. Some 42)) xs) vault = (d, Inr ()) \<and>
     load_agent_wallets plain_crypto [] (Some ''pw'') (Some d) =
       Inr (sort_key (\<lambda>x. lower (wa_address x)) (map (minted (\<lambda>x. Some 42)) xs))"
proof -
  have c: "keystore_cipher plain_crypto counting_keys"
    by (simp add: keystore_cipher_def plain_crypto_def counting_keys_def fromhex_to_hex)
  let ?xs = "[\<lparr>wa_address = key_hex [7], wa_private_key = key_hex [7], wa_identity_id = None\<rparr>,
    \<lparr>wa_address = key_hex [8], wa_private_key = key_hex [8], wa_identity_id = None\<rparr>]"
  have "\<exists>vault. spawn_keypairs plain_crypto counting_keys ratio_repr [] 2 (Some ''pw'') None 7 = (9, vault, Inr ?xs)"
    by (simp add: spawn_keypairs_def resolve_password_def spawn_one_def counting_keys_def plain_crypto_def numeral_2_eq_2 Let_def)
  then obtain vault where sp: "spawn_keypairs plain_crypto counting_keys ratio_repr [] 2 (Some ''pw'') None 7 = (9, vault, Inr ?xs)"
    by blast
  obtain d r where s: "save_identities (map (minted (\<lambda>x. Some 42)) ?xs) vault = (d, r)" by fastforce
  have dist: "distinct (map (\<lambda>x. lower (wa_address x)) ?xs)" by code_simp
  have asc: "\<forall>x \<in> set ?xs. ascii (wa_address x) \<and> (\<forall>i. Some 42 = Some i \<longrightarrow> wire_ok (JInt i))"
    by (simp add: key_hex_def) (simp add: nat_str.simps)
  from pool_is_reloaded [OF c sp dist asc s] sp s show ?thesis
    by (intro exI [of _ vault] exI [of _ ?xs] exI [of _ d]) simp
qed

subsection \<open>The environment file\<close>

definition env_defs :: "string \<Rightarrow> environ" where
  "env_defs content = filter (\<lambda>kv. fst kv \<noteq> []) (List.map_filter env_line (split_lines content []))"

definition env_def_of :: "string \<Rightarrow> environ" where
  "env_def_of raw = (case env_line raw of None \<Rightarrow> [] | Some kv \<Rightarrow> if fst kv = [] then [] else [kv])"

lemma env_defs_lines: "env_defs content = concat (map env_def_of (split_lines content []))"
proof -
  have "filter (\<lambda>kv. fst kv \<noteq> []) (List.map_filter env_line ls) = concat (map env_def_of ls)" for ls
    by (induction ls) (auto simp: env_def_of_def List.map_filter_simps split: option.splits)
  then show ?thesis by (simp add: env_defs_def)
qed

definition set_var :: "bool \<Rightarrow> environ \<times> environ \<Rightarrow> string \<times> string \<Rightarrow> environ \<times> environ" where
  "set_var override st kv =
     (if override \<or> map_of (fst st) (fst kv) = None
      then (AList.update (fst kv) (snd kv) (fst st), AList.update (fst kv) (snd kv) (snd st)) else st)"

lemma load_defs: "foldl (load_line override) st ls = foldl (set_var override) st (concat (map env_def_of ls))"
proof (induction ls arbitrary: st)
  case (Cons raw ls)
  have "load_line override st raw = foldl (set_var override) st (env_def_of raw)"
    by (auto simp: load_line_def env_def_of_def set_var_def split: option.split prod.split)
  then show ?case by (simp add: Cons.IH)
qed simp

lemma peek_defs:
  "foldl (\<lambda>out raw. case env_line raw of None \<Rightarrow> out
       | Some (k, v) \<Rightarrow> if k = [] then out else AList.update k v out) out ls =
   foldl (\<lambda>out kv. AList.update (fst kv) (snd kv) out) out (concat (map env_def_of ls))"
proof (induction ls arbitrary: out)
  case (Cons raw ls)
  have "(case env_line raw of None \<Rightarrow> out | Some (k, v) \<Rightarrow> if k = [] then out else AList.update k v out) =
      foldl (\<lambda>out kv. AList.update (fst kv) (snd kv) out) out (env_def_of raw)"
    by (simp add: env_def_of_def split: option.split prod.split)
  then show ?case by (simp add: Cons.IH)
qed simp

lemma update_all: "map_of (foldl (\<lambda>out kv. AList.update (fst kv) (snd kv) out) out kvs) k =
    (case map_of (rev kvs) k of Some v \<Rightarrow> Some v | None \<Rightarrow> map_of out k)"
  by (induction kvs arbitrary: out) (auto simp: update_conv' map_add_def split: option.split)

lemma override_all:
  "foldl (set_var True) (e, l) kvs =
    (foldl (\<lambda>out kv. AList.update (fst kv) (snd kv) out) e kvs, foldl (\<lambda>out kv. AList.update (fst kv) (snd kv) out) l kvs)"
  by (induction kvs arbitrary: e l) (simp_all add: set_var_def)

lemma keep_all:
  "map_of (fst (foldl (set_var False) (e, l) kvs)) k = (case map_of e k of Some v \<Rightarrow> Some v | None \<Rightarrow> map_of kvs k) \<and>
   map_of (snd (foldl (set_var False) (e, l) kvs)) k =
     (if map_of e k = None then (case map_of kvs k of Some v \<Rightarrow> Some v | None \<Rightarrow> map_of l k) else map_of l k)"
proof (induction kvs arbitrary: e l)
  case (Cons kv kvs)
  show ?case
  proof (cases "map_of e (fst kv)")
    case None
    then have "set_var False (e, l) kv = (AList.update (fst kv) (snd kv) e, AList.update (fst kv) (snd kv) l)"
      by (simp add: set_var_def)
    then show ?thesis using None Cons.IH by (simp add: update_conv' split: option.split)
  next
    case (Some v)
    then have "set_var False (e, l) kv = (e, l)" by (simp add: set_var_def)
    then show ?thesis using Some Cons.IH by (auto split: option.split)
  qed
qed (simp split: option.split)

text \<open>The environment file in its two readings. Loading without \<open>override\<close> leaves every
  variable of the environment as it was and gives each other one the value of its first line, which
  is exactly what is reported as set; loading with \<open>override\<close> gives each variable of the file the value
  of its last line, and so does peeking, which therefore differs from loading where a key is repeated.\<close>

theorem env_file_readings:
  "map_of (fst (load_env (Some content) False environ)) k =
     (case map_of environ k of Some v \<Rightarrow> Some v | None \<Rightarrow> map_of (env_defs content) k) \<and>
   map_of (snd (load_env (Some content) False environ)) k = (if map_of environ k = None then map_of (env_defs content) k else None) \<and>
   map_of (snd (load_env (Some content) True environ)) k = map_of (rev (env_defs content)) k \<and>
   map_of (fst (load_env (Some content) True environ)) k =
     (case map_of (rev (env_defs content)) k of Some v \<Rightarrow> Some v | None \<Rightarrow> map_of environ k) \<and>
   map_of (peek_env (Some content)) k = map_of (rev (env_defs content)) k"
  by (simp add: load_env_def peek_env_def load_defs peek_defs override_all keep_all update_all env_defs_lines
      split: option.split)

end
