(* ===== verification/Orchestrator.thy ===== *)
theory Orchestrator
  imports Agent_Runner Alice_Agent Bob_Agent Resolve_Bond
begin

text \<open>
  The six-step demo of \<open>agents/orchestrator.py\<close>: the default constitution, the object that runs the steps
  over the seasoned agent and the trading agent, and the standalone step functions of the end-to-end
  script.

  A step that may raise after it changed an agent returns the orchestrator beside its result. What a
  step reads from outside (clocks, fresh keys, the randomness of its payments) is one record, \<open>tick\<close>.
  The client of the seasoned agent is the in-process test client of \<open>Agent_Runner\<close> over its server; the
  server works on the agent's own memory, so the two are kept equal. Durations are left out.
\<close>

subsection \<open>The default constitution\<close>

definition default_bob_rules :: "rule list" where
  "default_bob_rules =
     [[(''rule_id'', JStr ''MAX_LEV_2X''), (''kind'', JStr ''MAX_LEVERAGE''), (''max_leverage_bps'', JInt 20000)],
      [(''rule_id'', JStr ''MAX_TRADE_1USDC''), (''kind'', JStr ''MAX_TRADE_SIZE''), (''max_usdc'', JFloat 1)],
      [(''rule_id'', JStr ''VENUE_BLACKLIST_DEAD''), (''kind'', JStr ''VENUE_BLACKLIST''),
       (''venues'', JList [JStr ''0x000000000000000000000000000000000000dEaD''])]]"

definition DEFAULT_MARKET_STATE :: string where
  "DEFAULT_MARKET_STATE =
     ''ETH funding flipped negative, perp open interest jumped 40%, considering short on Hyperliquid''"

text \<open>Rules as dicts, or already as tuples of the contract.\<close>

definition hash_constitution :: "bob_env \<Rightarrow> rule list + abi_arg list \<Rightarrow> string res" where
  "hash_constitution be rules =
     (case rules of
        Inl ds \<Rightarrow>
          if ds \<noteq> [] then hash_of_rules be ds
          else map_sum id (\<lambda>e. ''0x'' @ to_hex (be_keccak be e)) (be_abi be [''(uint8,bytes,address)[]''] [AList []])
      | Inr ts \<Rightarrow> map_sum id (\<lambda>e. ''0x'' @ to_hex (be_keccak be e)) (be_abi be [''(uint8,bytes,address)[]''] [AList ts]))"

text \<open>\<open>float(v)\<close>.\<close>

fun finite_or_overflow :: "json \<Rightarrow> json res" where
  "finite_or_overflow JPosInf = Inl (OverflowError ''int too large to convert to float'')"
| "finite_or_overflow JNegInf = Inl (OverflowError ''int too large to convert to float'')"
| "finite_or_overflow v = Inr v"

fun py_float :: "json \<Rightarrow> json res" where
  "py_float (JInt n) = finite_or_overflow (double_of (of_int n))"
| "py_float (JBool b) = Inr (JFloat (if b then 1 else 0))"
| "py_float (JStr s) = float_of s"
| "py_float (JList vs) = Inl (TypeError ''float() argument must be a string or a real number'')"
| "py_float (JObj d) = Inl (TypeError ''float() argument must be a string or a real number'')"
| "py_float JNull = Inl (TypeError ''float() argument must be a string or a real number'')"
| "py_float v = Inr v"

fun max_trade_cap_usdc :: "rule list \<Rightarrow> json option res" where
  "max_trade_cap_usdc [] = Inr None"
| "max_trade_cap_usdc (r # rs) =
     (if dict_get r ''kind'' = JStr ''MAX_TRADE_SIZE''
      then map_sum id Some (py_float (dict_get_or r ''max_usdc'' (JFloat 0)))
      else max_trade_cap_usdc rs)"

text \<open>\<open>cap or 1.0\<close>, and the product of a double and five.\<close>

definition cap_or_one :: "json option \<Rightarrow> json" where
  "cap_or_one cap = (case cap of None \<Rightarrow> JFloat 1 | Some v \<Rightarrow> if truthy v then v else JFloat 1)"

fun times_five :: "json \<Rightarrow> json" where
  "times_five (JFloat x) = double_of (x * 5)"
| "times_five v = v"

subsection \<open>The orchestrator\<close>

record demo_env =
  de_alice :: alice_env
  de_bob :: bob_env
  de_server :: environment
  de_score_json :: "real \<Rightarrow> json"
  de_noise :: "int \<Rightarrow> nat \<Rightarrow> nat \<Rightarrow> vec"  \<comment> \<open>seed, dimension, draw\<close>

record tick =
  tk_alice_address :: string
  tk_corpus_clock :: "nat \<Rightarrow> real"
  tk_rules_clock :: "nat \<Rightarrow> real"
  tk_nonce_db :: disk
  tk_key :: "byte list"
  tk_pin_clock :: "nat \<Rightarrow> real"
  tk_query :: paying
  tk_decide :: paying
  tk_ts :: int
  tk_learn :: real
  tk_pad_clock :: "nat \<Rightarrow> real"
  tk_time :: real
  tk_child_key :: "byte list"
  tk_child_clock :: "nat \<Rightarrow> real"

record orchestrator =
  oc_alice :: alice
  oc_bob :: bob
  oc_market_state :: string
  oc_results :: json
  oc_intent :: "trade_intent option"
  oc_child :: "bob option"
  oc_files :: files

definition mk_orchestrator :: "alice \<Rightarrow> bob \<Rightarrow> string \<Rightarrow> files \<Rightarrow> orchestrator" where
  "mk_orchestrator a b market fs =
     \<lparr>oc_alice = a, oc_bob = b, oc_market_state = market, oc_results = JList [], oc_intent = None, oc_child = None,
      oc_files = fs\<rparr>"

type_synonym 'a step = "orchestrator \<Rightarrow> orchestrator \<times> 'a res"

definition and_then :: "'a step \<Rightarrow> ('a \<Rightarrow> 'b step) \<Rightarrow> 'b step" where
  "and_then f g oc = (case f oc of (oc', Inl e) \<Rightarrow> (oc', Inl e) | (oc', Inr x) \<Rightarrow> g x oc')"

definition ensure_alice :: "demo_env \<Rightarrow> tick \<Rightarrow> unit step" where
  "ensure_alice de tk oc =
     (if al_bootstrapped (oc_alice oc) then (oc, Inr ())
      else (case alice_bootstrap (de_alice de) (tk_alice_address tk) (tk_corpus_clock tk) (tk_rules_clock tk)
                   (tk_nonce_db tk) False (oc_alice oc) (oc_files oc) of
          (fs, a, r) \<Rightarrow> (oc\<lparr>oc_alice := a, oc_files := fs\<rparr>, r)))"

definition ensure_bob :: "demo_env \<Rightarrow> tick \<Rightarrow> unit step" where
  "ensure_bob de tk oc =
     (if bb_eoa (oc_bob oc) \<noteq> None then (oc, Inr ())
      else (case bootstrap (de_bob de) (tk_key tk) (tk_pin_clock tk) (oc_bob oc) of
          (b, r) \<Rightarrow> (oc\<lparr>oc_bob := b\<rparr>, r)))"

definition memory_count :: "memory option \<Rightarrow> int" where
  "memory_count m = (case m of None \<Rightarrow> 0 | Some x \<Rightarrow> memory_len x)"

subsection \<open>Step 1: both agents\<close>

record spawn_evidence =
  se_bob_eoa :: string
  se_bob_budget_usdc :: rat
  se_constitution_hash :: "string option"
  se_rule_kinds :: "json list"
  se_alice_address :: string
  se_alice_pinned_root :: string
  se_alice_entries :: int

definition spawn_evidence_of :: "demo_env \<Rightarrow> orchestrator \<Rightarrow> spawn_evidence res" where
  "spawn_evidence_of de oc =
     (let a = oc_alice oc; b = oc_bob oc in
      res_bind (bob_address b) (\<lambda>eoa.
      res_bind (res_map (\<lambda>r. dict_item r ''kind'') (bb_constitution_rules b)) (\<lambda>kinds.
      res_bind (alice_address a) (\<lambda>addr.
      res_bind (pinned_root (ae_sha256 (de_alice de)) (ae_float_repr (de_alice de)) a) (\<lambda>root_bytes.
        Inr \<lparr>se_bob_eoa = eoa, se_bob_budget_usdc = bb_budget_usdc b, se_constitution_hash = bb_constitution_hash b,
             se_rule_kinds = kinds, se_alice_address = addr, se_alice_pinned_root = ''0x'' @ to_hex root_bytes,
             se_alice_entries = memory_count (al_memory a)\<rparr>)))))"

definition step1_spawn_bob :: "demo_env \<Rightarrow> tick \<Rightarrow> spawn_evidence step" where
  "step1_spawn_bob de tk =
     and_then (ensure_alice de tk) (\<lambda>_. and_then (ensure_bob de tk) (\<lambda>_ oc. (oc, spawn_evidence_of de oc)))"

subsection \<open>Step 2: the paid query\<close>

definition put_server :: "dark_pool \<Rightarrow> alice \<Rightarrow> alice" where
  "put_server dp a = a\<lparr>al_server := Some dp, al_memory := Some (dp_memory dp)\<rparr>"

definition demo_policy :: "alice \<Rightarrow> policy" where
  "demo_policy a =
     \<lparr>pl_chain_id = al_chain_id a, pl_asset_address = al_usdc_address a, pl_expected_price_usdc = al_price_usdc a,
      pl_network = DEFAULT_NETWORK, pl_expected_recipient = al_payment_recipient a\<rparr>"

definition nonce_count :: "nonce_store \<Rightarrow> int" where
  "nonce_count st = (case st of InMemoryNonceStore rows \<Rightarrow> int (length rows) | SqliteNonceStore db \<Rightarrow> int (length (nonces db)))"

record query_evidence =
  qe_query_text :: string
  qe_result_count :: int
  qe_top_trace_id :: json
  qe_top_score :: json
  qe_top_text :: json
  qe_payments_recorded :: int
  qe_alice_recipient :: "string option"
  qe_price_units :: int

definition query_evidence_of :: "string \<Rightarrow> alice \<Rightarrow> dark_pool \<Rightarrow> int \<Rightarrow> json \<Rightarrow> query_evidence res" where
  "query_evidence_of market a dp payments results =
     res_bind (if truthy results then json_index results 0 else Inr JNull) (\<lambda>top.
     res_bind (json_len results) (\<lambda>n.
     res_bind (as_dict (py_or top (JObj []))) (\<lambda>hit.
     res_bind (as_dict (py_or (dict_get hit ''payload'') (JObj []))) (\<lambda>payload.
       Inr \<lparr>qe_query_text = market, qe_result_count = int n, qe_top_trace_id = dict_get hit ''trace_id'',
            qe_top_score = dict_get hit ''score'', qe_top_text = dict_get payload ''text'',
            qe_payments_recorded = payments, qe_alice_recipient = al_payment_recipient a,
            qe_price_units = pc_price_units (dp_config dp)\<rparr>))))"

text \<open>The results become the orchestrator's before the evidence is put together.\<close>

definition ask_alice :: "demo_env \<Rightarrow> tick \<Rightarrow> query_evidence step" where
  "ask_alice de tk oc =
     (case al_server (oc_alice oc) of
        None \<Rightarrow> (oc, Inl (AttributeError ''NoneType object has no attribute _nonce_store''))
      | Some dp \<Rightarrow>
          (let a = oc_alice oc; py = tk_query tk;
               ((dp', _), r) = query_alice (de_bob de) (test_client (de_score_json de) (de_server de)) (demo_policy a)
                 (py_now py) (py_token py) '''' (oc_market_state oc) 5 (oc_bob oc) (dp, [py_first py, py_second py]);
               oc1 = oc\<lparr>oc_alice := put_server dp' a\<rparr>
           in case r of
                Inl e \<Rightarrow> (oc1, Inl e)
              | Inr results \<Rightarrow>
                  (oc1\<lparr>oc_results := results\<rparr>,
                   query_evidence_of (oc_market_state oc) (oc_alice oc1) dp'
                     (nonce_count (dp_nonce_store dp') - nonce_count (dp_nonce_store dp)) results)))"

definition step2_query_alice :: "demo_env \<Rightarrow> tick \<Rightarrow> query_evidence step" where
  "step2_query_alice de tk =
     and_then (ensure_alice de tk) (\<lambda>_. and_then (ensure_bob de tk) (\<lambda>_. ask_alice de tk))"

definition ensure_results :: "demo_env \<Rightarrow> tick \<Rightarrow> unit step" where
  "ensure_results de tk oc =
     (if truthy (oc_results oc) then (oc, Inr ()) else and_then (step2_query_alice de tk) (\<lambda>_ oc. (oc, Inr ())) oc)"

subsection \<open>Step 3: the lesson\<close>

record lesson_evidence =
  le_trace_id :: json
  le_text :: json
  le_parsed :: dict
  le_entries_before :: int
  le_entries_after :: int
  le_pinned :: "string list"

definition top_lesson :: "json \<Rightarrow> (json \<times> json \<times> dict) res" where
  "top_lesson results =
     (if \<not> truthy results then Inl (RuntimeError ''dark pool returned no results - cannot record'')
      else res_bind (json_index results 0) (\<lambda>top.
           res_bind (as_dict top) (\<lambda>hit.
           res_bind (as_dict (py_or (dict_get hit ''payload'') (JObj []))) (\<lambda>payload.
             let text = dict_get_or payload ''text'' (JStr [])
             in res_bind (parse_trace_text text) (\<lambda>parsed. Inr (dict_get hit ''trace_id'', text, parsed))))))"

definition record_lesson :: "demo_env \<Rightarrow> tick \<Rightarrow> lesson_evidence step" where
  "record_lesson de tk oc =
     (case top_lesson (oc_results oc) of
        Inl e \<Rightarrow> (oc, Inl e)
      | Inr (tid, text, parsed) \<Rightarrow>
          (case remember_trace (de_bob de) (oc_bob oc) tid text parsed (tk_ts tk) (tk_learn tk) of
             Inl e \<Rightarrow> (oc, Inl e)
           | Inr b \<Rightarrow>
               (oc\<lparr>oc_bob := b\<rparr>,
                Inr \<lparr>le_trace_id = tid, le_text = text, le_parsed = parsed,
                     le_entries_before = memory_count (bb_memory (oc_bob oc)), le_entries_after = memory_count (bb_memory b),
                     le_pinned = (case bb_memory b of None \<Rightarrow> [] | Some m \<Rightarrow> if memory_len m = 0 then [] else pinned_ids m)\<rparr>)))"

definition step3_record_lesson :: "demo_env \<Rightarrow> tick \<Rightarrow> lesson_evidence step" where
  "step3_record_lesson de tk = and_then (ensure_results de tk) (\<lambda>_. record_lesson de tk)"


subsection \<open>Step 4: the violating intent\<close>

record intent_evidence =
  ie_kind :: string
  ie_target :: string
  ie_value :: int
  ie_inner_selector :: string
  ie_inner_calldata_hex :: string
  ie_execute_calldata_hex :: string
  ie_expected_revert_reason :: string
  ie_trade_size_usdc :: json
  ie_cap_usdc :: json
  ie_notes :: string

definition EXPECTED_REVERT :: string where
  "EXPECTED_REVERT = ''ConstitutionViolation:MAX_TRADE_SIZE''"

definition intent_evidence_of :: "trade_intent \<Rightarrow> json \<Rightarrow> intent_evidence" where
  "intent_evidence_of ti cap =
     \<lparr>ie_kind = ti_kind ti, ie_target = ti_target ti, ie_value = ti_value ti, ie_inner_selector = selector_hex ti,
      ie_inner_calldata_hex = calldata_hex ti, ie_execute_calldata_hex = execute_calldata_hex ti,
      ie_expected_revert_reason = EXPECTED_REVERT, ie_trade_size_usdc = times_five cap, ie_cap_usdc = cap,
      ie_notes = ti_notes ti\<rparr>"

definition decide_oversized :: "demo_env \<Rightarrow> tick \<Rightarrow> json \<Rightarrow> intent_evidence step" where
  "decide_oversized de tk cap oc =
     (case al_server (oc_alice oc) of
        None \<Rightarrow> (oc, Inl (LibraryError ''httpx.UnsupportedProtocol''))
      | Some dp \<Rightarrow>
          (let a = oc_alice oc; py = tk_decide tk;
               ((dp', _), b, r) = decide (de_bob de) (test_client (de_score_json de) (de_server de)) (demo_policy a)
                 (py_now py) (py_token py) '''' (oc_market_state oc) 5 (Some (times_five cap)) (tk_ts tk) (tk_learn tk)
                 (oc_bob oc) (dp, [py_first py, py_second py]);
               oc1 = oc\<lparr>oc_alice := put_server dp' a, oc_bob := b\<rparr>
           in case r of
                Inl e \<Rightarrow> (oc1, Inl e)
              | Inr ti \<Rightarrow> (oc1\<lparr>oc_intent := Some ti\<rparr>, Inr (intent_evidence_of ti cap))))"

definition step4_attempt_violating_trade :: "demo_env \<Rightarrow> tick \<Rightarrow> intent_evidence step" where
  "step4_attempt_violating_trade de tk =
     and_then (ensure_alice de tk) (\<lambda>_. and_then (ensure_bob de tk) (\<lambda>_. and_then (ensure_results de tk) (\<lambda>_ oc.
       case max_trade_cap_usdc (bb_constitution_rules (oc_bob oc)) of
         Inl e \<Rightarrow> (oc, Inl e)
       | Inr cap \<Rightarrow> decide_oversized de tk (cap_or_one cap) oc)))"

subsection \<open>Step 5: the decay\<close>

record decay_evidence =
  dy_entries_before :: int
  dy_entries_after :: int
  dy_evicted :: int
  dy_pinned_before :: "string list"
  dy_pinned_after :: "string list"
  dy_root_before :: "byte list"
  dy_root_after :: "byte list"

definition ADVANCE_SECONDS :: real where
  "ADVANCE_SECONDS = 30 * 86400"

definition padding_id :: "nat \<Rightarrow> string" where
  "padding_id i = ''working:padding_'' @ replicate (3 - length (nat_str i)) CHR ''0'' @ nat_str i"

fun add_padding :: "(nat \<Rightarrow> vec) \<Rightarrow> (nat \<Rightarrow> real) \<Rightarrow> nat list \<Rightarrow> memory \<Rightarrow> memory \<times> unit res" where
  "add_padding noise now [] m = (m, Inr ())"
| "add_padding noise now (i # is) m =
     (case add m (padding_id i) (noise i) ''working'' False (Some [(''i'', JInt (int i))]) (now i) of
        Inl e \<Rightarrow> (m, Inl e)
      | Inr m' \<Rightarrow> add_padding noise now is m')"

definition decay_check :: "(byte list \<Rightarrow> byte list) \<Rightarrow> (rat \<Rightarrow> string) \<Rightarrow> real \<Rightarrow> memory \<Rightarrow> memory \<times> decay_evidence" where
  "decay_check H fr now m =
     (let m' = decay_step m now
      in (m', \<lparr>dy_entries_before = memory_len m, dy_entries_after = memory_len m',
               dy_evicted = max 0 (memory_len m - memory_len m'), dy_pinned_before = pinned_ids m,
               dy_pinned_after = pinned_ids m', dy_root_before = pinned_merkle_root H fr m,
               dy_root_after = pinned_merkle_root H fr m'\<rparr>))"

definition decay_ok :: "decay_evidence \<Rightarrow> bool" where
  "decay_ok ev \<longleftrightarrow> dy_root_before ev = dy_root_after ev \<and> dy_pinned_before ev = dy_pinned_after ev"

definition put_bob_memory :: "memory \<Rightarrow> orchestrator \<Rightarrow> orchestrator" where
  "put_bob_memory m oc = oc\<lparr>oc_bob := (oc_bob oc)\<lparr>bb_memory := Some m\<rparr>\<rparr>"

definition decay_bob :: "demo_env \<Rightarrow> tick \<Rightarrow> decay_evidence step" where
  "decay_bob de tk oc =
     (case bb_memory (oc_bob oc) of
        None \<Rightarrow> (oc, Inl (RuntimeError ''Bob has no memory after bootstrap - fatal''))
      | Some m \<Rightarrow>
          (case add_padding (de_noise de (bb_seed (oc_bob oc)) (ms_dim m)) (tk_pad_clock tk) [0..<20] m of
             (m1, Inl e) \<Rightarrow> (put_bob_memory m1 oc, Inl e)
           | (m1, Inr _) \<Rightarrow>
               (let (m2, ev) = decay_check (be_sha256 (de_bob de)) (be_float_repr (de_bob de)) (tk_time tk + ADVANCE_SECONDS) m1
                in (put_bob_memory m2 oc, Inr ev))))"

definition step5_decay_memory :: "demo_env \<Rightarrow> tick \<Rightarrow> decay_evidence step" where
  "step5_decay_memory de tk =
     and_then (\<lambda>oc. if bb_memory (oc_bob oc) \<noteq> None then (oc, Inr ())
                    else (case bootstrap (de_bob de) (tk_key tk) (tk_pin_clock tk) (oc_bob oc) of
                        (b, r) \<Rightarrow> (oc\<lparr>oc_bob := b\<rparr>, r)))
       (\<lambda>_. decay_bob de tk)"

subsection \<open>Step 6: the child\<close>

record child_evidence =
  ce_parent_eoa :: string
  ce_child_eoa :: string
  ce_parent_budget_usdc :: rat
  ce_child_budget_usdc :: rat
  ce_parent_hash :: "string option"
  ce_child_hash :: "string option"
  ce_inherited :: bool

definition child_evidence_of :: "bob \<Rightarrow> bob \<Rightarrow> child_evidence res" where
  "child_evidence_of b child =
     res_bind (bob_address b) (\<lambda>parent_eoa.
     res_bind (bob_address child) (\<lambda>child_eoa.
       Inr \<lparr>ce_parent_eoa = parent_eoa, ce_child_eoa = child_eoa, ce_parent_budget_usdc = bb_budget_usdc b,
            ce_child_budget_usdc = bb_budget_usdc child, ce_parent_hash = bb_constitution_hash b,
            ce_child_hash = bb_constitution_hash child,
            ce_inherited = (bb_constitution_hash child = bb_constitution_hash b)\<rparr>))"

definition spawn_half :: "demo_env \<Rightarrow> tick \<Rightarrow> child_evidence step" where
  "spawn_half de tk oc =
     (let b = oc_bob oc
      in case spawn_child (de_bob de) (tk_child_key tk) (tk_child_clock tk) (tk_child_clock tk) b
                (Some (bb_budget_usdc b / 2)) [] None of
           Inl e \<Rightarrow> (oc, Inl e)
         | Inr child \<Rightarrow> (oc\<lparr>oc_child := Some child\<rparr>, child_evidence_of b child))"

definition step6_spawn_child :: "demo_env \<Rightarrow> tick \<Rightarrow> child_evidence step" where
  "step6_spawn_child de tk = and_then (ensure_bob de tk) (\<lambda>_. spawn_half de tk)"

subsection \<open>One step of the demo\<close>

datatype step_outcome =
    Spawned spawn_evidence
  | Queried query_evidence
  | Recorded lesson_evidence
  | Attempted intent_evidence
  | Decayed decay_evidence
  | Child child_evidence
  | Failed exn

record step_report =
  sr_step :: int
  sr_name :: string
  sr_ok :: bool
  sr_evidence :: step_outcome
  sr_next_step_hint :: string

text \<open>The arrow and the dash of the source's texts, in UTF-8.\<close>

definition ARROW :: string where "ARROW = [CHR 0xE2, CHR 0x86, CHR 0x92]"
definition DASH :: string where "DASH = [CHR 0xE2, CHR 0x80, CHR 0x94]"

definition STEP_NAMES :: "(int \<times> string) list" where
  "STEP_NAMES =
     [(1, ''Spawn Bob (EOA + constitution)''),
      (2, ''Bob queries Alice'' @ [CHR 0x27] @ ''s dark pool (x402)''),
      (3, ''Bob writes the new lesson to his own memory''),
      (4, ''Bob attempts a constitution-violating trade (intent ready)''),
      (5, ''Bob'' @ [CHR 0x27] @ ''s memory decays; pinned constitution rules survive''),
      (6, ''Bob spawns a child agent with inherited constitution'')]"

definition NEXT_HINTS :: "(int \<times> string) list" where
  "NEXT_HINTS =
     [(1, ''step 2: pay 0.001 USDC, query Alice for the top reasoning trace''),
      (2, ''step 3: record the trace as a new working-memory lesson''),
      (3, ''step 4: prepare a trade that violates MAX_TRADE_SIZE '' @ ARROW @ '' expect revert''),
      (4, ''step 5: decay working memory; pinned constitution rules must survive''),
      (5, ''step 6: spawn a child agent with half-budget + same constitution''),
      (6, ''demo complete '' @ DASH @ '' Slice 5D broadcasts the step-4 intent on Arc'')]"

definition text_at :: "(int \<times> string) list \<Rightarrow> int \<Rightarrow> string" where
  "text_at xs n = (case map_of xs n of None \<Rightarrow> [] | Some s \<Rightarrow> s)"

definition STEP4_HINT :: string where
  "STEP4_HINT =
     ''Slice 5D: submit execute_calldata_hex to ConstitutionHook.validateUserOp; expect ConstitutionViolation:MAX_TRADE_SIZE revert''"

definition report :: "int \<Rightarrow> (orchestrator \<times> 'a res) \<Rightarrow> ('a \<Rightarrow> step_outcome) \<Rightarrow> ('a \<Rightarrow> bool) \<Rightarrow> string \<Rightarrow> orchestrator \<times> step_report" where
  "report n out wrap ok hint =
     (case out of
        (oc, Inl e) \<Rightarrow>
          (oc, \<lparr>sr_step = n, sr_name = text_at STEP_NAMES n, sr_ok = False, sr_evidence = Failed e,
                sr_next_step_hint = ''infrastructure failure '' @ DASH @ '' inspect error''\<rparr>)
      | (oc, Inr x) \<Rightarrow>
          (oc, \<lparr>sr_step = n, sr_name = text_at STEP_NAMES n, sr_ok = ok x, sr_evidence = wrap x, sr_next_step_hint = hint\<rparr>))"

definition run_demo_step :: "demo_env \<Rightarrow> tick \<Rightarrow> int \<Rightarrow> orchestrator \<Rightarrow> orchestrator \<times> step_report res" where
  "run_demo_step de tk n oc =
     (let hint = text_at NEXT_HINTS n in
      if n = 1 then map_prod id Inr (report n (step1_spawn_bob de tk oc) Spawned (\<lambda>_. True) hint)
      else if n = 2 then map_prod id Inr (report n (step2_query_alice de tk oc) Queried (\<lambda>_. True) hint)
      else if n = 3 then map_prod id Inr (report n (step3_record_lesson de tk oc) Recorded (\<lambda>_. True) hint)
      else if n = 4 then map_prod id Inr (report n (step4_attempt_violating_trade de tk oc) Attempted (\<lambda>_. True) STEP4_HINT)
      else if n = 5 then map_prod id Inr (report n (step5_decay_memory de tk oc) Decayed decay_ok hint)
      else if n = 6 then map_prod id Inr (report n (step6_spawn_child de tk oc) Child (\<lambda>_. True) hint)
      else (oc, Inl (ValueError ''step_no must be 1..6'')))"


subsection \<open>The standalone steps\<close>

record bob_report =
  br_eoa :: string
  br_budget_usdc :: rat
  br_constitution_hash :: "string option"
  br_rule_kinds :: "json list"

definition step_spawn_bob ::
  "bob_env \<Rightarrow> byte list \<Rightarrow> (nat \<Rightarrow> real) \<Rightarrow> rat \<Rightarrow> rule list option \<Rightarrow> bob \<times> bob_report res" where
  "step_spawn_bob be key now budget_usdc rules =
     (let rs = (case rules of None \<Rightarrow> default_bob_rules | Some l \<Rightarrow> if l = [] then default_bob_rules else l);
          (b, r) = bootstrap be key now (mk_bob budget_usdc rs (Some DEFAULT_EMBED_MODEL) EMBEDDER_DIM 7)
      in (b, res_bind r (\<lambda>_. res_bind (bob_address b) (\<lambda>eoa.
               res_bind (res_map (\<lambda>x. dict_item x ''kind'') rs) (\<lambda>kinds.
                 Inr \<lparr>br_eoa = eoa, br_budget_usdc = budget_usdc, br_constitution_hash = bb_constitution_hash b,
                      br_rule_kinds = kinds\<rparr>)))))"

definition BOB_PRICE_USDC :: rat where "BOB_PRICE_USDC = 1 / 1000"

definition step_query_alice ::
  "bob_env \<Rightarrow> 'w transport \<Rightarrow> int \<Rightarrow> byte list \<Rightarrow> bob \<Rightarrow> string \<Rightarrow> string \<Rightarrow> int \<Rightarrow> string \<Rightarrow> 'w \<Rightarrow>
   'w \<times> (json \<times> int \<times> json) res" where
  "step_query_alice be post xnow token b alice_url prompt chain asset w =
     (let (w', r) = query_alice be post
            \<lparr>pl_chain_id = chain, pl_asset_address = asset, pl_expected_price_usdc = BOB_PRICE_USDC,
             pl_network = DEFAULT_NETWORK, pl_expected_recipient = None\<rparr> xnow token alice_url prompt 5 b w
      in (w', res_bind r (\<lambda>results.
            res_bind (json_len results) (\<lambda>n.
            res_bind (if truthy results then res_bind (json_index results 0) as_dict else Inr []) (\<lambda>top.
              Inr (results, int n, dict_get top ''trace_id''))))))"

definition OVERSIZED :: "string list" where
  "OVERSIZED = [''size 50'', ''size 100'', ''size 250'', ''size 500'', ''size 1000'']"

definition payload_text :: "json \<Rightarrow> json res" where
  "payload_text r =
     res_bind (as_dict r) (\<lambda>d. res_bind (as_dict (py_or (dict_get d ''payload'') (JObj []))) (\<lambda>p. Inr (dict_get p ''text'')))"

fun any_in :: "string list \<Rightarrow> json \<Rightarrow> bool res" where
  "any_in [] v = Inr False"
| "any_in (s # ss) v = res_bind (py_in s v) (\<lambda>hit. if hit then Inr True else any_in ss v)"

fun first_oversized :: "json list \<Rightarrow> json option res" where
  "first_oversized [] = Inr None"
| "first_oversized (r # rs) =
     res_bind (payload_text r) (\<lambda>text.
     res_bind (any_in OVERSIZED (py_or text (JStr []))) (\<lambda>hit. if hit then Inr (Some r) else first_oversized rs))"

record selection =
  sl_selected :: json
  sl_score :: json
  sl_text :: json
  sl_oversized :: bool  \<comment> \<open>which of the two interpretations\<close>

definition step_select_violating_trace :: "json list \<Rightarrow> (json option \<times> selection) res" where
  "step_select_violating_trace results =
     res_bind (first_oversized results) (\<lambda>found.
       let chosen = (case found of Some r \<Rightarrow> Some r | None \<Rightarrow> (case results of [] \<Rightarrow> None | r # _ \<Rightarrow> Some r))
       in res_bind (case chosen of Some r \<Rightarrow> as_dict r | None \<Rightarrow> Inr []) (\<lambda>d.
          res_bind (payload_text (JObj d)) (\<lambda>text.
            Inr (chosen, \<lparr>sl_selected = dict_get d ''trace_id'', sl_score = dict_get d ''score'', sl_text = text,
                          sl_oversized = (found \<noteq> None)\<rparr>))))"

record attempt_report =
  at_oversize_usdc :: json
  at_amount_units :: int
  at_execute_hex :: string
  at_revert :: Chain.evidence

definition step_attempt_violating_trade ::
  "bob_env \<Rightarrow> 'w net \<Rightarrow> key_tools \<Rightarrow> abi_tools \<Rightarrow> bob \<Rightarrow> string \<Rightarrow> string \<Rightarrow> string \<Rightarrow> string option \<Rightarrow> json \<Rightarrow> 'w \<Rightarrow>
   'w \<times> (bool \<times> attempt_report) res" where
  "step_attempt_violating_trade be nt kt ab b rpc_url hook_address deployer_pk sca_address oversize_usdc w =
     (case res_bind (case sca_address of
                       Some s \<Rightarrow> if s \<noteq> [] then Inr s else bob_address b
                     | None \<Rightarrow> bob_address b) (\<lambda>sca.
           res_bind (usdc_to_units be oversize_usdc) (\<lambda>amount_units.
           res_bind (build_erc20_transfer_calldata be COUNTERPARTY amount_units) (\<lambda>inner.
           res_bind (build_execute_calldata be USDC_ON_ARC 0 inner) (\<lambda>outer.
             Inr (sca, amount_units, ''0x'' @ to_hex outer))))) of
        Inl e \<Rightarrow> (w, Inl e)
      | Inr (sca, amount_units, outer_hex) \<Rightarrow>
          (let (w', r) = call_validate_user_op_expect_revert nt kt ab rpc_url hook_address sca outer_hex deployer_pk w
           in (w', map_sum id (\<lambda>(seen, ev). (seen, \<lparr>at_oversize_usdc = oversize_usdc, at_amount_units = amount_units,
                                                 at_execute_hex = outer_hex, at_revert = ev\<rparr>)) r)))"

text \<open>The saved memory, loaded, decayed and compared; nothing is written back.\<close>

definition step_decay_check_pinned ::
  "(byte list \<Rightarrow> byte list) \<Rightarrow> (rat \<Rightarrow> string) \<Rightarrow> (nat \<Rightarrow> int \<Rightarrow> vec list) \<Rightarrow> mem_file \<Rightarrow> real \<Rightarrow> real \<Rightarrow>
   (bool \<times> byte list \<times> byte list \<times> int \<times> int) res" where
  "step_decay_check_pinned H fr build_rotation file now advance_seconds =
     res_bind (load build_rotation file) (\<lambda>m.
       let m' = decay_step m (now + advance_seconds);
           before = pinned_merkle_root H fr m; after = pinned_merkle_root H fr m'
       in Inr (before = after, before, after, memory_len m, memory_len m'))"

definition step_spawn_child_and_resolve_bond ::
  "bob_env \<Rightarrow> byte list \<Rightarrow> (nat \<Rightarrow> real) \<Rightarrow> bob \<Rightarrow> rat \<Rightarrow> (bob \<times> string \<times> string \<times> rat \<times> string option) res" where
  "step_spawn_child_and_resolve_bond be key now b child_budget_usdc =
     res_bind (spawn_child be key now now b (Some child_budget_usdc) [] None) (\<lambda>child.
     res_bind (bob_address b) (\<lambda>parent_eoa.
     res_bind (bob_address child) (\<lambda>child_eoa.
       Inr (child, parent_eoa, child_eoa, child_budget_usdc, bb_constitution_hash child))))"

end
