(* ===== verification/Demo_Properties.thy ===== *)
theory Demo_Properties
  imports Orchestrator Alice_Properties Pool_Example
begin

text \<open>
  What the demo promises: whatever steps are run, in whatever order and with whatever outcome, the
  trading agent's constitution stays, children carry it, and the decay evicts the padding and only
  that which may go.
\<close>

subsection \<open>Agents that stand\<close>

definition sound :: "bob \<Rightarrow> bool" where
  "sound b \<longleftrightarrow> bb_eoa b \<noteq> None \<and> (\<exists>m. bb_memory b = Some m \<and> memory_wf m \<and> pinned_prefix m \<and> rates_ok m)"

text \<open>The memory may grow and decay; its pinned part and its frame, and the rest of the agent, stay.\<close>

definition stands :: "bob \<Rightarrow> bob \<Rightarrow> bool" where
  "stands b b' \<longleftrightarrow>
     (\<exists>m m'. bb_memory b = Some m \<and> b' = b\<lparr>bb_memory := Some m'\<rparr> \<and> memory_wf m' \<and> pinned_view m' = pinned_view m \<and>
        ms_decay_lambdas m' = ms_decay_lambdas m \<and> ms_dim m' = ms_dim m \<and> ms_seed m' = ms_seed m)"

lemma stands_refl: "sound b \<Longrightarrow> stands b b"
  by (cases b) (auto simp: sound_def stands_def)

lemma stands_put:
  "stands b (b\<lparr>bb_memory := Some m'\<rparr>) \<longleftrightarrow>
     (\<exists>m. bb_memory b = Some m \<and> memory_wf m' \<and> pinned_view m' = pinned_view m \<and>
        ms_decay_lambdas m' = ms_decay_lambdas m \<and> ms_dim m' = ms_dim m \<and> ms_seed m' = ms_seed m)"
  by (cases b) (auto simp: stands_def)

lemma stands_trans: "stands a b \<Longrightarrow> stands b c \<Longrightarrow> stands a c"
  by (fastforce simp: stands_def)

lemma stands_sound: "stands b b' \<Longrightarrow> sound b \<Longrightarrow> sound b'"
  by (auto simp: stands_def sound_def pinned_prefix_def rates_ok_def)

lemma add_stands:
  assumes "bb_memory b = Some m" and "sound b" and "add m t v kind False p now = Inr m'"
    and "kind \<noteq> ''pinned''" and "\<not> startswith t ''pinned:''"
  shows "stands b (b\<lparr>bb_memory := Some m'\<rparr>)"
proof -
  have m: "memory_wf m" "pinned_prefix m" using assms(1,2) by (auto simp: sound_def)
  have "pinned_view m t = None" using m(2) assms(5) unfolding pinned_prefix_def by blast
  then have "pinned_view m' = pinned_view m" using add_view [OF assms(3)] assms(4) by auto
  moreover have "ms_decay_lambdas m' = ms_decay_lambdas m" "ms_dim m' = ms_dim m" "ms_seed m' = ms_seed m"
    using assms(3) by (auto simp: add_eq split: if_splits)
  ultimately show ?thesis using add_wf [OF m(1) assms(3)] assms(1) by (auto simp: stands_def)
qed

lemma remember_stands:
  assumes "remember_trace be b trace_id content parsed ts now = Inr b'" and "sound b"
  shows "stands b b'"
  using remember_trace_Inr [OF assms(1)] add_stands [OF _ assms(2)] stands_refl [OF assms(2)] learned_not_pinned by fastforce

lemma mimic_stands: "sound b \<Longrightarrow> stands b (fst (mimic be b results tsize ts now))"
  by (auto simp: mimic_def stands_refl Let_def split: sum.splits prod.splits dest: remember_stands)

lemma decide_stands:
  "decide be post pl xnow token url market k tsize ts now b w = (w', b', r) \<Longrightarrow> sound b \<Longrightarrow> stands b b'"
  using mimic_stands [of b be]
  by (auto simp: decide_def stands_refl split: if_splits prod.splits sum.splits) (metis fst_conv)

lemma padding_not_pinned: "\<not> startswith (padding_id i) ''pinned:''"
  by (simp add: padding_id_def startswith_def)

lemma padding_stands:
  "add_padding noise now is m = (m', r) \<Longrightarrow> bb_memory b = Some m \<Longrightarrow> sound b \<Longrightarrow> stands b (b\<lparr>bb_memory := Some m'\<rparr>)"
proof (induction "is" arbitrary: m b)
  case Nil
  then show ?case using stands_refl by (cases b) auto
next
  case (Cons i js)
  show ?case
  proof (cases "add m (padding_id i) (noise i) ''working'' False (Some [(''i'', JInt (int i))]) (now i)")
    case (Inl e)
    then show ?thesis using Cons.prems stands_refl by (cases b) auto
  next
    case (Inr m1)
    have one: "stands b (b\<lparr>bb_memory := Some m1\<rparr>)"
      using add_stands [OF Cons.prems(2,3) Inr] padding_not_pinned by simp
    have "stands (b\<lparr>bb_memory := Some m1\<rparr>) ((b\<lparr>bb_memory := Some m1\<rparr>)\<lparr>bb_memory := Some m'\<rparr>)"
      using Cons.prems Inr stands_sound [OF one] by (intro Cons.IH) auto
    from stands_trans [OF one this] show ?thesis by simp
  qed
qed

lemma decay_stands:
  assumes "bb_memory b = Some m" and "sound b"
  shows "stands b (b\<lparr>bb_memory := Some (decay_step m now)\<rparr>)"
proof -
  have "memory_wf m" "rates_ok m" using assms by (auto simp: sound_def)
  then show ?thesis
    using assms(1) decay_step_wf decay_view [OF memory_wfD(1)] by (auto simp: stands_def)
qed

subsection \<open>Children\<close>

text \<open>A child with its parent's constitution and half its budget.\<close>

definition child_of :: "bob \<Rightarrow> bob \<Rightarrow> bool" where
  "child_of b child \<longleftrightarrow>
     bb_constitution_rules child = bb_constitution_rules b \<and> bb_constitution_hash child = bb_constitution_hash b \<and>
     bb_budget_usdc child = bb_budget_usdc b / 2 \<and>
     (\<exists>m mc. bb_memory b = Some m \<and> bb_memory child = Some mc \<and> memory_wf mc \<and> pinned_view mc = pinned_view m)"

lemma child_of_stands: "child_of b child \<Longrightarrow> stands b b' \<Longrightarrow> child_of b' child"
  by (auto simp: child_of_def stands_def)

lemma bootstrap_hash:
  assumes "bootstrap be key now b = (b', Inr ())" and "bb_eoa b = None"
  shows "\<exists>h. bb_constitution_hash b' = Some h \<and> hash_of_rules be (bb_constitution_rules b) = Inr h"
  using assms by (auto simp: bootstrap_def Let_def split: sum.splits prod.splits)

lemma spawned_child:
  assumes "spawn_child be key now now' b (Some (bb_budget_usdc b / 2)) [] None = Inr child" and "sound b"
    and "bb_constitution_hash b = Some h" and "hash_of_rules be (bb_constitution_rules b) = Inr h"
    and "\<forall>d s. length (be_rotation be d s) = d"
  shows "child_of b child"
proof -
  obtain m where m: "bb_memory b = Some m" "memory_wf m" using assms(2) by (auto simp: sound_def)
  from spawn_child_Inr [OF assms(1) m] have c: "bb_budget_usdc child = bb_budget_usdc b / 2"
    "bb_constitution_rules child = bb_constitution_rules b"
    "bb_memory child = Some (clone_of (be_rotation be) m DEFAULT_CHILD_WORKING_CAP)"
    by auto
  let ?child = "mk_bob (bb_budget_usdc b / 2) (bb_constitution_rules b @ []) (bb_embedding_model b)
    (bb_embedding_dim b) (bb_seed b)"
  obtain child' r where boot: "bootstrap be key now ?child = (child', r)" by fastforce
  have "r = Inr () \<and> bb_constitution_hash child = bb_constitution_hash child'"
    using assms(1) boot by (auto simp: spawn_child_def Let_def res_bind_eq_Inr split: if_splits)
  moreover from this bootstrap_hash [of be key now ?child child'] boot assms(4)
  have "bb_constitution_hash child' = Some h" by (auto simp: mk_bob_def)
  ultimately show ?thesis
    using c m assms(3,5) clone_wf [OF m(2)] clone_view [OF m(2)] by (auto simp: child_of_def)
qed


subsection \<open>Steps and runs\<close>

text \<open>What a step may do: the trading agent stands, and the last child stays or is one of its children.\<close>

definition good_step :: "orchestrator \<Rightarrow> orchestrator \<Rightarrow> bool" where
  "good_step oc oc' \<longleftrightarrow>
     stands (oc_bob oc) (oc_bob oc') \<and>
     (oc_child oc' = oc_child oc \<or> (\<exists>child. oc_child oc' = Some child \<and> child_of (oc_bob oc') child))"

lemma good_step_refl: "sound (oc_bob oc) \<Longrightarrow> good_step oc oc"
  by (simp add: good_step_def stands_refl)

lemma good_step_same:
  "sound (oc_bob oc) \<Longrightarrow> oc_bob oc' = oc_bob oc \<Longrightarrow> oc_child oc' = oc_child oc \<Longrightarrow> good_step oc oc'"
  by (simp add: good_step_def stands_refl)

lemma good_step_trans: "good_step a b \<Longrightarrow> good_step b c \<Longrightarrow> good_step a c"
  unfolding good_step_def using stands_trans child_of_stands by metis

lemma good_step_sound: "good_step oc oc' \<Longrightarrow> sound (oc_bob oc) \<Longrightarrow> sound (oc_bob oc')"
  using stands_sound by (auto simp: good_step_def)

lemma and_then_good:
  assumes "and_then f g oc = (oc', r)" and "sound (oc_bob oc)"
    and "\<And>oc1 x. f oc = (oc1, x) \<Longrightarrow> good_step oc oc1"
    and "\<And>oc1 x oc2 y. sound (oc_bob oc1) \<Longrightarrow> g x oc1 = (oc2, y) \<Longrightarrow> good_step oc oc1 \<Longrightarrow> good_step oc1 oc2"
  shows "good_step oc oc'"
proof -
  obtain oc1 x where f: "f oc = (oc1, x)" by fastforce
  note one = assms(3) [OF f]
  show ?thesis
  proof (cases x)
    case (Inr v)
    then have "g v oc1 = (oc', r)" using assms(1) f by (simp add: and_then_def)
    from assms(4) [OF good_step_sound [OF one assms(2)] this one] show ?thesis using one good_step_trans by blast
  qed (use assms(1) f one in \<open>simp add: and_then_def\<close>)
qed

lemma ensure_alice_good: "ensure_alice de tk oc = (oc', r) \<Longrightarrow> sound (oc_bob oc) \<Longrightarrow> good_step oc oc'"
  by (rule good_step_same) (auto simp: ensure_alice_def split: if_splits prod.splits)

lemma ensure_bob_good: "ensure_bob de tk oc = (oc', r) \<Longrightarrow> sound (oc_bob oc) \<Longrightarrow> good_step oc oc'"
  by (auto simp: ensure_bob_def sound_def intro: good_step_same split: if_splits)

lemma ask_alice_good: "ask_alice de tk oc = (oc', r) \<Longrightarrow> sound (oc_bob oc) \<Longrightarrow> good_step oc oc'"
  by (rule good_step_same) (auto simp: ask_alice_def Let_def split: option.splits prod.splits sum.splits)

lemma step2_good: "step2_query_alice de tk oc = (oc', r) \<Longrightarrow> sound (oc_bob oc) \<Longrightarrow> good_step oc oc'"
  unfolding step2_query_alice_def
  by (elim and_then_good) (auto elim: ensure_alice_good and_then_good ensure_bob_good ask_alice_good)

lemma ensure_results_good: "ensure_results de tk oc = (oc', r) \<Longrightarrow> sound (oc_bob oc) \<Longrightarrow> good_step oc oc'"
  by (auto simp: ensure_results_def good_step_refl split: if_splits elim!: and_then_good intro: step2_good)

lemma record_lesson_good: "record_lesson de tk oc = (oc', r) \<Longrightarrow> sound (oc_bob oc) \<Longrightarrow> good_step oc oc'"
  by (auto simp: record_lesson_def good_step_refl split: sum.splits prod.splits)
    (auto simp: good_step_def dest: remember_stands)

lemma decide_oversized_good: "decide_oversized de tk cap oc = (oc', r) \<Longrightarrow> sound (oc_bob oc) \<Longrightarrow> good_step oc oc'"
  by (auto simp: decide_oversized_def Let_def good_step_refl split: option.splits prod.splits sum.splits)
    (auto simp: good_step_def dest: decide_stands)

lemma decay_bob_good: 
  assumes "decay_bob de tk oc = (oc', r)" and "sound (oc_bob oc)"
  shows "good_step oc oc'"
proof -
  obtain m where m: "bb_memory (oc_bob oc) = Some m" using assms(2) by (auto simp: sound_def)
  obtain m1 q where p: "add_padding (de_noise de (bb_seed (oc_bob oc)) (ms_dim m)) (tk_pad_clock tk) [0..<20] m = (m1, q)"
    by fastforce
  note one = padding_stands [OF p m assms(2)]
  let ?now = "tk_time tk + ADVANCE_SECONDS"
  have two: "stands (oc_bob oc) ((oc_bob oc)\<lparr>bb_memory := Some (decay_step m1 ?now)\<rparr>)"
    using stands_trans [OF one decay_stands [of _ m1 ?now]] stands_sound [OF one assms(2)] by simp
  have "oc' = put_bob_memory m1 oc \<or> oc' = put_bob_memory (decay_step m1 ?now) oc"
    using assms(1) m p by (auto simp: decay_bob_def decay_check_def Let_def split: sum.splits)
  then show ?thesis using one two by (auto simp: good_step_def put_bob_memory_def)
qed

lemma spawn_half_good:
  assumes "spawn_half de tk oc = (oc', r)" and "sound (oc_bob oc)"
    and "bb_constitution_hash (oc_bob oc) = Some h" and "hash_of_rules (de_bob de) (bb_constitution_rules (oc_bob oc)) = Inr h"
    and "\<forall>d s. length (be_rotation (de_bob de) d s) = d"
  shows "good_step oc oc'"
  using assms(1) spawned_child [OF _ assms(2-5)] stands_refl [OF assms(2)] good_step_refl [OF assms(2)]
  by (auto simp: spawn_half_def Let_def good_step_def split: sum.splits)

fun demo_run :: "demo_env \<Rightarrow> (int \<times> tick) list \<Rightarrow> orchestrator \<Rightarrow> orchestrator \<times> step_report res list" where
  "demo_run de [] oc = (oc, [])"
| "demo_run de ((n, tk) # steps) oc =
     (case run_demo_step de tk n oc of (oc1, rep) \<Rightarrow> (case demo_run de steps oc1 of (oc2, reps) \<Rightarrow> (oc2, rep # reps)))"

lemma report_state: "fst (report n out wrap ok hint) = fst out"
  by (cases out; cases "snd out") (auto simp: report_def)

lemma run_demo_step_good:
  assumes "run_demo_step de tk n oc = (oc', rep)" and "sound (oc_bob oc)"
    and "bb_constitution_hash (oc_bob oc) = Some h" and "hash_of_rules (de_bob de) (bb_constitution_rules (oc_bob oc)) = Inr h"
    and "\<forall>d s. length (be_rotation (de_bob de) d s) = d"
  shows "good_step oc oc'"
proof -
  have same: "bb_constitution_hash (oc_bob oc1) = Some h \<and> hash_of_rules (de_bob de) (bb_constitution_rules (oc_bob oc1)) = Inr h"
    if "good_step oc oc1" for oc1
    using that assms(3,4) by (auto simp: good_step_def stands_def)
  have s1: "good_step oc oc1" if "step1_spawn_bob de tk oc = (oc1, x)" for oc1 x
    using that assms(2) unfolding step1_spawn_bob_def
    by (elim and_then_good) (auto elim: ensure_alice_good and_then_good ensure_bob_good simp: good_step_refl)
  have s3: "good_step oc oc1" if "step3_record_lesson de tk oc = (oc1, x)" for oc1 x
    using that assms(2) unfolding step3_record_lesson_def
    by (elim and_then_good) (auto elim: ensure_results_good record_lesson_good)
  have s4: "good_step oc oc1" if "step4_attempt_violating_trade de tk oc = (oc1, x)" for oc1 x
    using that assms(2) unfolding step4_attempt_violating_trade_def
    by (elim and_then_good)
      (auto elim!: ensure_alice_good and_then_good ensure_bob_good ensure_results_good
        simp: good_step_refl split: sum.splits intro: decide_oversized_good)
  have s5: "good_step oc oc1" if "step5_decay_memory de tk oc = (oc1, x)" for oc1 x
    using that assms(2) unfolding step5_decay_memory_def
    by (elim and_then_good) (auto elim: decay_bob_good simp: sound_def [of "oc_bob oc"] intro: good_step_same split: if_splits)
  have s6: "good_step oc oc1" if "step6_spawn_child de tk oc = (oc1, x)" for oc1 x
    using that assms(2) unfolding step6_spawn_child_def
    by (elim and_then_good) (auto elim: ensure_bob_good spawn_half_good [OF _ _ _ _ assms(5)] dest: same)
  have "oc' = fst (run_demo_step de tk n oc)" using assms(1) by simp
  then show ?thesis
    using s1 step2_good [OF _ assms(2)] s3 s4 s5 s6 good_step_refl [OF assms(2)] assms(1)
    by (auto simp: run_demo_step_def Let_def report_state split: if_splits) (metis prod.collapse)+
qed

lemma demo_run_good:
  assumes "\<forall>d s. length (be_rotation (de_bob de) d s) = d"
  shows "demo_run de steps oc = (oc', reps) \<Longrightarrow> sound (oc_bob oc) \<Longrightarrow> bb_constitution_hash (oc_bob oc) = Some h \<Longrightarrow>
    hash_of_rules (de_bob de) (bb_constitution_rules (oc_bob oc)) = Inr h \<Longrightarrow> good_step oc oc'"
proof (induction steps arbitrary: oc oc' reps)
  case (Cons s steps)
  obtain n tk where s: "s = (n, tk)" by fastforce
  obtain oc1 rep where one: "run_demo_step de tk n oc = (oc1, rep)" by fastforce
  obtain oc2 reps' where two: "demo_run de steps oc1 = (oc2, reps')" by fastforce
  have g: "good_step oc oc1" by (rule run_demo_step_good [OF one Cons.prems(2-4) assms])
  have "good_step oc1 oc2"
    using Cons.prems(3,4) g good_step_sound [OF g Cons.prems(2)]
    by (intro Cons.IH [OF two]) (auto simp: good_step_def stands_def)
  then show ?case using Cons.prems(1) g good_step_trans by (auto simp: s one two)
qed (simp add: good_step_refl)


subsection \<open>Reports\<close>

lemma pinned_ids_view_eq:
  assumes "memory_wf m" and "memory_wf m'" and "pinned_view m = pinned_view m'"
  shows "pinned_ids m = pinned_ids m'"
proof -
  have d: "distinct (map fst (filter (\<lambda>(t, e). e_pinned e) (ms_entries x)))" if "memory_wf x" for x
    by (rule distinct_map_filter [OF memory_wfD(1) [OF that]])
  have s: "set (map fst (filter (\<lambda>(t, e). e_pinned e) (ms_entries x))) = {t. pinned_view x t \<noteq> None}" if "memory_wf x" for x
  proof -
    have "pinned_view x t \<noteq> None \<longleftrightarrow> (\<exists>e. (t, e) \<in> set (ms_entries x) \<and> e_pinned e)" for t
      unfolding map_of_eq_Some_iff [OF memory_wfD(1) [OF that], symmetric]
      by (auto simp: pinned_view_def split: option.splits)
    then show ?thesis by force
  qed
  show ?thesis
    unfolding pinned_ids_def using s [OF assms(1)] s [OF assms(2)] d [OF assms(1)] d [OF assms(2)] assms(3)
    by (intro sorted_distinct_set_unique) auto
qed

text \<open>What a report of a step tells of an agent: a decay found and left its pinned set and root; a child
  carries its constitution and half its budget.\<close>

definition truthful :: "demo_env \<Rightarrow> bob \<Rightarrow> memory \<Rightarrow> step_report \<Rightarrow> bool" where
  "truthful de b m rep \<longleftrightarrow>
     (\<forall>ev. sr_evidence rep = Decayed ev \<longrightarrow>
        sr_ok rep \<and> dy_root_before ev = pinned_merkle_root (be_sha256 (de_bob de)) (be_float_repr (de_bob de)) m \<and>
        dy_root_after ev = dy_root_before ev \<and> dy_pinned_before ev = pinned_ids m \<and> dy_pinned_after ev = pinned_ids m) \<and>
     (\<forall>ev. sr_evidence rep = Child ev \<longrightarrow>
        sr_ok rep \<and> ce_inherited ev \<and> ce_child_hash ev = bb_constitution_hash b \<and> ce_child_budget_usdc ev = bb_budget_usdc b / 2)"

lemma truthful_stands:
  assumes "stands b b'" and "sound b" and "bb_memory b = Some m" and "bb_memory b' = Some m'" and "truthful de b' m' rep"
  shows "truthful de b m rep"
proof -
  have v: "memory_wf m" "memory_wf m'" "pinned_view m' = pinned_view m"
    using assms by (auto simp: stands_def sound_def)
  show ?thesis
    using assms(1,4,5) root_view [OF v(2,1,3)] pinned_ids_view_eq [OF v(2,1,3)] by (auto simp: truthful_def stands_def)
qed

lemma decay_report:
  assumes "decay_bob de tk oc = (oc', Inr ev)" and "sound (oc_bob oc)" and "bb_memory (oc_bob oc) = Some m"
  shows "dy_root_before ev = pinned_merkle_root (be_sha256 (de_bob de)) (be_float_repr (de_bob de)) m \<and>
    dy_root_after ev = dy_root_before ev \<and> dy_pinned_before ev = pinned_ids m \<and> dy_pinned_after ev = pinned_ids m"
proof -
  obtain m1 q where p: "add_padding (de_noise de (bb_seed (oc_bob oc)) (ms_dim m)) (tk_pad_clock tk) [0..<20] m = (m1, q)"
    by fastforce
  note one = padding_stands [OF p assms(3,2)]
  have s1: "sound ((oc_bob oc)\<lparr>bb_memory := Some m1\<rparr>)" by (rule stands_sound [OF one assms(2)])
  let ?m2 = "decay_step m1 (tk_time tk + ADVANCE_SECONDS)"
  have w: "memory_wf m" "memory_wf m1" and v: "pinned_view m1 = pinned_view m"
    using assms(2,3) one by (auto simp: sound_def stands_put)
  have "stands ((oc_bob oc)\<lparr>bb_memory := Some m1\<rparr>) (((oc_bob oc)\<lparr>bb_memory := Some m1\<rparr>)\<lparr>bb_memory := Some ?m2\<rparr>)"
    by (rule decay_stands [OF _ s1]) simp
  then have w2: "memory_wf ?m2" and v2: "pinned_view ?m2 = pinned_view m" using v by (simp_all only: stands_put) auto
  have "ev = snd (decay_check (be_sha256 (de_bob de)) (be_float_repr (de_bob de)) (tk_time tk + ADVANCE_SECONDS) m1)"
    using assms(1) p by (auto simp: decay_bob_def assms(3) Let_def split: sum.splits prod.splits)
  then show ?thesis
    using root_view [OF w(2,1) v] root_view [OF w2 w(1) v2] pinned_ids_view_eq [OF w(2,1) v] pinned_ids_view_eq [OF w2 w(1) v2]
    by (simp add: decay_check_def Let_def)
qed

lemma step_report_truthful:
  assumes "run_demo_step de tk n oc = (oc', Inr rep)" and "sound (oc_bob oc)" and "bb_memory (oc_bob oc) = Some m"
    and "bb_constitution_hash (oc_bob oc) = Some h" and "hash_of_rules (de_bob de) (bb_constitution_rules (oc_bob oc)) = Inr h"
    and "\<forall>d s. length (be_rotation (de_bob de) d s) = d"
  shows "truthful de (oc_bob oc) m rep"
proof -
  have five: "sr_ok rep \<and> decay_bob de tk oc = (fst (decay_bob de tk oc), Inr ev)" if "sr_evidence rep = Decayed ev" for ev
    using assms(1) that decay_report [OF _ assms(2,3)]
    by (auto simp: run_demo_step_def report_def step5_decay_memory_def and_then_def assms(3) decay_ok_def Let_def
        split: if_splits prod.splits sum.splits)
  have six: "sr_ok rep \<and> (\<exists>oc1. spawn_half de tk oc = (oc1, Inr ev))" if "sr_evidence rep = Child ev" for ev
    using assms(1,2) that
    by (auto simp: run_demo_step_def report_def step6_spawn_child_def and_then_def ensure_bob_def sound_def Let_def
        split: if_splits prod.splits sum.splits)
  have child: "ce_inherited ev \<and> ce_child_hash ev = bb_constitution_hash (oc_bob oc) \<and> ce_child_budget_usdc ev = bb_budget_usdc (oc_bob oc) / 2"
    if half: "spawn_half de tk oc = (oc1, Inr ev)" for oc1 ev
  proof -
    obtain child where c: "spawn_child (de_bob de) (tk_child_key tk) (tk_child_clock tk) (tk_child_clock tk) (oc_bob oc)
        (Some (bb_budget_usdc (oc_bob oc) / 2)) [] None = Inr child" "child_evidence_of (oc_bob oc) child = Inr ev"
      using half by (auto simp: spawn_half_def Let_def split: sum.splits)
    from spawned_child [OF c(1) assms(2,4,5,6)] c(2) show ?thesis
      by (auto simp: child_of_def child_evidence_of_def res_bind_eq_Inr)
  qed
  show ?thesis
    using five six child decay_report [OF _ assms(2,3)] unfolding truthful_def by metis
qed

lemma demo_run_truthful:
  assumes "\<forall>d s. length (be_rotation (de_bob de) d s) = d"
  shows "demo_run de steps oc = (oc', reps) \<Longrightarrow> sound (oc_bob oc) \<Longrightarrow> bb_memory (oc_bob oc) = Some m \<Longrightarrow>
    bb_constitution_hash (oc_bob oc) = Some h \<Longrightarrow>
    hash_of_rules (de_bob de) (bb_constitution_rules (oc_bob oc)) = Inr h \<Longrightarrow> Inr rep \<in> set reps \<Longrightarrow> truthful de (oc_bob oc) m rep"
proof (induction steps arbitrary: oc oc' reps m)
  case (Cons s steps)
  obtain n tk where s: "s = (n, tk)" by fastforce
  obtain oc1 rep1 where one: "run_demo_step de tk n oc = (oc1, rep1)" by fastforce
  obtain oc2 reps' where two: "demo_run de steps oc1 = (oc2, reps')" by fastforce
  have g: "stands (oc_bob oc) (oc_bob oc1)"
    using run_demo_step_good [OF one Cons.prems(2,4,5) assms] by (simp add: good_step_def)
  obtain m1 where m1: "bb_memory (oc_bob oc1) = Some m1" using g by (auto simp: stands_def)
  have f: "bb_constitution_hash (oc_bob oc1) = Some h" "hash_of_rules (de_bob de) (bb_constitution_rules (oc_bob oc1)) = Inr h"
    using g Cons.prems(4,5) by (auto simp: stands_def)
  consider "Inr rep = rep1" | "Inr rep \<in> set reps'" using Cons.prems(1,6) by (auto simp: s one two)
  then show ?case
  proof cases
    case 1
    then show ?thesis using step_report_truthful [OF _ Cons.prems(2-5) assms] one by metis
  next
    case 2
    have "truthful de (oc_bob oc1) m1 rep" by (rule Cons.IH [OF two stands_sound [OF g Cons.prems(2)] m1 f 2])
    then show ?thesis by (rule truthful_stands [OF g Cons.prems(2,3) m1])
  qed
qed simp


subsection \<open>The constitution through the demo\<close>

lemma pin_rules_rates: "ms_decay_lambdas (fst (pin_rules be d seed rs now m)) = ms_decay_lambdas m"
proof (induction rs arbitrary: m now)
  case (Cons r rs)
  show ?case
  proof (cases "pin_rule be d seed m r (now 0)")
    case (Inr m1)
    then have "ms_decay_lambdas m1 = ms_decay_lambdas m"
      using pin_rule_Inr [OF Inr] by (auto simp: add_eq split: if_splits)
    then show ?thesis using Cons.IH Inr by simp
  qed simp
qed simp

lemma bootstrap_sound:
  assumes "bootstrap be key now (mk_bob budget rules model d seed) = (b, Inr ())"
    and "\<forall>d s. length (be_rotation be d s) = d"
  shows "sound b \<and> bb_constitution_rules b = rules \<and> bb_budget_usdc b = budget \<and>
    (\<exists>m h. bb_memory b = Some m \<and> ms_decay_lambdas m = default_lambdas \<and>
       bb_constitution_hash b = Some h \<and> hash_of_rules be rules = Inr h)"
proof -
  let ?m0 = "mk_memory (be_rotation be) d None seed"
  obtain m where m: "pin_rules be d seed rules now ?m0 = (m, Inr ())" "bb_memory b = Some m"
    using assms(1) by (auto simp: bootstrap_def mk_bob_def Let_def split: sum.splits prod.splits)
  have v0: "pinned_prefix ?m0" by (simp add: pinned_prefix_def pinned_view_def mk_memory_def)
  have l: "ms_decay_lambdas m = default_lambdas"
    using pin_rules_rates [of be d seed rules now ?m0] m(1) by (simp add: mk_memory_def)
  have w: "memory_wf m" "pinned_prefix m"
    using pin_rules_wf [OF memory_wf_init, of "be_rotation be" d seed be d seed rules now None]
      pin_rules_prefix [OF v0, of be d seed rules now] m(1) assms(2) by auto
  have r: "rates_ok m" by (simp add: rates_ok_def l default_lambdas_def)
  show ?thesis
    using bootstrap_fields [OF assms(1)] bootstrap_hash [OF assms(1)] w r l m(2)
    by (auto simp: sound_def mk_bob_def)
qed


subsection \<open>The padding\<close>

lemma padding_id_inj: "padding_id i = padding_id j \<Longrightarrow> i = j"
  unfolding padding_id_def same_append_eq by (metis digits_val_zeros digits_val_nat_str)

text \<open>Every noise entry goes in, as an unpinned working entry of its own clock.\<close>

lemma padding_total:
  assumes "\<forall>i. length (noise i) = ms_dim m" and "distinct is"
  shows "\<exists>m1. add_padding noise now is m = (m1, Inr ()) \<and>
    (\<forall>t. t \<notin> padding_id ` set is \<longrightarrow> map_of (ms_entries m1) t = map_of (ms_entries m) t) \<and>
    (\<forall>i \<in> set is. \<exists>e. map_of (ms_entries m1) (padding_id i) = Some e \<and> \<not> e_pinned e \<and> e_kind e = ''working'' \<and>
       e_weight e = 1 \<and> e_last_decay_ts e = now i)"
  using assms
proof (induction "is" arbitrary: m)
  case (Cons i js)
  let ?e = "new_entry m (padding_id i) (noise i) ''working'' False (Some [(''i'', JInt (int i))]) (now i)"
  let ?m1 = "(ensure_centroid m)\<lparr>ms_entries := AList.update (padding_id i) ?e (ms_entries m)\<rparr>"
  have a: "add m (padding_id i) (noise i) ''working'' False (Some [(''i'', JInt (int i))]) (now i) = Inr ?m1"
    using Cons.prems(1) by (simp add: add_eq VALID_KINDS_def)
  obtain m2 where m2: "add_padding noise now js ?m1 = (m2, Inr ())"
    "\<And>t. t \<notin> padding_id ` set js \<Longrightarrow> map_of (ms_entries m2) t = map_of (ms_entries ?m1) t"
    "\<forall>j \<in> set js. \<exists>e. map_of (ms_entries m2) (padding_id j) = Some e \<and> \<not> e_pinned e \<and> e_kind e = ''working'' \<and>
       e_weight e = 1 \<and> e_last_decay_ts e = now j"
    using Cons.IH [of ?m1] Cons.prems by auto
  have "padding_id i \<notin> padding_id ` set js" using Cons.prems(2) padding_id_inj by auto
  then have "map_of (ms_entries m2) (padding_id i) = Some ?e" using m2(2) by (simp add: update_conv')
  moreover have "\<not> e_pinned ?e" "e_kind ?e = ''working''" "e_weight ?e = 1" "e_last_decay_ts ?e = now i"
    by (simp_all add: new_entry_def Let_def)
  ultimately show ?case using m2 by (auto simp: a update_conv')
qed simp

text \<open>A working entry of full weight does not survive thirty days.\<close>

lemma thirty_days: "30 * 86400 \<le> dt \<Longrightarrow> exp (- (1 / 86400) * dt) < THETA"
proof -
  assume dt: "30 * 86400 \<le> dt"
  have "31 \<le> exp (30 :: real)" using exp_ge_add_one_self [of 30] by simp
  then have "exp (- 30 :: real) \<le> 1 / 31" by (simp add: exp_minus field_simps)
  moreover have "exp (- (1 / 86400) * dt) \<le> exp (- 30 :: real)" using dt by simp
  ultimately show ?thesis unfolding THETA_def by linarith
qed

lemma gone_after:
  assumes "memory_wf m" and "map_of (ms_entries m) t = Some e" and "\<not> e_pinned e" and "e_kind e = ''working''"
    and "e_weight e = 1" and "e_last_decay_ts e + 30 * 86400 \<le> now" and "ms_decay_lambdas m = default_lambdas"
  shows "t \<notin> fst ` set (ms_entries (decay_step m now))"
proof
  have d: "distinct (map fst (ms_entries m))" by (rule memory_wfD(1) [OF assms(1)])
  assume "t \<in> fst ` set (ms_entries (decay_step m now))"
  then obtain e' where e': "(t, e') \<in> set (ms_entries m)" "kept (decay_entry (ms_decay_lambdas m) now e')"
    unfolding decay_step_entries [OF d] by auto
  then have "e' = e" using assms(2) d by simp
  moreover have "e_weight (decay_entry (ms_decay_lambdas m) now e) < THETA"
    using assms(3-7) thirty_days [of "now - e_last_decay_ts e"]
    by (simp add: decay_entry_def Let_def decay_rate_def default_lambdas_def max_def)
  ultimately show False using e'(2) assms(3) by (simp add: kept_def decay_entry_def Let_def)
qed

lemma lost_entries:
  assumes "memory_wf m" and "P \<subseteq> fst ` set (ms_entries m)" and "P \<inter> fst ` set (ms_entries (decay_step m now)) = {}"
  shows "int (card P) \<le> memory_len m - memory_len (decay_step m now)"
proof -
  have d: "distinct (map fst (ms_entries m))" by (rule memory_wfD(1) [OF assms(1)])
  have sub: "fst ` set (ms_entries (decay_step m now)) \<subseteq> fst ` set (ms_entries m)"
    unfolding decay_step_entries [OF d] by force
  have d': "distinct (map fst (ms_entries (decay_step m now)))"
    unfolding decay_step_entries [OF d] by (rule distinct_map_filter) (simp add: d o_def split_beta)
  have "card P + card (fst ` set (ms_entries (decay_step m now))) = card (P \<union> fst ` set (ms_entries (decay_step m now)))"
    using assms(2,3) by (intro card_Un_disjoint [symmetric]) (auto intro: finite_subset)
  also have "\<dots> \<le> card (fst ` set (ms_entries m))" using assms(2) sub by (intro card_mono) auto
  finally show ?thesis
    using distinct_card [OF d] distinct_card [OF d'] by (simp add: memory_len_def)
qed

lemma decay_bob_evicts:
  assumes "sound (oc_bob oc)" and "bb_memory (oc_bob oc) = Some m" and "ms_decay_lambdas m = default_lambdas"
    and "\<forall>sd d i. length (de_noise de sd d i) = d" and "\<forall>i<20. tk_pad_clock tk i \<le> tk_time tk"
  shows "\<exists>oc' ev m'. decay_bob de tk oc = (oc', Inr ev) \<and> 20 \<le> dy_evicted ev \<and> bb_memory (oc_bob oc') = Some m' \<and>
    (\<forall>i<20. map_of (ms_entries m') (padding_id i) = None)"
proof -
  let ?noise = "de_noise de (bb_seed (oc_bob oc)) (ms_dim m)"
  obtain m1 where m1: "add_padding ?noise (tk_pad_clock tk) [0..<20] m = (m1, Inr ())"
    and pads: "\<forall>i \<in> set [0..<20]. \<exists>e. map_of (ms_entries m1) (padding_id i) = Some e \<and> \<not> e_pinned e \<and>
       e_kind e = ''working'' \<and> e_weight e = 1 \<and> e_last_decay_ts e = tk_pad_clock tk i"
    using padding_total [of ?noise m "[0..<20]" "tk_pad_clock tk"] assms(4) by auto
  have w: "memory_wf m1" "ms_decay_lambdas m1 = default_lambdas"
    using padding_stands [OF m1 assms(2,1)] assms(2,3) by (auto simp: stands_put)
  let ?m2 = "decay_step m1 (tk_time tk + ADVANCE_SECONDS)"
  have gone: "padding_id i \<notin> fst ` set (ms_entries ?m2)" if i: "i < 20" for i
  proof -
    obtain e where e: "map_of (ms_entries m1) (padding_id i) = Some e" "\<not> e_pinned e" "e_kind e = ''working''"
      "e_weight e = 1" "e_last_decay_ts e = tk_pad_clock tk i" using bspec [OF pads, of i] i by auto
    have "tk_pad_clock tk i \<le> tk_time tk" using assms(5) i by blast
    then show ?thesis using e w by (intro gone_after) (auto simp: ADVANCE_SECONDS_def)
  qed
  have "card (padding_id ` {..<20}) = 20" using padding_id_inj by (simp add: card_image inj_on_def)
  moreover have "int (card (padding_id ` {..<20})) \<le> memory_len m1 - memory_len ?m2"
  proof (rule lost_entries [OF w(1)])
    show "padding_id ` {..<20} \<subseteq> fst ` set (ms_entries m1)"
      using pads by (auto simp: atLeast0LessThan dest!: map_of_SomeD) (force dest: map_of_SomeD)
  qed (use gone in auto)
  ultimately show ?thesis
    using gone by (auto simp: decay_bob_def assms(2) m1 decay_check_def Let_def put_bob_memory_def map_of_eq_None_iff)
qed


subsection \<open>A demo to try them on\<close>

definition sample_demo :: demo_env where
  "sample_demo = \<lparr>de_alice = sample_ae, de_bob = sample_be\<lparr>be_rotation := \<lambda>d _. replicate d (replicate d 0)\<rparr>,
     de_server = sample_env, de_score_json = (\<lambda>_. JInt 0), de_noise = (\<lambda>_ d _. replicate d 0)\<rparr>"

definition sample_tick :: tick where
  "sample_tick = \<lparr>tk_alice_address = ''0xa1'', tk_corpus_clock = (\<lambda>_. 0), tk_rules_clock = (\<lambda>_. 0), tk_nonce_db = Absent,
     tk_key = [1], tk_pin_clock = (\<lambda>_. 0), tk_query = \<lparr>py_now = 10, py_token = [1], py_first = sample_clock 10, py_second = sample_clock 11\<rparr>,
     tk_decide = \<lparr>py_now = 12, py_token = [2], py_first = sample_clock 12, py_second = sample_clock 13\<rparr>,
     tk_ts = 14, tk_learn = 14, tk_pad_clock = (\<lambda>i. 20 + real i), tk_time = 50, tk_child_key = [2], tk_child_clock = (\<lambda>_. 60)\<rparr>"

definition sample_rule :: rule where
  "sample_rule = [(''rule_id'', JStr ''MAX_LEV_2X''), (''kind'', JStr ''MAX_LEVERAGE''), (''max_leverage_bps'', JInt 20000)]"

definition sample_demo_start :: "bob \<Rightarrow> orchestrator" where
  "sample_demo_start b = mk_orchestrator (sample_alice []) b DEFAULT_MARKET_STATE (\<lambda>_. NoFile)"

lemma sample_demo_shapes:
  "\<forall>d s. length (be_rotation (de_bob sample_demo) d s) = d" "\<forall>sd d i. length (de_noise sample_demo sd d i) = d"
  "\<forall>i<20. tk_pad_clock sample_tick i \<le> tk_time sample_tick"
  by (simp_all add: sample_demo_def sample_tick_def)

lemma sample_demo_boot:
  "\<exists>b. bootstrap (de_bob sample_demo) [1] (\<lambda>_. 0) (mk_bob 10 [sample_rule] None 1 7) = (b, Inr ())"
proof -
  let ?be = "de_bob sample_demo"
  have len: "\<forall>t. length (hash_vec ?be t 1 7) = 1"
    by (simp add: hash_vec_def hash_to_vec_def sample_demo_def sample_be_def Let_def)
  have id: "pinned_rule_id ?be sample_rule = Inr ''pinned:MAX_LEV_2X''"
    by (simp add: pinned_rule_id_def sample_rule_def dict_item_def dict_get_or_def)
  have sol: "rules_to_solidity ?be [sample_rule] = Inr [(0, ABytes [], JStr ZERO_ADAPTER)]"
    by (simp add: rules_to_solidity_def rule_to_solidity_def sample_rule_def dict_item_def KIND_STR_TO_INT_def
        encode_rule_params_def dict_get_or_def abi_uint_def sample_demo_def sample_be_def KIND_MAX_LEVERAGE_def)
  then obtain h where h: "hash_of_rules ?be [sample_rule] = Inr h"
    by (simp add: hash_of_rules_def sample_demo_def sample_be_def)
  obtain m where m: "pin_rules ?be 1 7 [sample_rule] (\<lambda>_. 0) (mk_memory (be_rotation ?be) 1 None 7) = (m, Inr ())"
    using pin_rules_total [OF _ len, of "[sample_rule]" "mk_memory (be_rotation ?be) 1 None 7" "\<lambda>_. 0"] id
    by (auto simp: mk_memory_def simp del: pin_rules.simps)
  show ?thesis using sol h m by (simp add: bootstrap_def mk_bob_def del: pin_rules.simps)
qed

lemma sample_demo_decay:
  assumes "bootstrap (de_bob sample_demo) [1] (\<lambda>_. 0) (mk_bob 10 [sample_rule] None 1 7) = (b, Inr ())"
  shows "\<exists>oc rep ev. demo_run sample_demo [(5, sample_tick)] (sample_demo_start b) = (oc, [Inr rep]) \<and> sr_evidence rep = Decayed ev"
proof -
  have o: "oc_bob (sample_demo_start b) = b" by (simp add: sample_demo_start_def mk_orchestrator_def)
  obtain m where b: "sound b" "bb_memory b = Some m" "ms_decay_lambdas m = default_lambdas"
    using bootstrap_sound [OF assms sample_demo_shapes(1)] by blast
  obtain oc' ev where "decay_bob sample_demo sample_tick (sample_demo_start b) = (oc', Inr ev)"
    using decay_bob_evicts [of "sample_demo_start b", unfolded o, OF b sample_demo_shapes(2,3)] by blast
  then show ?thesis
    by (simp add: run_demo_step_def report_def step5_decay_memory_def and_then_def o b(2) Let_def)
qed

subsection \<open>The properties\<close>

text \<open>C29: (safety) No run of the demo moves the agent's constitution: take a freshly bootstrapped trading agent and
  run any steps, in any order, any number of times, over whatever servers, memories and clocks,
  steps that fail halfway included. Then the agent's rules, hash, key and budget are untouched and
  its memory has every pinned entry as it was, hence the same Merkle root; the last child has the
  parent's rules, hash and pinned root and half of its budget; and the reports say so: each
  decay report is \<open>ok\<close> and shows that very root and those ids before and after, each child report shows
  an inherited constitution.\<close>

theorem demo_keeps_the_constitution:
  assumes "bootstrap (de_bob de) key now (mk_bob budget rules model d seed) = (b, Inr ())"
    and "\<forall>d s. length (be_rotation (de_bob de) d s) = d"
    and "demo_run de steps (mk_orchestrator a b market fs) = (oc, reps)"
  shows "\<exists>m m'. bb_memory b = Some m \<and> oc_bob oc = b\<lparr>bb_memory := Some m'\<rparr> \<and> pinned_view m' = pinned_view m \<and>
    pinned_merkle_root H fr m' = pinned_merkle_root H fr m \<and>
    (\<forall>child. oc_child oc = Some child \<longrightarrow>
       bb_constitution_rules child = rules \<and> bb_constitution_hash child = bb_constitution_hash b \<and>
       bb_budget_usdc child = budget / 2 \<and>
       (\<exists>mc. bb_memory child = Some mc \<and> pinned_merkle_root H fr mc = pinned_merkle_root H fr m)) \<and>
    (\<forall>rep ev. Inr rep \<in> set reps \<and> sr_evidence rep = Decayed ev \<longrightarrow>
       sr_ok rep \<and> dy_root_before ev = pinned_merkle_root (be_sha256 (de_bob de)) (be_float_repr (de_bob de)) m \<and>
       dy_root_after ev = dy_root_before ev \<and> dy_pinned_before ev = pinned_ids m \<and> dy_pinned_after ev = pinned_ids m) \<and>
    (\<forall>rep ev. Inr rep \<in> set reps \<and> sr_evidence rep = Child ev \<longrightarrow>
       sr_ok rep \<and> ce_inherited ev \<and> ce_child_hash ev = bb_constitution_hash b \<and> ce_child_budget_usdc ev = budget / 2)"
proof -
  let ?oc0 = "mk_orchestrator a b market fs"
  have o: "oc_bob ?oc0 = b" "oc_child ?oc0 = None" by (simp_all add: mk_orchestrator_def)
  obtain m h where b: "sound b" "bb_constitution_rules b = rules" "bb_budget_usdc b = budget" "bb_memory b = Some m"
    "bb_constitution_hash b = Some h" "hash_of_rules (de_bob de) rules = Inr h"
    using bootstrap_sound [OF assms(1,2)] by blast
  have g: "good_step ?oc0 oc" using demo_run_good [OF assms(2,3)] b by (simp add: o)
  obtain m' where m': "oc_bob oc = b\<lparr>bb_memory := Some m'\<rparr>" "memory_wf m'" "pinned_view m' = pinned_view m"
    using g b(4) by (auto simp: good_step_def stands_def o)
  have w: "memory_wf m" using b(1,4) by (auto simp: sound_def)
  have child: "bb_constitution_rules child = rules \<and> bb_constitution_hash child = bb_constitution_hash b \<and>
       bb_budget_usdc child = budget / 2 \<and>
       (\<exists>mc. bb_memory child = Some mc \<and> pinned_merkle_root H fr mc = pinned_merkle_root H fr m)"
    if last: "oc_child oc = Some child" for child
  proof -
    have "child_of (oc_bob oc) child" using g last by (auto simp: good_step_def o)
    then show ?thesis using m' b root_view [OF _ w] by (auto simp: child_of_def)
  qed
  have "truthful de b m rep" if r: "Inr rep \<in> set reps" for rep
    using demo_run_truthful [OF assms(2,3), unfolded o, OF b(1,4,5)] b(2,6) r by simp
  then show ?thesis
    using m' b(3,4) child root_view [OF m'(2) w m'(3)] unfolding truthful_def by blast
qed

lemma demo_keeps_the_constitution_witness:
  "\<exists>b oc rep ev m m'. bootstrap (de_bob sample_demo) [1] (\<lambda>_. 0) (mk_bob 10 [sample_rule] None 1 7) = (b, Inr ()) \<and>
     demo_run sample_demo [(5, sample_tick)] (sample_demo_start b) = (oc, [Inr rep]) \<and> sr_evidence rep = Decayed ev \<and> sr_ok rep \<and>
     dy_pinned_after ev = dy_pinned_before ev \<and> bb_memory b = Some m \<and> oc_bob oc = b\<lparr>bb_memory := Some m'\<rparr> \<and>
     pinned_view m' = pinned_view m"
proof -
  obtain b where b: "bootstrap (de_bob sample_demo) [1] (\<lambda>_. 0) (mk_bob 10 [sample_rule] None 1 7) = (b, Inr ())"
    using sample_demo_boot by blast
  obtain oc rep ev where r: "demo_run sample_demo [(5, sample_tick)] (sample_demo_start b) = (oc, [Inr rep])" "sr_evidence rep = Decayed ev"
    using sample_demo_decay [OF b] by blast
  obtain m m' where m: "bb_memory b = Some m" "oc_bob oc = b\<lparr>bb_memory := Some m'\<rparr>" "pinned_view m' = pinned_view m"
    "\<forall>rep' ev. Inr rep' \<in> set [Inr rep :: step_report res] \<and> sr_evidence rep' = Decayed ev \<longrightarrow>
       sr_ok rep' \<and> dy_pinned_before ev = pinned_ids m \<and> dy_pinned_after ev = pinned_ids m"
    using demo_keeps_the_constitution [OF b sample_demo_shapes(1) r(1) [unfolded sample_demo_start_def]] by blast
  have "sr_ok rep \<and> dy_pinned_after ev = dy_pinned_before ev" using m(4) r(2) by auto
  then show ?thesis using b r m(1-3) by metis
qed

text \<open>C30: (functional) The decay step of the demo does what it shows: after any run over a freshly bootstrapped
  agent, when the clock does not run back while the noise is added, step 5 succeeds, evicts at least
  the twenty noise entries it added, and none of them is left: at one part in 86400 per second, thirty
  days take a weight of one below the threshold.\<close>

theorem padding_is_evicted:
  assumes "bootstrap (de_bob de) key now (mk_bob budget rules model d seed) = (b, Inr ())"
    and "\<forall>d s. length (be_rotation (de_bob de) d s) = d"
    and "demo_run de steps (mk_orchestrator a b market fs) = (oc, reps)"
    and "\<forall>sd d i. length (de_noise de sd d i) = d" and "\<forall>i<20. tk_pad_clock tk i \<le> tk_time tk"
  shows "\<exists>oc' ev m'. run_demo_step de tk 5 oc =
      (oc', Inr \<lparr>sr_step = 5, sr_name = text_at STEP_NAMES 5, sr_ok = True, sr_evidence = Decayed ev,
                 sr_next_step_hint = text_at NEXT_HINTS 5\<rparr>) \<and>
    20 \<le> dy_evicted ev \<and> dy_evicted ev = dy_entries_before ev - dy_entries_after ev \<and>
    bb_memory (oc_bob oc') = Some m' \<and> (\<forall>i<20. map_of (ms_entries m') (padding_id i) = None)"
proof -
  let ?oc0 = "mk_orchestrator a b market fs"
  have o: "oc_bob ?oc0 = b" by (simp add: mk_orchestrator_def)
  obtain m h where b: "sound b" "bb_constitution_rules b = rules" "bb_memory b = Some m"
    "ms_decay_lambdas m = default_lambdas" "bb_constitution_hash b = Some h" "hash_of_rules (de_bob de) rules = Inr h"
    using bootstrap_sound [OF assms(1,2)] by blast
  have g: "stands b (oc_bob oc)" using demo_run_good [OF assms(2,3)] b by (auto simp: o good_step_def)
  obtain m1 where m1: "bb_memory (oc_bob oc) = Some m1" "ms_decay_lambdas m1 = default_lambdas"
    using g b(3,4) by (auto simp: stands_def)
  have s1: "sound (oc_bob oc)" by (rule stands_sound [OF g b(1)])
  obtain oc' ev m' where r: "decay_bob de tk oc = (oc', Inr ev)" "20 \<le> dy_evicted ev" "bb_memory (oc_bob oc') = Some m'"
    "\<forall>i<20. map_of (ms_entries m') (padding_id i) = None"
    using decay_bob_evicts [OF s1 m1 assms(4,5)] by blast
  have "dy_evicted ev = max 0 (dy_entries_before ev - dy_entries_after ev)"
    using r(1) by (auto simp: decay_bob_def m1(1) decay_check_def Let_def split: sum.splits prod.splits)
  moreover have "decay_ok ev" using decay_report [OF r(1) s1 m1(1)] by (simp add: decay_ok_def)
  ultimately show ?thesis
    using r by (simp add: run_demo_step_def report_def step5_decay_memory_def and_then_def m1(1) Let_def)
qed

lemma padding_is_evicted_witness:
  "\<exists>b oc' ev. bootstrap (de_bob sample_demo) [1] (\<lambda>_. 0) (mk_bob 10 [sample_rule] None 1 7) = (b, Inr ()) \<and>
     run_demo_step sample_demo sample_tick 5 (sample_demo_start b) =
       (oc', Inr \<lparr>sr_step = 5, sr_name = text_at STEP_NAMES 5, sr_ok = True, sr_evidence = Decayed ev,
                  sr_next_step_hint = text_at NEXT_HINTS 5\<rparr>) \<and> 20 \<le> dy_evicted ev"
proof -
  obtain b where b: "bootstrap (de_bob sample_demo) [1] (\<lambda>_. 0) (mk_bob 10 [sample_rule] None 1 7) = (b, Inr ())"
    using sample_demo_boot by blast
  have "demo_run sample_demo [] (sample_demo_start b) = (sample_demo_start b, [])" by simp
  from padding_is_evicted [OF b sample_demo_shapes(1) this [unfolded sample_demo_start_def] sample_demo_shapes(2,3), folded sample_demo_start_def] b
  show ?thesis by blast
qed

end
