(* ===== verification/Spec2Isabelle.thy ===== *)
theory Spec2Isabelle
  imports Pool_Properties Client_Properties Bob_Properties Alice_Properties Arena_Properties Chain_Properties Registry_Properties Runner_Properties Wallet_Properties Demo_Properties
begin

text \<open>
  A model of the Python program of the repository: agents that sell and buy traces of trading
  reasoning over HTTP, paid per request in the x402 protocol, with a memory whose pinned part is
  committed to by a Merkle root, and an arena in which model-driven agents duel under injected
  misinformation.

  How the parts interact. An agent of \<open>agents/alice.py\<close> fills a memory (\<open>agents/memory_service.py\<close>) and
  hosts it behind the paywall of \<open>agents/dark_pool.py\<close>, which keeps the nonces of the payments it took in a
  store (\<open>agents/nonce_store.py\<close>) and the pace of its customers in a token bucket
  (\<open>agents/rate_limiter.py\<close>). An agent of \<open>agents/bob.py\<close> buys traces through the client of
  \<open>agents/x402_client.py\<close>, turns the best one into a transfer, remembers it and spawns children.
  The registry service (\<open>agents/registry_api.py\<close>) publishes advice on the chain and puts it into the memory
  that its own dark pool sells; the runner (\<open>agents/agent_runner.py\<close>) drives it cycle after cycle. Keys and
  wallets come from \<open>scripts/lib/keys.py\<close>, \<open>agents/agent_wallet.py\<close> and the environment file, transactions go
  through \<open>scripts/lib/chain.py\<close>.
  Duelists (\<open>agents/duelist.py\<close>) decide with a language model and a memory of their own; the engine of
  \<open>agents/duel_runner.py\<close> plays and reports their cycles on the chain, and \<open>agents/arena.py\<close> pairs them and
  ranks the outcome. The demo of \<open>agents/orchestrator.py\<close> leads an Alice and a Bob through six steps.

  The theories.
  \<^item> \<open>Py_Prelude\<close>, \<open>Py_Json\<close>, \<open>Py_Codec\<close>, \<open>Py_Text\<close>: the Python notions in use. Exceptions are values
    (\<open>exn + 'a\<close>); a \<open>str\<close> is the list of its UTF-8 bytes; dicts are association lists in insertion order;
    JSON values with \<open>dumps\<close> and \<open>loads\<close>, base64, UTF-8, \<open>int()\<close>, \<open>float()\<close>, \<open>Decimal\<close>, \<open>split\<close>, \<open>join\<close>,
    \<open>str()\<close>. \<open>loads_dumps\<close> and \<open>header_roundtrip\<close> show that decoding undoes encoding.
  \<^item> \<open>Nonce_Store\<close>: both backends, the migration and the restart. The locale \<open>nonce_store_api\<close> states what the
    server relies on and is interpreted on both backends; the SQLite store refines the dict store.
  \<^item> \<open>Rate_Limiter\<close>: the token bucket over exact rationals; its grants are bounded by balance plus rate
    times time.
  \<^item> \<open>Memory_Service\<close>, \<open>Memory_Root\<close>, \<open>Memory_Query\<close>, \<open>Memory_Persist\<close>: the sign-bit encoder, insertion,
    table-lookup query, decay, the Merkle root, the archive. The root is stable, order-independent and
    tamper-evident up to collisions; the scan is the inner product with the stored signs; loading undoes
    saving.
  \<^item> \<open>Payment\<close>, \<open>Dark_Pool\<close>: validation and commitment of payments, the handlers, the lifespan;
    \<open>Pool_Safety\<close>, \<open>Pool_Runs\<close>, \<open>Pool_Example\<close>, \<open>Pool_Properties\<close>: what a 200 implies, runs of requests,
    purges and restarts, and that nothing is served twice, unpaid, or over the rate.
  \<^item> \<open>X402_Client\<close>, \<open>Client_Safety\<close>, \<open>Exchange\<close>, \<open>Client_Properties\<close>: the client against any server (at most
    one payment, within the policy) and in front of the modelled server (an honest client is served).
  \<^item> \<open>Bob_Agent\<close>, \<open>Bob_Memory\<close>, \<open>Bob_Properties\<close>: constitution, decision, lessons, children.
  \<^item> \<open>Alice_Agent\<close>, \<open>Alice_Properties\<close>: corpus, cold build, warm start; every corpus text is read back by
    the buyer's parser, and the cache stands for the mind it was saved from.
  \<^item> \<open>Duelist\<close>, \<open>Duel_Runner\<close>, \<open>Duel_Safety\<close>, \<open>Duel_Properties\<close>: prompts, replies, recall; calldata,
    receipts, scoring, the cycle with its counterfactual, polling. Reports are earned, survival is the
    counterfactual, and the anchored memory is the log of the duel.
  \<^item> \<open>Arena\<close>, \<open>Arena_Properties\<close>: pairing, stepping through the window, aggregation, rankings. A run ends
    with one duel per pair; the leaderboard is the ledger of the reports.
  \<^item> \<open>Chain\<close>, \<open>Resolve_Bond\<close>, \<open>Anchor\<close>, \<open>Chain_Properties\<close>: JSON-RPC, receipts, signing and broadcasting, the
    revert probe; the oracle call and its verdict; the anchoring of a root. The wait for a receipt ends,
    and a revert is reported only on evidence.
  \<^item> \<open>Keys\<close>, \<open>Wallet_Properties\<close>: key resolution, encrypted wallets with their sidecar of identities, the
    environment file. A spawned pool is loaded as it was; the file never overrides the environment.
  \<^item> \<open>Registry\<close>, \<open>Registry_Service\<close>, \<open>Registry_Safety\<close>, \<open>Registry_Example\<close>, \<open>Registry_Properties\<close>: calldata and
    receipts of the on-chain registry; the service, its directory, write paths and routes. Its state is
    well formed over any run (\<open>service_step\<close>), published advice is for sale and can be verified from
    the chain, but can also rewrite the pinned set.
  \<^item> \<open>Agent_Runner\<close>, \<open>Runner_Properties\<close>: templates, one cycle, the bounded and the unbounded loop
    (\<open>partial_function\<close>, \<open>None\<close> when it never ends). A run is accounted for, is a run of the service's own
    steps, and ends when it is told to.
  \<^item> \<open>Orchestrator\<close>, \<open>Demo_Properties\<close>: the six steps of the demo as one state of both agents passed through,
    with what a step changed before it failed; the standalone steps. No run (\<open>demo_run\<close>) moves the
    constitution, and the decay step evicts its noise.

  Parameters. What the repository does not contain is an argument: EIP-712 recovery and signing,
  pydantic's coercion, keccak, SHA-256, the ABI coder, numpy's generator and its partial sorts, the
  sentence encoder, the language model, the HTTP transport, the chain, the cast process, key
  encryption, clocks and random bytes. The
  hypotheses about them state documented behaviour (a signature recovers its signer, an encoder returns
  one vector per text) and every property that has one is applied to a concrete instance.

  Bounds and fuel. The JSON parser is given \<open>2 * length s + 1\<close> units of fuel, which \<open>parse_fuel\<close> shows
  to be enough for any text (Python's recursion limit is not modelled). The wait for a receipt
  is given \<open>receipt_fuel\<close> polls, which \<open>receipt_wait_ends\<close> shows to be enough on a clock that does not run
  back. The runner's unbounded loop is a \<open>partial_function\<close>, with \<open>forever_ends_when_told\<close> for its return.
  Every other recursion is structural or has a measure. A duel of the arena runs at most \<open>total_steps\<close> steps.

  Where the model abstracts. Handlers run atomically: after the body is read the server never suspends
  with a lock held. Floats are the numbers they stand for; only JSON numbers are rounded to doubles
  (\<open>double_of\<close>). \<open>lower\<close>, \<open>upper\<close> and \<open>strip\<close> act on ASCII. Exceptions carry the constant head of their
  message. Logging, printing and locks are left out. Agents of a run are distinct objects.

  Not modelled: \<open>agents/provision.py\<close>, the demo, seed and arena scripts (printing,
  sleeping and processes around the modelled agents), \<open>scripts/docs_to_skills.py\<close>, the preflight checks
  (probes of the deployment environment); command lines; the Solidity and TypeScript parts, which are
  other programs.
\<close>

end
